(* ===== verification/Prelude.thy ===== *)
theory Prelude
  imports Main "HOL-Library.Word" "HOL-Library.Multiset"
begin

text \<open>
  Shared vocabulary of the development: the lemma collections, the C++ integer conversions
  the sources rely on (truncating division, conversion of a signed \<open>int\<close> to \<open>size_t\<close>,
  narrowing to \<open>uint32_t\<close>), decimal printing as \<open>std::to_string\<close> does it, and the
  generic facts on lists, counting and words that several components use.
\<close>

section \<open>Lemma collections\<close>

named_theorems queue_simps "characteristic equations of the queue operations"
named_theorems node_simps "unfolding of the node operations"
named_theorems cal_simps "readings of the calendar word operations as integers"

section \<open>C++ integers\<close>

type_synonym u8 = "8 word"
type_synonym s16 = "16 word"
type_synonym u32 = "32 word"

text \<open>Division of signed integers truncates towards zero.\<close>

definition c_div :: "int \<Rightarrow> int \<Rightarrow> int" where
  "c_div a b = sgn a * sgn b * (\<bar>a\<bar> div \<bar>b\<bar>)"

definition c_mod :: "int \<Rightarrow> int \<Rightarrow> int" where
  "c_mod a b = a - c_div a b * b"

lemma c_div_nonneg: "0 \<le> a \<Longrightarrow> 0 < b \<Longrightarrow> c_div a b = a div b"
  by (cases "a = 0") (auto simp: c_div_def)

lemma c_div_neg: "a < 0 \<Longrightarrow> 0 < b \<Longrightarrow> c_div a b = - (- a div b)"
  by (auto simp: c_div_def)

lemma c_mod_0_iff: "0 < b \<Longrightarrow> c_mod a b = 0 \<longleftrightarrow> a mod b = 0"
proof (cases "0 \<le> a")
  case False
  moreover assume "0 < b"
  ultimately have "c_mod a b = 0 \<longleftrightarrow> (- a) mod b = 0"
    by (auto simp: c_mod_def c_div_neg minus_div_mult_eq_mod [symmetric])
  then show ?thesis by (metis add.inverse_inverse mod_0_imp_dvd dvd_minus_iff dvd_imp_mod_0)
qed (auto simp: c_mod_def c_div_nonneg minus_div_mult_eq_mod)

text \<open>
  The idiom \<open>(x >= 0 ? x : x - (n-1)) / n\<close> computes the floor of \<open>x / n\<close>; the
  sources use it for months, weekdays and eras.
\<close>

lemma c_div_floor:
  assumes "0 < n"
  shows "c_div (if x \<ge> 0 then x else x - (n - 1)) n = x div n"
proof (cases "0 \<le> x")
  case True
  then show ?thesis using assms by (simp add: c_div_nonneg)
next
  case False
  then have "c_div (x - (n - 1)) n = - ((- (x - (n - 1))) div n)"
    using assms by (intro c_div_neg) auto
  also have "(- (x - (n - 1))) div n = - (x div n)"
    using assms
    by (simp add: zdiv_zminus1_eq_if div_pos_pos_trivial)
      (smt (verit) assms div_mult_self1 minus_div_mult_eq_mod mod_pos_pos_trivial
        pos_mod_bound pos_mod_sign zdiv_zminus1_eq_if)
  finally show ?thesis using False by simp
qed

lemma c_floor12: "c_div (if x \<ge> 0 then x else x - 11) 12 = x div 12"
  using c_div_floor [of 12 x] by (auto split: if_splits)

lemma c_floor7: "c_div (if x \<ge> 0 then x else x - 6) 7 = x div 7"
  using c_div_floor [of 7 x] by (auto split: if_splits)

lemma c_floor400: "c_div (if x \<ge> 0 then x else x - 399) 400 = x div 400"
  using c_div_floor [of 400 x] by (auto split: if_splits)

lemma c_floor146097: "c_div (if x \<ge> 0 then x else x - 146096) 146097 = x div 146097"
  using c_div_floor [of 146097 x] by (auto split: if_splits)

text \<open>The value of a signed \<open>int\<close> compared with a \<open>size_t\<close> is converted modulo \<open>2^64\<close>.\<close>

definition size_t_of_int :: "int \<Rightarrow> nat" where
  "size_t_of_int i = nat (i mod 2 ^ 64)"

text \<open>A \<open>ssize_t\<close> stored in an \<open>int\<close>.\<close>

definition int_of_ssize :: "int \<Rightarrow> int" where
  "int_of_ssize x = (x + 2 ^ 31) mod 2 ^ 32 - 2 ^ 31"

lemma int_of_ssize_id [simp]: "- (2 ^ 31) \<le> x \<Longrightarrow> x < 2 ^ 31 \<Longrightarrow> int_of_ssize x = x"
  by (simp add: int_of_ssize_def)

definition uint32_of_size :: "nat \<Rightarrow> nat" where
  "uint32_of_size n = n mod 2 ^ 32"

lemma size_t_of_int_nonneg [simp]: "0 \<le> i \<Longrightarrow> i < 2 ^ 64 \<Longrightarrow> size_t_of_int i = nat i"
  by (simp add: size_t_of_int_def)

lemma size_t_of_int_neg: "- (2 ^ 64) \<le> i \<Longrightarrow> i < 0 \<Longrightarrow> size_t_of_int i = nat (i + 2 ^ 64)"
proof -
  assume a: "- (2 ^ 64) \<le> i" "i < 0"
  have "i mod 2 ^ 64 = (i + 2 ^ 64) mod 2 ^ 64" by simp
  also have "\<dots> = i + 2 ^ 64" using a by (intro mod_pos_pos_trivial) auto
  finally show ?thesis by (simp add: size_t_of_int_def)
qed

lemma uint32_of_size_id [simp]: "n < 2 ^ 32 \<Longrightarrow> uint32_of_size n = n"
  by (simp add: uint32_of_size_def)

section \<open>Decimal printing\<close>

definition digit_char :: "nat \<Rightarrow> char" where
  "digit_char d = char_of (48 + d)"

fun nat_to_string :: "nat \<Rightarrow> string" where
  "nat_to_string n =
     (if n < 10 then [digit_char n] else nat_to_string (n div 10) @ [digit_char (n mod 10)])"

declare nat_to_string.simps [simp del]

definition to_string :: "int \<Rightarrow> string" where
  "to_string i = (if i < 0 then CHR ''-'' # nat_to_string (nat (- i)) else nat_to_string (nat i))"

definition is_digit :: "char \<Rightarrow> bool" where
  "is_digit c \<longleftrightarrow> 48 \<le> (of_char c :: nat) \<and> (of_char c :: nat) \<le> 57"

definition digit_val :: "char \<Rightarrow> nat" where
  "digit_val c = of_char c - 48"

definition digits_val :: "string \<Rightarrow> nat" where
  "digits_val s = foldl (\<lambda>n c. 10 * n + digit_val c) 0 s"

lemma is_digit_digit_char [simp]: "d < 10 \<Longrightarrow> is_digit (digit_char d)"
  by (simp add: is_digit_def digit_char_def)

lemma digit_val_digit_char [simp]: "d < 10 \<Longrightarrow> digit_val (digit_char d) = d"
  by (simp add: digit_val_def digit_char_def)

lemma digits_val_snoc [simp]: "digits_val (s @ [c]) = 10 * digits_val s + digit_val c"
  by (simp add: digits_val_def)

lemma digits_val_Nil [simp]: "digits_val [] = 0"
  by (simp add: digits_val_def)

lemma nat_to_string_digits: "\<forall>c \<in> set (nat_to_string n). is_digit c"
proof (induction n rule: nat_to_string.induct)
  case (1 n)
  then show ?case by (subst nat_to_string.simps) auto
qed

lemma nat_to_string_not_Nil [simp]: "nat_to_string n \<noteq> []"
  by (subst nat_to_string.simps) simp

lemma digits_val_nat_to_string [simp]: "digits_val (nat_to_string n) = n"
proof (induction n rule: nat_to_string.induct)
  case (1 n)
  show ?case
  proof (cases "n < 10")
    case True
    then show ?thesis
      by (subst nat_to_string.simps) (simp add: digits_val_def)
  next
    case False
    with 1 show ?thesis by (subst nat_to_string.simps) simp
  qed
qed

lemma length_nat_to_string_le:
  "n < 10 ^ k \<Longrightarrow> 0 < k \<Longrightarrow> length (nat_to_string n) \<le> k"
proof (induction k arbitrary: n)
  case 0
  then show ?case by simp
next
  case (Suc k)
  show ?case
  proof (cases "n < 10")
    case True
    then show ?thesis by (subst nat_to_string.simps) simp
  next
    case False
    with Suc.prems have "n div 10 < 10 ^ k" by (simp add: less_mult_imp_div_less)
    moreover have "0 < k" using False Suc.prems by (cases k) auto
    ultimately show ?thesis
      using Suc.IH False by (subst nat_to_string.simps) simp
  qed
qed

lemma is_digit_not_sign: "is_digit c \<Longrightarrow> c \<noteq> CHR ''-''"
  by (auto simp: is_digit_def)

section \<open>Lists and counting\<close>

lemma filter_hd_split: "xs \<noteq> [] \<Longrightarrow> filter P xs = (if P (hd xs) then [hd xs] else []) @ filter P (tl xs)"
  by (cases xs) auto

lemma count_list_removeAll [simp]:
  "count_list (removeAll x xs) y = (if x = y then 0 else count_list xs y)"
  by (induction xs) auto

lemma count_list_filter:
  "count_list (filter P xs) y = (if P y then count_list xs y else 0)"
  by (induction xs) auto

lemma filter_neq_removeAll [simp]: "filter (\<lambda>v. v \<noteq> x) xs = removeAll x xs"
  by (induction xs) auto

lemma count_list_eq_0_iff: "count_list xs y = 0 \<longleftrightarrow> y \<notin> set xs"
  by (simp add: count_list_0_iff)

end
