(* ===== verification/Monitor.thy ===== *)
theory Monitor
  imports Prelude
begin

text \<open>
  The C++ synchronisation primitives the sources build on: a mutex-protected object whose
  operations may wait on a \<open>std::condition_variable\<close> with a predicate and notify one or
  all waiters after they have left the critical section. An object is described by a
  \<open>monitor\<close>: for each operation the wait predicate (\<open>m_guard\<close>, always true for an
  operation that does not wait), the condition variable it waits on (\<open>m_cv\<close>), its critical
  section (\<open>m_body\<close>), the notifications it sends afterwards, in order (\<open>m_notify\<close>), and
  the critical section the same call goes on with, if any (\<open>m_next\<close>). An operation that
  waits with a time limit (\<open>m_timed\<close>, \<open>wait_for\<close>) may return without its critical section
  when it finds its predicate false.

  A configuration is the shared object and the multiset of the threads inside an operation.
  A thread is about to lock the mutex (\<open>Entering\<close>), asleep on the condition variable of its
  operation (\<open>Asleep\<close>), or past its critical section with notifications still to send
  (\<open>Notifying\<close>). Waking up is going back to \<open>Entering\<close>: the predicate is evaluated again.
  The relation allows every interleaving, every choice of the thread that \<open>notify_one\<close>
  wakes, and spurious wake-ups; a time limit that runs out is such a wake-up, after which the
  predicate is evaluated once more and the call may return. The predicate \<open>D\<close> is the client's discipline: which calls
  may be made while which threads are inside.
\<close>

datatype notify = NotifyOne | NotifyAll

datatype ('o, 'c) thr =
    Entering 'o
  | Asleep 'o
  | Notifying "('c \<times> notify) list" "'o option"

record ('s, 'o, 'c) monitor =
  m_guard :: "'o \<Rightarrow> 's \<Rightarrow> bool"
  m_cv :: "'o \<Rightarrow> 'c"
  m_body :: "'o \<Rightarrow> 's \<Rightarrow> 's"
  m_notify :: "'o \<Rightarrow> 's \<Rightarrow> ('c \<times> notify) list"
  m_next :: "'o \<Rightarrow> 'o option"
  m_timed :: "'o \<Rightarrow> bool"

type_synonym ('s, 'o, 'c) mon_conf = "'s \<times> ('o, 'c) thr multiset"

text \<open>What \<open>notify_all\<close> on condition variable \<open>c\<close> does to a thread.\<close>

fun wake_on :: "('s, 'o, 'c) monitor \<Rightarrow> 'c \<Rightarrow> ('o, 'c) thr \<Rightarrow> ('o, 'c) thr" where
  "wake_on M c (Asleep p) = (if m_cv M p = c then Entering p else Asleep p)"
| "wake_on M c t = t"

inductive mon_step ::
  "('s, 'o, 'c) monitor \<Rightarrow> ('o \<Rightarrow> ('o, 'c) thr multiset \<Rightarrow> bool)
    \<Rightarrow> ('s, 'o, 'c) mon_conf \<Rightarrow> ('s, 'o, 'c) mon_conf \<Rightarrow> bool"
  for M :: "('s, 'o, 'c) monitor" and D where
  call: "D p T \<Longrightarrow> mon_step M D (s, T) (s, add_mset (Entering p) T)"
| enter: "m_guard M p s \<Longrightarrow>
    mon_step M D (s, add_mset (Entering p) T)
      (m_body M p s, add_mset (Notifying (m_notify M p s) (m_next M p)) T)"
| sleep: "\<not> m_guard M p s \<Longrightarrow>
    mon_step M D (s, add_mset (Entering p) T) (s, add_mset (Asleep p) T)"
| timeout: "m_timed M p \<Longrightarrow> \<not> m_guard M p s \<Longrightarrow>
    mon_step M D (s, add_mset (Entering p) T) (s, add_mset (Notifying [] None) T)"
| wake_one: "m_cv M p = c \<Longrightarrow>
    mon_step M D (s, add_mset (Notifying ((c, NotifyOne) # ns) k) (add_mset (Asleep p) T))
      (s, add_mset (Notifying ns k) (add_mset (Entering p) T))"
| wake_none: "\<forall>p. Asleep p \<in># T \<longrightarrow> m_cv M p \<noteq> c \<Longrightarrow>
    mon_step M D (s, add_mset (Notifying ((c, NotifyOne) # ns) k) T)
      (s, add_mset (Notifying ns k) T)"
| wake_all: "mon_step M D (s, add_mset (Notifying ((c, NotifyAll) # ns) k) T)
      (s, add_mset (Notifying ns k) (image_mset (wake_on M c) T))"
| ret: "mon_step M D (s, add_mset (Notifying [] None) T) (s, T)"
| continue: "mon_step M D (s, add_mset (Notifying [] (Some p)) T) (s, add_mset (Entering p) T)"
| spurious: "mon_step M D (s, add_mset (Asleep p) T) (s, add_mset (Entering p) T)"

inductive mon_reach ::
  "('s, 'o, 'c) monitor \<Rightarrow> ('o \<Rightarrow> ('o, 'c) thr multiset \<Rightarrow> bool)
    \<Rightarrow> 's \<Rightarrow> ('s, 'o, 'c) mon_conf \<Rightarrow> bool"
  for M D s0 where
  start: "mon_reach M D s0 (s0, {#})"
| step: "mon_reach M D s0 x \<Longrightarrow> mon_step M D x y \<Longrightarrow> mon_reach M D s0 y"

text \<open>The discipline that allows every call.\<close>

definition any_call :: "'o \<Rightarrow> ('o, 'c) thr multiset \<Rightarrow> bool" where
  "any_call p T = True"

text \<open>
  A configuration is quiet when no thread can go on by itself: nobody is about to lock and
  nobody has notifications to send, so only a new call or a spurious wake-up can change it.
\<close>

definition quiet :: "('o, 'c) thr multiset \<Rightarrow> bool" where
  "quiet T \<longleftrightarrow> (\<forall>t \<in># T. \<exists>p. t = Asleep p)"

section \<open>Invariants of the shared object\<close>

text \<open>
  A property of the object that every critical section keeps, when entered with its
  predicate true, holds in every reachable configuration.
\<close>

lemma mon_reach_object_inv:
  assumes "mon_reach M D s0 x"
    and "I s0" and "\<And>p s. I s \<Longrightarrow> m_guard M p s \<Longrightarrow> I (m_body M p s)"
  shows "I (fst x)"
  using assms(1)
proof (induction rule: mon_reach.induct)
  case start
  show ?case by (simp add: assms(2))
next
  case (step x y)
  from step(2) step(3) show ?case
    by (cases rule: mon_step.cases) (auto intro: assms(3))
qed

text \<open>Relating the object to its starting state across a run.\<close>

lemma mon_reach_object_rel:
  assumes "mon_reach M D s0 x"
    and "R s0 s0" and "\<And>p s. R s0 s \<Longrightarrow> m_guard M p s \<Longrightarrow> R s0 (m_body M p s)"
  shows "R s0 (fst x)"
  using mon_reach_object_inv [where I = "R s0", OF assms] .

section \<open>Concrete schedules\<close>

text \<open>
  A run by a list of actions on the threads inside, in a list: a new call, the next step of
  the thread at an index, or its \<open>notify_one\<close> waking the sleeper at an index among the others;
  the thread that acts comes to the front.
\<close>

datatype 'o mon_action = Call 'o | Run nat | Wake nat nat

fun sleeps_on :: "('s, 'o, 'c) monitor \<Rightarrow> 'c \<Rightarrow> ('o, 'c) thr \<Rightarrow> bool" where
  "sleeps_on M c (Asleep p) \<longleftrightarrow> m_cv M p = c"
| "sleeps_on M c t \<longleftrightarrow> False"

fun run_thread ::
    "('s, 'o, 'c) monitor \<Rightarrow> 's \<Rightarrow> ('o, 'c) thr \<Rightarrow> ('o, 'c) thr list
      \<Rightarrow> ('s \<times> ('o, 'c) thr list) option" where
  "run_thread M s (Entering p) T =
     (if m_guard M p s then Some (m_body M p s, Notifying (m_notify M p s) (m_next M p) # T)
      else Some (s, Asleep p # T))"
| "run_thread M s (Asleep p) T = None"
| "run_thread M s (Notifying [] None) T = Some (s, T)"
| "run_thread M s (Notifying [] (Some p)) T = Some (s, Entering p # T)"
| "run_thread M s (Notifying ((c, NotifyAll) # ns) k) T =
     Some (s, Notifying ns k # map (wake_on M c) T)"
| "run_thread M s (Notifying ((c, NotifyOne) # ns) k) T =
     (if list_ex (sleeps_on M c) T then None else Some (s, Notifying ns k # T))"

fun wake_thread ::
    "('s, 'o, 'c) monitor \<Rightarrow> ('o, 'c) thr \<Rightarrow> ('o, 'c) thr \<Rightarrow> ('o, 'c) thr list option" where
  "wake_thread M (Notifying ((c, NotifyOne) # ns) k) (Asleep p) =
     (if m_cv M p = c then Some [Notifying ns k, Entering p] else None)"
| "wake_thread M t u = None"

definition others :: "nat \<Rightarrow> 'a list \<Rightarrow> 'a list" where
  "others i ts = take i ts @ drop (Suc i) ts"

fun mon_act ::
    "('s, 'o, 'c) monitor \<Rightarrow> ('o \<Rightarrow> ('o, 'c) thr multiset \<Rightarrow> bool) \<Rightarrow> 'o mon_action
      \<Rightarrow> 's \<times> ('o, 'c) thr list \<Rightarrow> ('s \<times> ('o, 'c) thr list) option" where
  "mon_act M D (Call p) (s, ts) = (if D p (mset ts) then Some (s, Entering p # ts) else None)"
| "mon_act M D (Run i) (s, ts) =
     (if i < length ts then run_thread M s (ts ! i) (others i ts) else None)"
| "mon_act M D (Wake i j) (s, ts) =
     (if i < length ts \<and> j < length (others i ts)
      then map_option (\<lambda>us. (s, us @ others j (others i ts)))
        (wake_thread M (ts ! i) (others i ts ! j))
      else None)"

fun mon_run ::
    "('s, 'o, 'c) monitor \<Rightarrow> ('o \<Rightarrow> ('o, 'c) thr multiset \<Rightarrow> bool) \<Rightarrow> 'o mon_action list
      \<Rightarrow> 's \<times> ('o, 'c) thr list \<Rightarrow> ('s \<times> ('o, 'c) thr list) option" where
  "mon_run M D [] x = Some x"
| "mon_run M D (a # as) x =
     (case mon_act M D a x of None \<Rightarrow> None | Some y \<Rightarrow> mon_run M D as y)"

lemma mset_others: "i < length ts \<Longrightarrow> mset ts = add_mset (ts ! i) (mset (others i ts))"
  by (subst id_take_nth_drop [of i ts]) (auto simp: others_def)

lemma run_thread_step:
  "run_thread M s t T = Some (s', ts') \<Longrightarrow> mon_step M D (s, add_mset t (mset T)) (s', mset ts')"
proof (induction M s t T rule: run_thread.induct)
  case (1 M s p T)
  then show ?case by (auto intro: enter sleep split: if_splits)
next
  case (6 M s c ns k T)
  then have "\<forall>p. Asleep p \<in># mset T \<longrightarrow> m_cv M p \<noteq> c"
    by (force simp: list_ex_iff split: if_splits)
  from wake_none [OF this] 6 show ?case by (auto split: if_splits)
qed (auto intro: ret continue wake_all)

lemma wake_thread_step:
  "wake_thread M t u = Some us \<Longrightarrow>
    mon_step M D (s, add_mset t (add_mset u T)) (s, mset us + T)"
  by (induction M t u rule: wake_thread.induct) (auto intro: wake_one split: if_splits)

lemma mon_act_step: "mon_act M D a (s, ts) = Some (s', ts') \<Longrightarrow> mon_step M D (s, mset ts) (s', mset ts')"
proof (cases a)
  case (Call p)
  moreover assume "mon_act M D a (s, ts) = Some (s', ts')"
  ultimately show ?thesis by (auto intro: mon_step.call split: if_splits)
next
  case (Run i)
  moreover assume "mon_act M D a (s, ts) = Some (s', ts')"
  ultimately show ?thesis
    using run_thread_step [of M s "ts ! i" "others i ts"] mset_others [of i ts]
    by (simp split: if_splits)
next
  case (Wake i j)
  moreover assume "mon_act M D a (s, ts) = Some (s', ts')"
  ultimately obtain us where "i < length ts" "j < length (others i ts)"
    "wake_thread M (ts ! i) (others i ts ! j) = Some us" "s' = s"
    "ts' = us @ others j (others i ts)"
    by (auto split: if_splits)
  then show ?thesis
    using mset_others [of i ts] mset_others [of j "others i ts"]
      wake_thread_step [of M "ts ! i" "others i ts ! j" us D s "mset (others j (others i ts))"]
    by simp
qed

lemma mon_run_reach:
  "mon_run M D as (s, ts) = Some (s', ts') \<Longrightarrow> mon_reach M D s0 (s, mset ts) \<Longrightarrow>
    mon_reach M D s0 (s', mset ts')"
proof (induction as arbitrary: s ts)
  case Nil
  then show ?case by simp
next
  case (Cons a as)
  from Cons.prems(1) obtain s1 ts1 where "mon_act M D a (s, ts) = Some (s1, ts1)"
    and y: "mon_run M D as (s1, ts1) = Some (s', ts')"
    by (auto split: option.splits)
  from mon_act_step [OF this(1)] Cons.prems(2) have "mon_reach M D s0 (s1, mset ts1)"
    by (blast intro: mon_reach.step)
  with y show ?case by (rule Cons.IH)
qed

lemma mon_run_from_start:
  "mon_run M D as (s0, []) = Some (s, ts) \<Longrightarrow> mon_reach M D s0 (s, mset ts)"
  by (rule mon_run_reach) (auto intro: mon_reach.start)

section \<open>Condition variables without lost wake-ups\<close>

text \<open>
  Counting what can still go on for one condition variable \<open>c\<close>: the waiters about to
  evaluate their predicate and the notifications on \<open>c\<close> still to be sent.
\<close>

fun thr_entering :: "('o \<Rightarrow> bool) \<Rightarrow> ('o, 'c) thr \<Rightarrow> nat" where
  "thr_entering W (Entering p) = (if W p then 1 else 0)"
| "thr_entering W t = 0"

definition notes_on :: "'c \<Rightarrow> ('c \<times> notify) list \<Rightarrow> nat" where
  "notes_on c ns = length (filter (\<lambda>n. fst n = c) ns)"

fun thr_pending :: "'c \<Rightarrow> ('o, 'c) thr \<Rightarrow> nat" where
  "thr_pending c (Notifying ns k) = notes_on c ns"
| "thr_pending c t = 0"

definition awake :: "'c \<Rightarrow> ('o \<Rightarrow> bool) \<Rightarrow> ('o, 'c) thr multiset \<Rightarrow> nat" where
  "awake c W T = (\<Sum>t \<in># T. thr_entering W t + thr_pending c t)"

lemma notes_on_simps [simp]:
  "notes_on c [] = 0"
  "notes_on c ((d, n) # ns) = (if d = c then Suc (notes_on c ns) else notes_on c ns)"
  by (simp_all add: notes_on_def)

lemma notes_on_unit [simp]: "notes_on (u :: unit) ns = length ns"
  by (induction ns) (auto simp: notes_on_def)

lemma awake_add [simp]:
  "awake c W (add_mset t T) = thr_entering W t + thr_pending c t + awake c W T"
  by (simp add: awake_def)

lemma awake_empty [simp]: "awake c W {#} = 0"
  by (simp add: awake_def)

lemma awake_quiet:
  assumes "quiet T"
  shows "awake c W T = 0"
proof -
  have "thr_entering W t + thr_pending c t = 0" if "t \<in># T" for t
    using assms that by (auto simp: quiet_def)
  then show ?thesis by (simp add: awake_def)
qed

lemma awake_wake_on: "awake c W T \<le> awake c W (image_mset (wake_on M d) T)"
proof (induction T)
  case (add t T)
  have "thr_entering W t + thr_pending c t
      \<le> thr_entering W (wake_on M d t) + thr_pending c (wake_on M d t)"
    by (cases t) auto
  with add show ?case by simp
qed simp

text \<open>Somebody is asleep on \<open>c\<close>; a \<open>notify_all\<close> on \<open>c\<close> is still to be sent.\<close>

definition asleep_on :: "('s, 'o, 'c) monitor \<Rightarrow> 'c \<Rightarrow> ('o, 'c) thr multiset \<Rightarrow> bool" where
  "asleep_on M c T \<longleftrightarrow> (\<exists>p. Asleep p \<in># T \<and> m_cv M p = c)"

definition all_due :: "'c \<Rightarrow> ('o, 'c) thr multiset \<Rightarrow> bool" where
  "all_due c T \<longleftrightarrow> (\<exists>ns k. Notifying ns k \<in># T \<and> (c, NotifyAll) \<in> set ns)"

lemma asleep_on_add [simp]:
  "asleep_on M c (add_mset t T) \<longleftrightarrow> (\<exists>p. t = Asleep p \<and> m_cv M p = c) \<or> asleep_on M c T"
  by (auto simp: asleep_on_def)

lemma all_due_add [simp]:
  "all_due c (add_mset t T) \<longleftrightarrow>
    (\<exists>ns k. t = Notifying ns k \<and> (c, NotifyAll) \<in> set ns) \<or> all_due c T"
  by (auto simp: all_due_def)

lemma asleep_in_wake_on [simp]:
  "Asleep p \<in> wake_on M d ` A \<longleftrightarrow> Asleep p \<in> A \<and> m_cv M p \<noteq> d"
proof -
  have eq: "Asleep p = wake_on M d t \<longleftrightarrow> t = Asleep p \<and> m_cv M p \<noteq> d" for t
    by (cases t) auto
  show ?thesis unfolding image_iff eq by blast
qed

lemma notifying_in_wake_on [simp]:
  "Notifying ns k \<in> wake_on M d ` A \<longleftrightarrow> Notifying ns k \<in> A"
proof -
  have eq: "Notifying ns k = wake_on M d t \<longleftrightarrow> t = Notifying ns k" for t
    by (cases t) auto
  show ?thesis unfolding image_iff eq by blast
qed

lemma asleep_on_wake_on:
  "asleep_on M c (image_mset (wake_on M d) T) \<longleftrightarrow> c \<noteq> d \<and> asleep_on M c T"
  by (auto simp: asleep_on_def)

lemma all_due_wake_on: "all_due c (image_mset (wake_on M d) T) \<longleftrightarrow> all_due c T"
  by (simp add: all_due_def)

lemma quiet_not_due: "quiet T \<Longrightarrow> \<not> all_due c T"
  by (auto simp: quiet_def all_due_def)

text \<open>The operation a thread is in, now or after its notifications.\<close>

fun thr_ok :: "('o \<Rightarrow> bool) \<Rightarrow> ('o, 'c) thr \<Rightarrow> bool" where
  "thr_ok ok (Entering p) = ok p"
| "thr_ok ok (Asleep p) = ok p"
| "thr_ok ok (Notifying ns k) = (case k of None \<Rightarrow> True | Some p \<Rightarrow> ok p)"

lemma thr_ok_wake_on [simp]: "thr_ok ok (wake_on M d t) = thr_ok ok t"
  by (cases t) auto

text \<open>
  The contract under which condition variable \<open>c\<close> loses no wake-up: the object holds a
  number of tokens; a thread that sleeps on \<open>c\<close> is a waiter and found no token; a waiter
  that goes on consumes at least one; every other operation sends at least one notification
  on \<open>c\<close> for each token it adds, or a \<open>notify_all\<close>. \<open>ok\<close> are the operations the clients
  call, \<open>inv\<close> an invariant of the object.
\<close>

locale cv_tokens =
  fixes M :: "('s, 'o, 'c) monitor"
    and c :: 'c
    and tokens :: "'s \<Rightarrow> nat"
    and waiter :: "'o \<Rightarrow> bool"
    and ok :: "'o \<Rightarrow> bool"
    and inv :: "'s \<Rightarrow> bool"
  assumes inv_body: "ok p \<Longrightarrow> inv s \<Longrightarrow> m_guard M p s \<Longrightarrow> inv (m_body M p s)"
    and ok_next: "ok p \<Longrightarrow> m_next M p = Some p' \<Longrightarrow> ok p'"
    and sleeps: "ok p \<Longrightarrow> inv s \<Longrightarrow> \<not> m_guard M p s \<Longrightarrow> m_cv M p = c \<Longrightarrow> tokens s = 0"
    and sleeper: "ok p \<Longrightarrow> inv s \<Longrightarrow> \<not> m_guard M p s \<Longrightarrow> m_cv M p = c \<Longrightarrow> waiter p"
    and waiter_cv: "ok p \<Longrightarrow> waiter p \<Longrightarrow> m_cv M p = c"
    and consumes: "ok p \<Longrightarrow> inv s \<Longrightarrow> m_guard M p s \<Longrightarrow> waiter p \<Longrightarrow>
      tokens (m_body M p s) < tokens s"
    and produces: "ok p \<Longrightarrow> inv s \<Longrightarrow> m_guard M p s \<Longrightarrow> \<not> waiter p \<Longrightarrow>
      tokens (m_body M p s) \<le> tokens s + notes_on c (m_notify M p s) \<or>
      (c, NotifyAll) \<in> set (m_notify M p s)"
begin

definition cv_inv :: "('s, 'o, 'c) mon_conf \<Rightarrow> bool" where
  "cv_inv x \<longleftrightarrow> inv (fst x) \<and> (\<forall>t \<in># snd x. thr_ok ok t) \<and>
     (\<forall>p. Asleep p \<in># snd x \<longrightarrow> m_cv M p = c \<longrightarrow> waiter p) \<and>
     (asleep_on M c (snd x) \<longrightarrow> tokens (fst x) \<le> awake c waiter (snd x) \<or> all_due c (snd x))"

lemma cv_inv_enter:
  assumes "cv_inv (s, add_mset (Entering p) T)" and g: "m_guard M p s"
  shows "cv_inv (m_body M p s, add_mset (Notifying (m_notify M p s) (m_next M p)) T)"
proof -
  from assms(1) have p: "ok p" "inv s" and T: "\<forall>t \<in># T. thr_ok ok t"
    "\<forall>p. Asleep p \<in># T \<longrightarrow> m_cv M p = c \<longrightarrow> waiter p"
    and a: "asleep_on M c T \<longrightarrow>
      tokens s \<le> (if waiter p then 1 else 0) + awake c waiter T \<or> all_due c T"
    by (auto simp: cv_inv_def)
  have "asleep_on M c T \<longrightarrow>
      tokens (m_body M p s) \<le> notes_on c (m_notify M p s) + awake c waiter T \<or>
      (c, NotifyAll) \<in> set (m_notify M p s) \<or> all_due c T"
    using a consumes [OF p g] produces [OF p g] by (cases "waiter p") auto
  with inv_body [OF p g] ok_next [OF p(1)] T show ?thesis
    by (auto simp: cv_inv_def split: option.split)
qed

lemma cv_inv_sleep:
  assumes "cv_inv (s, add_mset (Entering p) T)" and g: "\<not> m_guard M p s"
  shows "cv_inv (s, add_mset (Asleep p) T)"
proof (cases "m_cv M p = c")
  case True
  from assms(1) have "ok p" "inv s" by (auto simp: cv_inv_def)
  with sleeps sleeper True g have "tokens s = 0" "waiter p" by blast+
  with assms(1) show ?thesis by (auto simp: cv_inv_def)
next
  case False
  from assms(1) have "ok p" by (auto simp: cv_inv_def)
  with False waiter_cv have "\<not> waiter p" by blast
  with False assms(1) show ?thesis by (auto simp: cv_inv_def)
qed

lemma cv_inv_timeout:
  assumes "cv_inv (s, add_mset (Entering p) T)" and g: "\<not> m_guard M p s"
  shows "cv_inv (s, add_mset (Notifying [] None) T)"
proof (cases "m_cv M p = c")
  case True
  from assms(1) have "ok p" "inv s" by (auto simp: cv_inv_def)
  with sleeps True g have "tokens s = 0" by blast
  with assms(1) show ?thesis by (auto simp: cv_inv_def)
next
  case False
  from assms(1) have "ok p" by (auto simp: cv_inv_def)
  with False waiter_cv have "\<not> waiter p" by blast
  with assms(1) show ?thesis by (auto simp: cv_inv_def)
qed

lemma cv_inv_wake_all:
  assumes "cv_inv (s, add_mset (Notifying ((d, NotifyAll) # ns) k) T)"
  shows "cv_inv (s, add_mset (Notifying ns k) (image_mset (wake_on M d) T))"
proof -
  have "tokens s \<le> notes_on c ns + awake c waiter (image_mset (wake_on M d) T) \<or>
      (c, NotifyAll) \<in> set ns \<or> all_due c T" if "asleep_on M c T" "d \<noteq> c"
    using assms that awake_wake_on [of c waiter T M d] by (auto simp: cv_inv_def)
  moreover have "thr_ok ok t" if "t \<in># T" for t
    using assms that by (simp add: cv_inv_def)
  ultimately show ?thesis
    using assms by (auto simp: cv_inv_def asleep_on_wake_on all_due_wake_on)
qed

lemma cv_inv_step:
  assumes "\<And>p T. D p T \<Longrightarrow> ok p"
  shows "mon_step M D x y \<Longrightarrow> cv_inv x \<Longrightarrow> cv_inv y"
proof (induction rule: mon_step.induct)
  case (call p T s)
  with assms have "ok p" by blast
  with call.prems show ?case by (auto simp: cv_inv_def)
next
  case (enter p s T)
  then show ?case by (blast intro: cv_inv_enter)
next
  case (sleep p s T)
  then show ?case by (blast intro: cv_inv_sleep)
next
  case (timeout p s T)
  then show ?case by (blast intro: cv_inv_timeout)
next
  case (wake_one p d s ns k T)
  then show ?case by (cases "d = c") (auto simp: cv_inv_def)
next
  case (wake_none T d s ns k)
  then have "d = c \<Longrightarrow> \<not> asleep_on M c T" by (auto simp: asleep_on_def)
  with wake_none show ?case by (cases "d = c") (auto simp: cv_inv_def)
next
  case (wake_all s d ns k T)
  then show ?case by (blast intro: cv_inv_wake_all)
next
  case (spurious s p T)
  then show ?case by (cases "m_cv M p = c") (auto simp: cv_inv_def)
qed (auto simp: cv_inv_def)

lemma cv_inv_reach:
  assumes "mon_reach M D s0 x" and "inv s0" and "\<And>p T. D p T \<Longrightarrow> ok p"
  shows "cv_inv x"
  using assms(1)
proof (induction rule: mon_reach.induct)
  case start
  then show ?case by (simp add: cv_inv_def asleep_on_def assms(2))
next
  case (step x y)
  then show ?case using cv_inv_step [of D x y, OF assms(3)] by simp
qed

theorem nobody_left_asleep:
  assumes "mon_reach M D s0 (s, T)" and "inv s0" and "\<And>p T. D p T \<Longrightarrow> ok p"
    and "quiet T" and "0 < tokens s"
  shows "\<not> asleep_on M c T"
  using cv_inv_reach [OF assms(1-3)] assms(4,5)
  by (auto simp: cv_inv_def awake_quiet quiet_not_due)

end

text \<open>
  The special case of one condition variable and operations under no discipline: when the
  monitor is quiet and a token is left, no thread is inside at all.
\<close>

locale token_monitor =
  fixes M :: "('s, 'o, unit) monitor"
    and tokens :: "'s \<Rightarrow> nat"
    and waiter :: "'o \<Rightarrow> bool"
  assumes guard_waiter: "waiter p \<Longrightarrow> m_guard M p s \<longleftrightarrow> 0 < tokens s"
    and guard_other: "\<not> waiter p \<Longrightarrow> m_guard M p s"
    and body_waiter: "waiter p \<Longrightarrow> 0 < tokens s \<Longrightarrow> tokens (m_body M p s) < tokens s"
    and body_other: "\<not> waiter p \<Longrightarrow>
      tokens (m_body M p s) \<le> tokens s + length (m_notify M p s)"

sublocale token_monitor \<subseteq> cv: cv_tokens M "()" tokens waiter "\<lambda>_. True" "\<lambda>_. True"
proof unfold_locales
  fix p s
  show "\<not> m_guard M p s \<Longrightarrow> tokens s = 0" using guard_waiter guard_other by blast
  show "\<not> m_guard M p s \<Longrightarrow> waiter p" using guard_other by blast
  show "m_guard M p s \<Longrightarrow> waiter p \<Longrightarrow> tokens (m_body M p s) < tokens s"
    using guard_waiter body_waiter by blast
  show "\<not> waiter p \<Longrightarrow> tokens (m_body M p s) \<le> tokens s + notes_on () (m_notify M p s) \<or>
      ((), NotifyAll) \<in> set (m_notify M p s)"
    using body_other by simp
qed auto

context token_monitor begin

theorem no_lost_wakeup:
  assumes "mon_reach M D s0 (s, T)" and "quiet T" and "0 < tokens s"
  shows "T = {#}"
proof (rule ccontr)
  assume "T \<noteq> {#}"
  then obtain t where "t \<in># T" by blast
  with assms(2) have "asleep_on M () T" by (auto simp: quiet_def asleep_on_def)
  with cv.nobody_left_asleep [OF assms(1) _ _ assms(2,3)] show False by simp
qed

end

end
