(* ===== verification/Excepts.thy ===== *)
theory Excepts
  imports Prelude
begin

text \<open>
  Errors as values: the four exception classes of \<open>excepts/vp_excepts.h\<close> and the standard
  and third-party exceptions the modelled code can raise. A fallible operation returns
  \<open>Inl\<close> of one of these. \<open>assertion_failed\<close> is an \<open>assert\<close> that does not hold (the
  build type is Debug, so the assertions are compiled in), \<open>thrown_literal\<close> a thrown string.
\<close>

datatype vp_exception =
    vp_invalid_argument_error string
  | vp_invalid_calling_error string
  | vp_invalid_pipeline_error string
  | vp_not_implemented_error string
  | std_runtime_error string
  | std_invalid_argument string
  | std_ios_failure string
  | py_cast_error string
  | assertion_failed string
  | thrown_literal string

text \<open>\<open>what()\<close> of an exception: the constructor argument, handed to the base class.\<close>

fun what :: "vp_exception \<Rightarrow> string" where
  "what (vp_invalid_argument_error s) = s"
| "what (vp_invalid_calling_error s) = s"
| "what (vp_invalid_pipeline_error s) = s"
| "what (vp_not_implemented_error s) = s"
| "what (std_runtime_error s) = s"
| "what (std_invalid_argument s) = s"
| "what (std_ios_failure s) = s"
| "what (py_cast_error s) = s"
| "what (assertion_failed s) = s"
| "what (thrown_literal s) = s"

type_synonym 'a result = "vp_exception + 'a"

text \<open>Sequencing: an error ends the computation, as the exception unwinds the call.\<close>

definition bind_result :: "'a result \<Rightarrow> ('a \<Rightarrow> 'b result) \<Rightarrow> 'b result" where
  "bind_result r f = (case r of Inl e \<Rightarrow> Inl e | Inr x \<Rightarrow> f x)"

lemma bind_result_simps [simp]:
  "bind_result (Inl e) f = Inl e"
  "bind_result (Inr x) f = f x"
  by (simp_all add: bind_result_def)

lemma bind_result_Inr_iff:
  "bind_result r f = Inr y \<longleftrightarrow> (\<exists>x. r = Inr x \<and> f x = Inr y)"
  by (auto simp: bind_result_def split: sum.splits)

end
