(* ===== verification/SafeQueue.thy ===== *)
theory SafeQueue
  imports Monitor Excepts
begin

text \<open>
  \<open>ThreadSafeQueue\<close> of \<open>utils/safe_queue.h\<close>. Every method holds \<open>data_m_\<close> for its whole
  critical section, so each is an atomic operation on the queue contents \<open>q_\<close> (head first).
  The waiting methods are given twice: as the critical section entered once the predicate
  holds (\<open>None\<close> while it does not), and, for the waking behaviour of \<open>notempty_cond_\<close>, as
  operations of a monitor.
\<close>

record 'a ts_queue =
  tsq_q :: "'a list"

definition ts_queue_new :: "'a ts_queue" where
  "ts_queue_new = \<lparr>tsq_q = []\<rparr>"

definition Front :: "'a ts_queue \<Rightarrow> 'a result" where
  "Front q = (case tsq_q q of
      [] \<Rightarrow> Inl (std_runtime_error ''ThreadSafeQueue: queue is empty'')
    | x # _ \<Rightarrow> Inr x)"

definition Pop :: "'a ts_queue \<Rightarrow> 'a ts_queue" where
  "Pop q = (case tsq_q q of [] \<Rightarrow> q | _ # xs \<Rightarrow> q\<lparr>tsq_q := xs\<rparr>)"

text \<open>\<open>TryPop(value)\<close>: the result, the value of the reference argument and the queue.\<close>

definition TryPop :: "'a \<Rightarrow> 'a ts_queue \<Rightarrow> bool \<times> 'a \<times> 'a ts_queue" where
  "TryPop value q = (case tsq_q q of
      [] \<Rightarrow> (False, value, q)
    | x # xs \<Rightarrow> (True, x, q\<lparr>tsq_q := xs\<rparr>))"

definition WaitAndPop :: "'a ts_queue \<Rightarrow> ('a \<times> 'a ts_queue) option" where
  "WaitAndPop q = (case tsq_q q of
      [] \<Rightarrow> None
    | x # xs \<Rightarrow> Some (x, q\<lparr>tsq_q := xs\<rparr>))"

text \<open>
  \<open>wait_for\<close> returns the predicate's value when it stops waiting, on a notification or on
  the timeout: \<open>q\<close> is the queue at that moment.
\<close>

definition WaitAndTryPop :: "'a \<Rightarrow> 'a ts_queue \<Rightarrow> bool \<times> 'a \<times> 'a ts_queue" where
  "WaitAndTryPop value q =
     (if tsq_q q \<noteq> [] then (True, hd (tsq_q q), q\<lparr>tsq_q := tl (tsq_q q)\<rparr>) else (False, value, q))"

definition Push :: "'a \<Rightarrow> 'a ts_queue \<Rightarrow> 'a ts_queue" where
  "Push new_value q = q\<lparr>tsq_q := tsq_q q @ [new_value]\<rparr>"

definition Empty :: "'a ts_queue \<Rightarrow> bool" where
  "Empty q \<longleftrightarrow> tsq_q q = []"

text \<open>\<open>Size\<close> narrows the \<open>size_t\<close> of the container to \<open>uint32_t\<close>.\<close>

definition Size :: "'a ts_queue \<Rightarrow> nat" where
  "Size q = uint32_of_size (length (tsq_q q))"

lemma q_simps [queue_simps, simp]:
  "tsq_q (ts_queue_new) = []"
  "tsq_q (Push x q) = tsq_q q @ [x]"
  "tsq_q (Pop q) = tl (tsq_q q)"
  by (simp_all add: ts_queue_new_def Push_def Pop_def split: list.split)

lemma Front_Inr_iff [queue_simps]: "Front q = Inr x \<longleftrightarrow> tsq_q q \<noteq> [] \<and> x = hd (tsq_q q)"
  by (cases "tsq_q q") (auto simp: Front_def)

lemma Front_Inl_iff [queue_simps]:
  "Front q = Inl e \<longleftrightarrow> tsq_q q = [] \<and> e = std_runtime_error ''ThreadSafeQueue: queue is empty''"
  by (cases "tsq_q q") (auto simp: Front_def)

lemma WaitAndPop_Some_iff [queue_simps]:
  "WaitAndPop q = Some (x, q') \<longleftrightarrow> tsq_q q = x # tsq_q q'"
  by (cases q; cases q'; cases "tsq_q q") (auto simp: WaitAndPop_def)

lemma WaitAndPop_None_iff [queue_simps]: "WaitAndPop q = None \<longleftrightarrow> tsq_q q = []"
  by (cases "tsq_q q") (auto simp: WaitAndPop_def)

lemma Empty_iff_Size: "length (tsq_q q) < 2 ^ 32 \<Longrightarrow> Empty q \<longleftrightarrow> Size q = 0"
  by (simp add: Empty_def Size_def)

section \<open>The queue interface\<close>

text \<open>
  What the nodes rely on: a first-in first-out queue seen through its contents. \<open>drain\<close>
  takes \<open>n\<close> elements out with the blocking pop.
\<close>

locale fifo_queue =
  fixes new :: "'q"
    and push :: "'a \<Rightarrow> 'q \<Rightarrow> 'q"
    and wait_pop :: "'q \<Rightarrow> ('a \<times> 'q) option"
    and contents :: "'q \<Rightarrow> 'a list"
  assumes contents_new: "contents new = []"
    and contents_push: "contents (push x q) = contents q @ [x]"
    and wait_pop_None: "wait_pop q = None \<longleftrightarrow> contents q = []"
    and wait_pop_Some: "wait_pop q = Some (x, q') \<Longrightarrow> contents q = x # contents q'"
begin

fun drain :: "nat \<Rightarrow> 'q \<Rightarrow> ('a list \<times> 'q) option" where
  "drain 0 q = Some ([], q)"
| "drain (Suc n) q = (case wait_pop q of
      None \<Rightarrow> None
    | Some (x, q') \<Rightarrow> map_option (\<lambda>(xs, q''). (x # xs, q'')) (drain n q'))"

lemma contents_push_all: "contents (fold push xs q) = contents q @ xs"
  by (induction xs arbitrary: q) (simp_all add: contents_push)

lemma drain_Some:
  "n \<le> length (contents q) \<Longrightarrow>
    \<exists>q'. drain n q = Some (take n (contents q), q') \<and> contents q' = drop n (contents q)"
proof (induction n arbitrary: q)
  case 0
  then show ?case by simp
next
  case (Suc n)
  then have "contents q \<noteq> []" by auto
  then obtain x q1 where q1: "wait_pop q = Some (x, q1)"
    using wait_pop_None by (metis not_None_eq prod.collapse)
  then have c: "contents q = x # contents q1" by (rule wait_pop_Some)
  with Suc.prems have "n \<le> length (contents q1)" by simp
  from Suc.IH [OF this] q1 c show ?case by auto
qed

lemma drain_blocks: "length (contents q) < n \<Longrightarrow> drain n q = None"
proof (induction n arbitrary: q)
  case 0
  then show ?case by simp
next
  case (Suc n)
  then show ?case
    by (auto split: option.split dest!: wait_pop_Some)
qed

lemma drain_push_all:
  "\<exists>q'. drain (length xs) (fold push xs new) = Some (xs, q') \<and> contents q' = []"
  using drain_Some [of "length xs" "fold push xs new"]
  by (simp add: contents_push_all contents_new)

end

interpretation tsq: fifo_queue ts_queue_new Push WaitAndPop tsq_q
  by unfold_locales (auto simp: queue_simps)

section \<open>Waking the consumers\<close>

datatype 'a queue_op =
    op_Push 'a
  | op_Pop
  | op_TryPop 'a
  | op_WaitAndPop
  | op_WaitAndTryPop 'a

text \<open>The two operations that wait for an element.\<close>

definition waits :: "'a queue_op \<Rightarrow> bool" where
  "waits p = (case p of op_WaitAndPop \<Rightarrow> True | op_WaitAndTryPop v \<Rightarrow> True | _ \<Rightarrow> False)"

definition ts_queue_monitor :: "('a ts_queue, 'a queue_op, unit) monitor" where
  "ts_queue_monitor = \<lparr>
     m_guard = (\<lambda>p q. waits p \<longrightarrow> tsq_q q \<noteq> []),
     m_cv = (\<lambda>_. ()),
     m_body = (\<lambda>p q. case p of
         op_Push x \<Rightarrow> Push x q
       | op_Pop \<Rightarrow> Pop q
       | op_TryPop v \<Rightarrow> snd (snd (TryPop v q))
       | op_WaitAndPop \<Rightarrow> (case WaitAndPop q of None \<Rightarrow> q | Some (x, q') \<Rightarrow> q')
       | op_WaitAndTryPop v \<Rightarrow> snd (snd (WaitAndTryPop v q))),
     m_notify = (\<lambda>p q. case p of op_Push x \<Rightarrow> [((), NotifyOne)] | _ \<Rightarrow> []),
     m_next = (\<lambda>_. None),
     m_timed = (\<lambda>p. case p of op_WaitAndTryPop v \<Rightarrow> True | _ \<Rightarrow> False)\<rparr>"

interpretation tsq_mon: token_monitor
    "ts_queue_monitor :: ('a ts_queue, 'a queue_op, unit) monitor"
    "\<lambda>q. length (tsq_q q)" waits
proof unfold_locales
  fix p :: "'a queue_op" and s :: "'a ts_queue"
  show "waits p \<Longrightarrow> m_guard ts_queue_monitor p s = (0 < length (tsq_q s))"
    by (simp add: ts_queue_monitor_def)
  show "\<not> waits p \<Longrightarrow> m_guard ts_queue_monitor p s"
    by (simp add: ts_queue_monitor_def)
  show "waits p \<Longrightarrow> 0 < length (tsq_q s) \<Longrightarrow>
      length (tsq_q (m_body ts_queue_monitor p s)) < length (tsq_q s)"
    by (cases p; cases "tsq_q s")
      (auto simp: ts_queue_monitor_def waits_def WaitAndPop_def WaitAndTryPop_def TryPop_def)
  show "\<not> waits p \<Longrightarrow>
      length (tsq_q (m_body ts_queue_monitor p s))
        \<le> length (tsq_q s) + length (m_notify ts_queue_monitor p s)"
    by (cases p; cases "tsq_q s") (auto simp: ts_queue_monitor_def waits_def TryPop_def)
qed

end
