(* ===== verification/Sync.thy ===== *)
theory Sync
  imports Monitor
begin

text \<open>
  \<open>vp_semaphore\<close> (\<open>utils/vp_semaphore.h\<close>) and \<open>vp_gate\<close> (\<open>utils/vp_gate.h\<close>): the
  critical sections as atomic operations, and both classes as monitors, to state what their
  \<open>notify_one\<close> calls guarantee. \<open>count_\<close> is a C++ \<open>int\<close>; its overflow is outside the
  model.
\<close>

section \<open>The counting semaphore\<close>

record vp_semaphore =
  sem_count :: int

definition vp_semaphore_new :: vp_semaphore where
  "vp_semaphore_new = \<lparr>sem_count = 0\<rparr>"

definition sem_signal :: "vp_semaphore \<Rightarrow> vp_semaphore" where
  "sem_signal s = s\<lparr>sem_count := sem_count s + 1\<rparr>"

text \<open>\<open>wait\<close>: blocked (\<open>None\<close>) until the count is positive, then takes one.\<close>

definition sem_wait :: "vp_semaphore \<Rightarrow> vp_semaphore option" where
  "sem_wait s = (if sem_count s > 0 then Some (s\<lparr>sem_count := sem_count s - 1\<rparr>) else None)"

definition sem_reset :: "vp_semaphore \<Rightarrow> vp_semaphore" where
  "sem_reset s = s\<lparr>sem_count := 0\<rparr>"

lemma count_simps [simp]:
  "sem_count vp_semaphore_new = 0"
  "sem_count (sem_signal s) = sem_count s + 1"
  "sem_count (sem_reset s) = 0"
  by (simp_all add: vp_semaphore_new_def sem_signal_def sem_reset_def)

lemma sem_wait_Some_iff: "sem_wait s = Some s' \<longleftrightarrow> 0 < sem_count s \<and> sem_count s' = sem_count s - 1"
  by (cases s; cases s') (auto simp: sem_wait_def)

datatype sem_op = op_signal | op_wait | op_reset

definition semaphore_monitor :: "(vp_semaphore, sem_op, unit) monitor" where
  "semaphore_monitor = \<lparr>
     m_guard = (\<lambda>p s. p = op_wait \<longrightarrow> sem_count s > 0),
     m_cv = (\<lambda>_. ()),
     m_body = (\<lambda>p s. case p of
         op_signal \<Rightarrow> sem_signal s
       | op_wait \<Rightarrow> (case sem_wait s of None \<Rightarrow> s | Some s' \<Rightarrow> s')
       | op_reset \<Rightarrow> sem_reset s),
     m_notify = (\<lambda>p s. case p of op_wait \<Rightarrow> [] | _ \<Rightarrow> [((), NotifyOne)]),
     m_next = (\<lambda>_. None),
     m_timed = (\<lambda>_. False)\<rparr>"

interpretation sem_mon: token_monitor semaphore_monitor "\<lambda>s. nat (sem_count s)" "\<lambda>p. p = op_wait"
proof unfold_locales
  fix p s
  show "p = op_wait \<Longrightarrow> m_guard semaphore_monitor p s = (0 < nat (sem_count s))"
    by (simp add: semaphore_monitor_def)
  show "p \<noteq> op_wait \<Longrightarrow> m_guard semaphore_monitor p s"
    by (simp add: semaphore_monitor_def)
  show "p = op_wait \<Longrightarrow> 0 < nat (sem_count s) \<Longrightarrow>
      nat (sem_count (m_body semaphore_monitor p s)) < nat (sem_count s)"
    by (simp add: semaphore_monitor_def sem_wait_def)
  show "p \<noteq> op_wait \<Longrightarrow> nat (sem_count (m_body semaphore_monitor p s))
      \<le> nat (sem_count s) + length (m_notify semaphore_monitor p s)"
    by (cases p) (auto simp: semaphore_monitor_def)
qed

section \<open>The gate\<close>

record vp_gate =
  gate_opened :: bool

definition vp_gate_new :: vp_gate where
  "vp_gate_new = \<lparr>gate_opened = False\<rparr>"

text \<open>\<open>knock\<close>: blocked (\<open>None\<close>) until the gate is open; passing does not close it.\<close>

definition gate_knock :: "vp_gate \<Rightarrow> vp_gate option" where
  "gate_knock g = (if gate_opened g then Some g else None)"

definition gate_open :: "vp_gate \<Rightarrow> vp_gate" where
  "gate_open g = g\<lparr>gate_opened := True\<rparr>"

definition gate_close :: "vp_gate \<Rightarrow> vp_gate" where
  "gate_close g = g\<lparr>gate_opened := False\<rparr>"

definition gate_is_open :: "vp_gate \<Rightarrow> bool" where
  "gate_is_open g = gate_opened g"

lemma gate_simps [simp]:
  "gate_opened vp_gate_new = False"
  "gate_opened (gate_open g) = True"
  "gate_opened (gate_close g) = False"
  by (simp_all add: vp_gate_new_def gate_open_def gate_close_def)

datatype gate_op = op_knock | op_open | op_close | op_is_open

definition gate_monitor :: "(vp_gate, gate_op, unit) monitor" where
  "gate_monitor = \<lparr>
     m_guard = (\<lambda>p g. p = op_knock \<longrightarrow> gate_opened g),
     m_cv = (\<lambda>_. ()),
     m_body = (\<lambda>p g. case p of
         op_knock \<Rightarrow> (case gate_knock g of None \<Rightarrow> g | Some g' \<Rightarrow> g')
       | op_open \<Rightarrow> gate_open g
       | op_close \<Rightarrow> gate_close g
       | op_is_open \<Rightarrow> g),
     m_notify = (\<lambda>p g. if p = op_open then [((), NotifyOne)] else []),
     m_next = (\<lambda>_. None),
     m_timed = (\<lambda>_. False)\<rparr>"

text \<open>
  \<open>open\<close> calls \<open>notify_one\<close>. The discipline under which that is enough: at most one thread
  at a time is inside \<open>knock\<close>, as in \<open>vp_src_node\<close>, where only the handle thread knocks.
\<close>

definition one_knocker :: "gate_op \<Rightarrow> (gate_op, unit) thr multiset \<Rightarrow> bool" where
  "one_knocker p T \<longleftrightarrow>
     (p = op_knock \<longrightarrow> Entering op_knock \<notin># T \<and> Asleep op_knock \<notin># T)"

definition gate_inv :: "(vp_gate, gate_op, unit) mon_conf \<Rightarrow> bool" where
  "gate_inv x \<longleftrightarrow>
     (\<forall>p. Asleep p \<in># snd x \<longrightarrow> p = op_knock) \<and>
     (\<forall>ns k. Notifying ns k \<in># snd x \<longrightarrow> k = None \<and> set ns \<subseteq> {((), NotifyOne)}) \<and>
     count (snd x) (Entering op_knock) + count (snd x) (Asleep op_knock) \<le> 1 \<and>
     (gate_opened (fst x) \<and> Asleep op_knock \<in># snd x \<longrightarrow> 0 < awake () (\<lambda>_. False) (snd x))"

lemma gate_inv_step: "mon_step gate_monitor one_knocker x y \<Longrightarrow> gate_inv x \<Longrightarrow> gate_inv y"
proof (induction rule: mon_step.induct)
  case (call p T s)
  then show ?case
    by (auto simp: gate_inv_def one_knocker_def not_in_iff)
next
  case (enter p s T)
  then show ?case
    by (cases p) (auto simp: gate_inv_def gate_monitor_def gate_knock_def)
next
  case (sleep p s T)
  then show ?case
    by (auto simp: gate_inv_def gate_monitor_def)
next
  case (timeout p s T)
  then show ?case by (simp add: gate_monitor_def)
next
  case (wake_one p c s ns k T)
  then have "p = op_knock" by (simp add: gate_inv_def)
  with wake_one show ?case
    by (auto simp: gate_inv_def count_eq_zero_iff)
next
  case (wake_none T c s ns k)
  then show ?case
    by (auto simp: gate_inv_def gate_monitor_def)
next
  case (wake_all s c ns k T)
  let ?t = "Notifying ((c, NotifyAll) # ns) k"
  from wake_all have "?t \<in># add_mset ?t T \<longrightarrow> set ((c, NotifyAll) # ns) \<subseteq> {((), NotifyOne)}"
    unfolding gate_inv_def snd_conv by blast
  then show ?case by simp
next
  case (spurious s p T)
  then have "p = op_knock" by (simp add: gate_inv_def)
  with spurious show ?case
    by (auto simp: gate_inv_def count_eq_zero_iff)
qed (auto simp: gate_inv_def)

lemma gate_inv_reach: "mon_reach gate_monitor one_knocker g x \<Longrightarrow> gate_inv x"
proof (induction rule: mon_reach.induct)
  case start
  show ?case by (simp add: gate_inv_def)
next
  case (step x y)
  then show ?case by (blast intro: gate_inv_step)
qed

end
