(* ===== verification/Hooks.thy ===== *)
theory Hooks
  imports Prelude
begin

text \<open>
  \<open>vp_meta_hookable\<close> and \<open>vp_stream_info_hookable\<close>: the callbacks a user attaches to the
  four ports of a node and to a source's stream information. A hooker is a
  \<open>std::function\<close> that may be empty, here an optional callback name of any type \<open>'h\<close>.
  Invoking one yields the list of calls it makes: none when the hooker is empty, otherwise
  one call with the node's name, the queue size and the meta.
\<close>

datatype meta_port = ARRIVING | HANDLING | HANDLED | LEAVING

record 'h vp_meta_hookable =
  meta_arriving_hooker :: "'h option"
  meta_handling_hooker :: "'h option"
  meta_handled_hooker :: "'h option"
  meta_leaving_hooker :: "'h option"

record ('h, 'm) hook_call =
  hc_hooker :: 'h
  hc_port :: meta_port
  hc_node :: string
  hc_queue_size :: nat
  hc_meta :: 'm

definition no_hookers :: "'h vp_meta_hookable" where
  "no_hookers = \<lparr>meta_arriving_hooker = None, meta_handling_hooker = None,
     meta_handled_hooker = None, meta_leaving_hooker = None\<rparr>"

definition set_meta_arriving_hooker :: "'h option \<Rightarrow> 'h vp_meta_hookable \<Rightarrow> 'h vp_meta_hookable" where
  "set_meta_arriving_hooker f h = h\<lparr>meta_arriving_hooker := f\<rparr>"

definition set_meta_handling_hooker :: "'h option \<Rightarrow> 'h vp_meta_hookable \<Rightarrow> 'h vp_meta_hookable" where
  "set_meta_handling_hooker f h = h\<lparr>meta_handling_hooker := f\<rparr>"

definition set_meta_handled_hooker :: "'h option \<Rightarrow> 'h vp_meta_hookable \<Rightarrow> 'h vp_meta_hookable" where
  "set_meta_handled_hooker f h = h\<lparr>meta_handled_hooker := f\<rparr>"

definition set_meta_leaving_hooker :: "'h option \<Rightarrow> 'h vp_meta_hookable \<Rightarrow> 'h vp_meta_hookable" where
  "set_meta_leaving_hooker f h = h\<lparr>meta_leaving_hooker := f\<rparr>"

text \<open>The common body of the four \<open>invoke_*\<close> methods: a call when the hooker is set.\<close>

definition call_hooker ::
    "'h option \<Rightarrow> meta_port \<Rightarrow> string \<Rightarrow> nat \<Rightarrow> 'm \<Rightarrow> ('h, 'm) hook_call list" where
  "call_hooker f port node queue_size m = (case f of
      None \<Rightarrow> []
    | Some g \<Rightarrow> [\<lparr>hc_hooker = g, hc_port = port, hc_node = node,
                  hc_queue_size = queue_size, hc_meta = m\<rparr>])"

definition invoke_meta_arriving_hooker ::
    "'h vp_meta_hookable \<Rightarrow> string \<Rightarrow> nat \<Rightarrow> 'm \<Rightarrow> ('h, 'm) hook_call list" where
  "invoke_meta_arriving_hooker h = call_hooker (meta_arriving_hooker h) ARRIVING"

definition invoke_meta_handling_hooker ::
    "'h vp_meta_hookable \<Rightarrow> string \<Rightarrow> nat \<Rightarrow> 'm \<Rightarrow> ('h, 'm) hook_call list" where
  "invoke_meta_handling_hooker h = call_hooker (meta_handling_hooker h) HANDLING"

definition invoke_meta_handled_hooker ::
    "'h vp_meta_hookable \<Rightarrow> string \<Rightarrow> nat \<Rightarrow> 'm \<Rightarrow> ('h, 'm) hook_call list" where
  "invoke_meta_handled_hooker h = call_hooker (meta_handled_hooker h) HANDLED"

definition invoke_meta_leaving_hooker ::
    "'h vp_meta_hookable \<Rightarrow> string \<Rightarrow> nat \<Rightarrow> 'm \<Rightarrow> ('h, 'm) hook_call list" where
  "invoke_meta_leaving_hooker h = call_hooker (meta_leaving_hooker h) LEAVING"

lemmas invoke_defs = invoke_meta_arriving_hooker_def invoke_meta_handling_hooker_def
  invoke_meta_handled_hooker_def invoke_meta_leaving_hooker_def

lemma call_hooker_metas: "c \<in> set (call_hooker f port node queue_size m) \<Longrightarrow> hc_meta c = m \<and> hc_port c = port"
  by (cases f) (auto simp: call_hooker_def)

section \<open>Stream information\<close>

record vp_stream_info =
  si_channel_index :: int
  original_fps :: int
  si_original_width :: int
  si_original_height :: int
  uri :: string

definition vp_stream_info_default :: vp_stream_info where
  "vp_stream_info_default = \<lparr>si_channel_index = -1, original_fps = 0,
     si_original_width = 0, si_original_height = 0, uri = []\<rparr>"

record 'h vp_stream_info_hookable =
  stream_info_hooker :: "'h option"

definition set_stream_info_hooker ::
    "'h option \<Rightarrow> 'h vp_stream_info_hookable \<Rightarrow> 'h vp_stream_info_hookable" where
  "set_stream_info_hooker f h = h\<lparr>stream_info_hooker := f\<rparr>"

definition invoke_stream_info_hooker ::
    "'h vp_stream_info_hookable \<Rightarrow> string \<Rightarrow> vp_stream_info \<Rightarrow> ('h \<times> string \<times> vp_stream_info) list" where
  "invoke_stream_info_hooker h node_name si = (case stream_info_hooker h of
      None \<Rightarrow> []
    | Some f \<Rightarrow> [(f, node_name, si)])"

end
