(* ===== verification/Node.thy ===== *)
theory Node
  imports SafeQueue Sync Hooks
begin

text \<open>
  The node base class \<open>vp_node\<close> with its publisher and subscriber parts: the state of a
  node as a record, and the operations on the node graph as functions on the network, a
  store that maps node names (the addresses the shared pointers hold) to nodes. All
  subscribers in the repository are nodes, so the subscriber list holds node names. The
  threads of a node are in \<open>NodeThreads\<close>. A queue holds optional metas, \<open>None\<close> being
  \<open>nullptr\<close>, the dead flag; a meta is named by a number, the address its shared pointer holds.
  An operation that can throw returns the exception, if any, together with the network as
  it is at that moment.
\<close>

section \<open>The state of a node\<close>

datatype vp_node_type = SRC | MID | DES

record 'h vp_node =
  node_name :: string
  node_type :: vp_node_type
  pre_nodes :: "nat list"
  subscribers :: "nat list"
  alive :: bool
  frame_meta_handle_batch :: int
  in_queue :: "nat option ts_queue"
  out_queue :: "nat option ts_queue"
  in_queue_semaphore :: vp_semaphore
  out_queue_semaphore :: vp_semaphore
  hookers :: "'h vp_meta_hookable"

definition vp_node_ctor :: "string \<Rightarrow> 'h vp_node" where
  "vp_node_ctor name = \<lparr>node_name = name, node_type = MID, pre_nodes = [], subscribers = [],
     alive = True, frame_meta_handle_batch = 1,
     in_queue = ts_queue_new, out_queue = ts_queue_new,
     in_queue_semaphore = vp_semaphore_new, out_queue_semaphore = vp_semaphore_new,
     hookers = no_hookers\<rparr>"

type_synonym 'h network = "nat \<Rightarrow> 'h vp_node"
type_synonym 'h calls = "('h, nat) hook_call list"

section \<open>Receiving and publishing metas\<close>

definition meta_flow :: "nat option \<Rightarrow> 'h vp_node \<Rightarrow> 'h calls \<times> 'h vp_node" where
  "meta_flow meta n = (case meta of
      None \<Rightarrow> ([], n)
    | Some m \<Rightarrow>
        (let n1 = n\<lparr>in_queue := Push (Some m) (in_queue n)\<rparr>;
             calls = invoke_meta_arriving_hooker (hookers n1) (node_name n1) (Size (in_queue n1)) m
         in (calls, n1\<lparr>in_queue_semaphore := sem_signal (in_queue_semaphore n1)\<rparr>)))"

definition pending_meta :: "nat \<Rightarrow> 'h vp_node \<Rightarrow> 'h calls \<times> 'h vp_node" where
  "pending_meta m n =
     (let n1 = n\<lparr>out_queue := Push (Some m) (out_queue n)\<rparr>;
          calls = invoke_meta_handled_hooker (hookers n1) (node_name n1) (Size (out_queue n1)) m
      in (calls, n1\<lparr>out_queue_semaphore := sem_signal (out_queue_semaphore n1)\<rparr>))"

text \<open>The loop of \<open>push_meta\<close> over the subscribers, in order.\<close>

fun push_to :: "nat list \<Rightarrow> nat option \<Rightarrow> 'h network \<Rightarrow> 'h calls \<times> 'h network" where
  "push_to [] meta net = ([], net)"
| "push_to (v # vs) meta net = (case meta_flow meta (net v) of
      (cs, n) \<Rightarrow> (case push_to vs meta (net(v := n)) of (cs', net') \<Rightarrow> (cs @ cs', net')))"

definition push_meta :: "nat \<Rightarrow> nat option \<Rightarrow> 'h network \<Rightarrow> 'h calls \<times> 'h network" where
  "push_meta u meta net = push_to (subscribers (net u)) meta net"

definition add_subscriber :: "nat \<Rightarrow> nat \<Rightarrow> 'h network \<Rightarrow> 'h network" where
  "add_subscriber u v net = net(u := (net u)\<lparr>subscribers := subscribers (net u) @ [v]\<rparr>)"

text \<open>The erase loop of \<open>remove_subscriber\<close>.\<close>

fun erase_subscriber :: "nat \<Rightarrow> nat list \<Rightarrow> nat list" where
  "erase_subscriber v [] = []"
| "erase_subscriber v (i # is) =
     (if i = v then erase_subscriber v is else i # erase_subscriber v is)"

definition remove_subscriber :: "nat \<Rightarrow> nat \<Rightarrow> 'h network \<Rightarrow> 'h network" where
  "remove_subscriber u v net =
     net(u := (net u)\<lparr>subscribers := erase_subscriber v (subscribers (net u))\<rparr>)"

definition next_nodes :: "nat \<Rightarrow> 'h network \<Rightarrow> nat list" where
  "next_nodes u net = subscribers (net u)"

section \<open>Attaching and detaching\<close>

abbreviation des_in_pre_nodes :: vp_exception where
  "des_in_pre_nodes \<equiv> vp_invalid_argument_error ''DES nodes not in pre_nodes''"

abbreviation src_has_no_pre :: vp_exception where
  "src_has_no_pre \<equiv> vp_invalid_argument_error ''SRC nodes must not have any pre nodes!''"

abbreviation des_has_no_next :: vp_exception where
  "des_has_no_next \<equiv> vp_invalid_argument_error ''DES nodes must not have any next nodes!''"

fun detach_loop :: "nat \<Rightarrow> nat list \<Rightarrow> 'h network \<Rightarrow> vp_exception option \<times> 'h network" where
  "detach_loop self [] net = (None, net)"
| "detach_loop self (i # is) net =
     (if node_type (net i) = DES then (Some des_in_pre_nodes, net)
      else detach_loop self is (remove_subscriber i self net))"

definition detach :: "nat \<Rightarrow> 'h network \<Rightarrow> vp_exception option \<times> 'h network" where
  "detach self net = (case detach_loop self (pre_nodes (net self)) net of
      (Some e, net') \<Rightarrow> (Some e, net')
    | (None, net') \<Rightarrow> (None, net'(self := (net' self)\<lparr>pre_nodes := []\<rparr>)))"

text \<open>
  The loop of \<open>detach_from\<close> over the iterator into \<open>pre_nodes\<close>: the elements kept so far
  are accumulated in \<open>kept\<close>.
\<close>

fun detach_from_loop :: "nat \<Rightarrow> string list \<Rightarrow> nat list \<Rightarrow> nat list \<Rightarrow> 'h network \<Rightarrow> nat list \<times> 'h network" where
  "detach_from_loop self names kept [] net = (kept, net)"
| "detach_from_loop self names kept (i # is) net =
     (if node_name (net i) \<in> set names
      then detach_from_loop self names kept is (remove_subscriber i self net)
      else detach_from_loop self names (kept @ [i]) is net)"

definition detach_from :: "nat \<Rightarrow> string list \<Rightarrow> 'h network \<Rightarrow> 'h network" where
  "detach_from self names net =
     (case detach_from_loop self names [] (pre_nodes (net self)) net of
        (kept, net') \<Rightarrow> net'(self := (net' self)\<lparr>pre_nodes := kept\<rparr>))"

text \<open>
  \<open>attach_to\<close> subscribes to each node before it checks the node's type; the exception
  leaves the loop with the subscription in place.
\<close>

fun attach_loop :: "nat \<Rightarrow> nat list \<Rightarrow> 'h network \<Rightarrow> vp_exception option \<times> 'h network" where
  "attach_loop self [] net = (None, net)"
| "attach_loop self (i # is) net =
     (let net1 = add_subscriber i self net in
      if node_type (net1 i) = DES then (Some des_has_no_next, net1)
      else attach_loop self is
        (net1(self := (net1 self)\<lparr>pre_nodes := pre_nodes (net1 self) @ [i]\<rparr>)))"

definition attach_to :: "nat \<Rightarrow> nat list \<Rightarrow> 'h network \<Rightarrow> vp_exception option \<times> 'h network" where
  "attach_to self pre net =
     (if node_type (net self) = SRC then (Some src_has_no_pre, net)
      else attach_loop self pre net)"

text \<open>
  \<open>detach_recursively\<close> recurses over a snapshot of the next nodes; on a graph with cycles
  nothing in the code bounds the recursion, so the model counts the call depth and \<open>None\<close>
  is a recursion deeper than \<open>fuel\<close>. An exception ends all the calls.
\<close>

fun detach_recursively :: "nat \<Rightarrow> nat \<Rightarrow> 'h network \<Rightarrow> (vp_exception option \<times> 'h network) option"
  and detach_each :: "nat \<Rightarrow> nat list \<Rightarrow> 'h network \<Rightarrow> (vp_exception option \<times> 'h network) option" where
  "detach_recursively 0 self net = None"
| "detach_recursively (Suc fuel) self net = (case detach self net of
      (Some e, net1) \<Rightarrow> Some (Some e, net1)
    | (None, net1) \<Rightarrow> detach_each fuel (next_nodes self net1) net1)"
| "detach_each fuel [] net = Some (None, net)"
| "detach_each fuel (n # ns) net = (case detach_recursively fuel n net of
      None \<Rightarrow> None
    | Some (Some e, net1) \<Rightarrow> Some (Some e, net1)
    | Some (None, net1) \<Rightarrow> detach_each fuel ns net1)"

section \<open>Elementary facts\<close>

lemma erase_subscriber_eq [simp]: "erase_subscriber v xs = removeAll v xs"
  by (induction xs) auto

lemma meta_flow_None [simp]: "meta_flow None n = ([], n)"
  by (simp add: meta_flow_def)

lemma meta_flow_Some:
  "snd (meta_flow (Some m) n) = n\<lparr>in_queue := Push (Some m) (in_queue n),
     in_queue_semaphore := sem_signal (in_queue_semaphore n)\<rparr>"
  by (simp add: meta_flow_def Let_def)

lemma add_subscriber_simps [node_simps, simp]:
  "subscribers (add_subscriber u v net w) =
     (if w = u then subscribers (net u) @ [v] else subscribers (net w))"
  "pre_nodes (add_subscriber u v net w) = pre_nodes (net w)"
  "node_type (add_subscriber u v net w) = node_type (net w)"
  "node_name (add_subscriber u v net w) = node_name (net w)"
  by (simp_all add: add_subscriber_def)

lemma remove_subscriber_simps [node_simps, simp]:
  "subscribers (remove_subscriber u v net w) =
     (if w = u then removeAll v (subscribers (net u)) else subscribers (net w))"
  "pre_nodes (remove_subscriber u v net w) = pre_nodes (net w)"
  "node_type (remove_subscriber u v net w) = node_type (net w)"
  "node_name (remove_subscriber u v net w) = node_name (net w)"
  by (simp_all add: remove_subscriber_def)

end
