(* ===== verification/Meta.thy ===== *)
theory Meta
  imports Excepts
begin

text \<open>
  The metas that flow through the pipeline (\<open>objects/\<close>): the base class \<open>vp_meta\<close> and its
  two subclasses as records that extend it, their constructors, \<open>clone\<close>, the uid of a
  control meta, and the text views. Pixel data is a \<open>cv::Mat\<close>: a header (size, steps and
  the position of its bytes) over a reference-counted byte buffer, so that copying a header
  shares the buffer. Buffers live in an explicit memory, a map from buffer names to bytes.
  \<open>cv::Mat::clone\<close> is OpenCV's and a parameter of the definitions that call it.
\<close>

section \<open>Images and their memory\<close>

type_synonym memory = "nat \<rightharpoonup> u8 list"

record cv_mat =
  mat_rows :: int
  mat_cols :: int
  mat_channels :: int
  mat_step0 :: nat
  mat_step1 :: nat
  mat_buffer :: nat
  mat_offset :: nat

definition mat_empty :: "cv_mat \<Rightarrow> bool" where
  "mat_empty m \<longleftrightarrow> mat_rows m \<le> 0 \<or> mat_cols m \<le> 0"

text \<open>The byte of channel \<open>k\<close> of the pixel in row \<open>r\<close> and column \<open>c\<close>.\<close>

definition mat_address :: "cv_mat \<Rightarrow> nat \<Rightarrow> nat \<Rightarrow> nat \<Rightarrow> nat" where
  "mat_address m r c k = mat_offset m + r * mat_step0 m + c * mat_step1 m + k"

definition read_byte :: "memory \<Rightarrow> nat \<Rightarrow> nat \<Rightarrow> u8 option" where
  "read_byte mem b a = (case mem b of
      None \<Rightarrow> None
    | Some bs \<Rightarrow> if a < length bs then Some (bs ! a) else None)"

definition write_byte :: "memory \<Rightarrow> nat \<Rightarrow> nat \<Rightarrow> u8 \<Rightarrow> memory" where
  "write_byte mem b a v = (case mem b of
      None \<Rightarrow> mem
    | Some bs \<Rightarrow> mem(b \<mapsto> bs[a := v]))"

definition mat_at :: "memory \<Rightarrow> cv_mat \<Rightarrow> nat \<Rightarrow> nat \<Rightarrow> nat \<Rightarrow> u8 option" where
  "mat_at mem m r c k = read_byte mem (mat_buffer m) (mat_address m r c k)"

definition mat_set :: "memory \<Rightarrow> cv_mat \<Rightarrow> nat \<Rightarrow> nat \<Rightarrow> nat \<Rightarrow> u8 \<Rightarrow> memory" where
  "mat_set mem m r c k v = write_byte mem (mat_buffer m) (mat_address m r c k) v"

lemma read_write_other:
  "b \<noteq> b' \<Longrightarrow> read_byte (write_byte mem b a v) b' a' = read_byte mem b' a'"
  by (auto simp: read_byte_def write_byte_def split: option.split)

section \<open>The base class\<close>

datatype vp_meta_type = FRAME | CONTROL

datatype vp_meta_trace_field = SEQUENCE | NODE_NAME | IN_TIME | OUT_TIME | TEXT_INFO

record vp_meta =
  create_time :: int
  meta_type :: vp_meta_type
  task :: string
  channel_index :: int
  trace_on :: bool

text \<open>The constructor reads the system clock (\<open>now\<close>, nanoseconds since the epoch).\<close>

definition vp_meta_ctor :: "int \<Rightarrow> vp_meta_type \<Rightarrow> int \<Rightarrow> vp_meta" where
  "vp_meta_ctor now ty channel =
     \<lparr>create_time = now, meta_type = ty, task = [], channel_index = channel, trace_on = False\<rparr>"

definition get_traces_str :: "'a vp_meta_scheme \<Rightarrow> string" where
  "get_traces_str m = []"

definition get_meta_str :: "'a vp_meta_scheme \<Rightarrow> string" where
  "get_meta_str m = []"

section \<open>Frame metas\<close>

record vp_frame_meta = vp_meta +
  frame_index :: int
  fps :: int
  original_width :: int
  original_height :: int
  frame :: cv_mat

text \<open>The constructor asserts that the image is not empty. The frame header is shared.\<close>

definition vp_frame_meta_ctor ::
    "int \<Rightarrow> cv_mat \<Rightarrow> int \<Rightarrow> int \<Rightarrow> int \<Rightarrow> int \<Rightarrow> int \<Rightarrow> vp_frame_meta result" where
  "vp_frame_meta_ctor now mat index channel width height fps_arg =
     (if mat_empty mat then Inl (assertion_failed ''!frame_.empty()'')
      else Inr (vp_meta.extend (vp_meta_ctor now FRAME channel)
        (vp_frame_meta.fields index fps_arg width height mat)))"

text \<open>
  The copy constructor copies every field and clones the pixels; \<open>clone\<close> is a new object
  made with it. \<open>cl\<close> stands for \<open>cv::Mat::clone\<close>.
\<close>

definition vp_frame_meta_copy ::
    "(cv_mat \<Rightarrow> memory \<Rightarrow> cv_mat \<times> memory) \<Rightarrow> vp_frame_meta \<Rightarrow> memory
      \<Rightarrow> vp_frame_meta \<times> memory" where
  "vp_frame_meta_copy cl m mem = (case cl (frame m) mem of
      (mat, mem') \<Rightarrow>
        (vp_meta.extend (vp_meta.truncate m)
          (vp_frame_meta.fields (frame_index m) (fps m) (original_width m)
             (original_height m) mat), mem'))"

definition frame_clone ::
    "(cv_mat \<Rightarrow> memory \<Rightarrow> cv_mat \<times> memory) \<Rightarrow> vp_frame_meta \<Rightarrow> memory
      \<Rightarrow> vp_frame_meta \<times> memory" where
  "frame_clone cl m mem = vp_frame_meta_copy cl m mem"

definition get_size :: "vp_frame_meta \<Rightarrow> int \<times> int" where
  "get_size m = (mat_cols (frame m), mat_rows (frame m))"

definition repr :: "vp_frame_meta \<Rightarrow> string" where
  "repr m = ''vp_frame_meta(idx='' @ to_string (frame_index m) @
     '', size='' @ to_string (mat_cols (frame m)) @ ''x'' @
     to_string (mat_rows (frame m)) @ '')''"

text \<open>
  What OpenCV documents of \<open>Mat::clone\<close>: the copy has the size and the pixels of the
  original in a freshly allocated buffer, and no other buffer changes.
\<close>

definition clones_deeply :: "(cv_mat \<Rightarrow> memory \<Rightarrow> cv_mat \<times> memory) \<Rightarrow> cv_mat \<Rightarrow> memory \<Rightarrow> bool" where
  "clones_deeply cl m mem \<longleftrightarrow> (case cl m mem of (m', mem') \<Rightarrow>
     mem (mat_buffer m') = None \<and>
     (\<forall>b. b \<noteq> mat_buffer m' \<longrightarrow> mem' b = mem b) \<and>
     mat_rows m' = mat_rows m \<and> mat_cols m' = mat_cols m \<and>
     mat_channels m' = mat_channels m \<and>
     (\<forall>r c k. int r < mat_rows m \<and> int c < mat_cols m \<and> int k < mat_channels m \<longrightarrow>
        mat_at mem' m' r c k = mat_at mem m r c k))"

lemma frame_clone_fields:
  assumes "frame_clone cl m mem = (m', mem')"
  shows "vp_meta.truncate m' = vp_meta.truncate m \<and> frame_index m' = frame_index m \<and>
    fps m' = fps m \<and> original_width m' = original_width m \<and>
    original_height m' = original_height m \<and> (frame m', mem') = cl (frame m) mem"
  using assms
  by (auto simp: frame_clone_def vp_frame_meta_copy_def vp_meta.defs vp_frame_meta.defs
    split: prod.splits)

lemma frame_clone_all:
  assumes "frame_clone cl m mem = (m', mem')"
  shows "m' = m\<lparr>frame := frame m'\<rparr>"
proof (rule vp_frame_meta.equality)
  have "vp_meta.truncate m' = vp_meta.truncate m" using frame_clone_fields [OF assms] by blast
  then show "create_time m' = create_time (m\<lparr>frame := frame m'\<rparr>)"
    "meta_type m' = meta_type (m\<lparr>frame := frame m'\<rparr>)" "task m' = task (m\<lparr>frame := frame m'\<rparr>)"
    "channel_index m' = channel_index (m\<lparr>frame := frame m'\<rparr>)"
    "trace_on m' = trace_on (m\<lparr>frame := frame m'\<rparr>)"
    by (simp_all add: vp_meta.defs)
qed (use frame_clone_fields [OF assms] in simp_all)

lemma frame_clone_fresh:
  assumes "frame_clone cl m mem = (m', mem')"
    and "clones_deeply cl (frame m) mem" and "mem (mat_buffer (frame m)) \<noteq> None"
  shows "mat_buffer (frame m') \<noteq> mat_buffer (frame m)"
  using assms frame_clone_fields [OF assms(1)]
  by (auto simp: clones_deeply_def split: prod.splits)

section \<open>Control metas\<close>

datatype vp_control_type = SPEAK | VIDEO_RECORD | IMAGE_RECORD

record vp_control_meta = vp_meta +
  control_uid :: string
  control_type :: vp_control_type

text \<open>The system clock in nanoseconds, truncated to milliseconds by \<open>duration_cast\<close>.\<close>

definition generate_uid :: "int \<Rightarrow> string" where
  "generate_uid now = ''control_meta_'' @ to_string (c_div now 1000000)"

text \<open>\<open>now\<close> is the clock read by the base constructor, \<open>now'\<close> the one read by \<open>generate_uid\<close>.\<close>

definition vp_control_meta_ctor ::
    "int \<Rightarrow> int \<Rightarrow> vp_control_type \<Rightarrow> int \<Rightarrow> string \<Rightarrow> vp_control_meta" where
  "vp_control_meta_ctor now now' ty channel uid =
     vp_meta.extend (vp_meta_ctor now CONTROL channel)
       (vp_control_meta.fields (if uid = [] then generate_uid now' else uid) ty)"

definition control_clone :: "vp_control_meta \<Rightarrow> vp_control_meta" where
  "control_clone m = m"

lemma control_ctor_simps [simp]:
  "meta_type (vp_control_meta_ctor now now' ty channel uid) = CONTROL"
  "channel_index (vp_control_meta_ctor now now' ty channel uid) = channel"
  "control_type (vp_control_meta_ctor now now' ty channel uid) = ty"
  "control_uid (vp_control_meta_ctor now now' ty channel uid) =
     (if uid = [] then generate_uid now' else uid)"
  by (simp_all add: vp_control_meta_ctor_def vp_meta_ctor_def vp_meta.defs vp_control_meta.defs)

end
