(* ===== verification/NodeThreads.thy ===== *)
theory NodeThreads
  imports Node Meta
begin

text \<open>
  The threads of one node. \<open>handle_run\<close> and \<open>dispatch_run\<close> are modelled statement by
  statement: a program counter names the next statement, and each step performs one of the
  operations that are atomic in the code (a queue, semaphore or hooker call, each under its own
  lock). The other threads are the upstream nodes, which call \<open>meta_flow\<close> (push, hooker,
  signal: three steps, from any number of threads), and the owner of the node, which runs
  \<open>deinitialized\<close>. The record also keeps the history of the run: the metas that arrived, that
  the handle thread took, that it put into the out-queue, and that were handed to
  \<open>push_meta\<close>.
\<close>

section \<open>Virtual functions\<close>

text \<open>
  The metas live in a world of type \<open>'w\<close> that the handlers may change; \<open>vm_type\<close> reads the
  type tag of a meta. The single-frame handler, the batch handler and the control handler are
  virtual.
\<close>

record 'w methods =
  vm_type :: "nat \<Rightarrow> 'w \<Rightarrow> vp_meta_type"
  vm_control :: "nat \<Rightarrow> 'w \<Rightarrow> nat option \<times> 'w"
  vm_batch :: "nat list \<Rightarrow> 'w \<Rightarrow> 'w"

definition handle_frame_meta :: "nat \<Rightarrow> 'w \<Rightarrow> 'w" where
  "handle_frame_meta meta w = w"

definition handle_frame_metas :: "(nat \<Rightarrow> 'w \<Rightarrow> 'w) \<Rightarrow> nat list \<Rightarrow> 'w \<Rightarrow> 'w" where
  "handle_frame_metas handle_one metas w = fold handle_one metas w"

definition handle_control_meta :: "nat \<Rightarrow> 'w \<Rightarrow> nat option \<times> 'w" where
  "handle_control_meta meta w = (Some meta, w)"

definition vp_node_methods :: "(nat \<Rightarrow> 'w \<Rightarrow> vp_meta_type) \<Rightarrow> 'w methods" where
  "vp_node_methods ty = \<lparr>vm_type = ty, vm_control = handle_control_meta,
     vm_batch = handle_frame_metas handle_frame_meta\<rparr>"

section \<open>The state of a running node\<close>

datatype handle_pc =
    HTop | HWait | HPop | HHook nat | HHandle nat
  | HPush "nat list" | HHandled nat "nat list" | HSignal "nat list"
  | HDeadPush | HDeadSignal | HDone

datatype dispatch_pc =
    DTop | DWait | DFront | DLeave nat | DPush nat | DPop | DDone | DCrash vp_exception

datatype control_pc = CRun | CPushNull | CSignal | CJoinHandle | CJoinDispatch | CDone

record ('h, 'w, 'p) node_sys =
  nd :: "'h vp_node"
  hpc :: 'p
  dpc :: dispatch_pc
  cpc :: control_pc
  cache :: "nat list"
  flows :: "nat multiset"
  signalling :: nat
  world :: 'w
  hook_log :: "'h calls"
  arrived :: "nat list"
  taken :: "nat list"
  emitted :: "nat list"
  delivered :: "nat list"

definition node_sys_init :: "'h vp_node \<Rightarrow> 'p \<Rightarrow> 'w \<Rightarrow> ('h, 'w, 'p) node_sys" where
  "node_sys_init n p w = \<lparr>nd = n, hpc = p, dpc = DTop, cpc = CRun, cache = [],
     flows = {#}, signalling = 0, world = w, hook_log = [],
     arrived = [], taken = [], emitted = [], delivered = []\<rparr>"

section \<open>The handle thread\<close>

text \<open>
  The handlers and the decision what to put into the out-queue. The batch size is an
  \<open>int\<close> compared with a \<open>size_t\<close>. A control meta for which the handler returns
  \<open>nullptr\<close> clears the batch cache; one for which it returns a meta leaves the cache alone.
  Only a complete batch is put into the out-queue.
\<close>

definition handle_meta ::
    "'w methods \<Rightarrow> nat \<Rightarrow> ('h, 'w, handle_pc) node_sys \<Rightarrow> ('h, 'w, handle_pc) node_sys" where
  "handle_meta vm m s = (case vm_type vm m (world s) of
      CONTROL \<Rightarrow> (case vm_control vm m (world s) of
          (None, w) \<Rightarrow> s\<lparr>world := w, cache := [], hpc := HTop\<rparr>
        | (Some out_meta, w) \<Rightarrow> s\<lparr>world := w, hpc := HTop\<rparr>)
    | FRAME \<Rightarrow>
        (let batch = cache s @ [m] in
         if size_t_of_int (frame_meta_handle_batch (nd s)) \<le> length batch
         then s\<lparr>cache := batch, world := vm_batch vm batch (world s), hpc := HPush batch\<rparr>
         else s\<lparr>cache := batch, hpc := HTop\<rparr>))"

definition handle_run ::
    "'w methods \<Rightarrow> ('h, 'w, handle_pc) node_sys \<Rightarrow> ('h, 'w, handle_pc) node_sys option" where
  "handle_run vm s = (case hpc s of
      HTop \<Rightarrow> Some (s\<lparr>hpc := if alive (nd s) then HWait else HDeadPush\<rparr>)
    | HWait \<Rightarrow> map_option (\<lambda>sem. s\<lparr>nd := (nd s)\<lparr>in_queue_semaphore := sem\<rparr>, hpc := HPop\<rparr>)
        (sem_wait (in_queue_semaphore (nd s)))
    | HPop \<Rightarrow> (case WaitAndPop (in_queue (nd s)) of
          None \<Rightarrow> None
        | Some (None, q) \<Rightarrow> Some (s\<lparr>nd := (nd s)\<lparr>in_queue := q\<rparr>, hpc := HTop\<rparr>)
        | Some (Some m, q) \<Rightarrow>
            Some (s\<lparr>nd := (nd s)\<lparr>in_queue := q\<rparr>, hpc := HHook m, taken := taken s @ [m]\<rparr>))
    | HHook m \<Rightarrow> Some (s\<lparr>hook_log := hook_log s @
          invoke_meta_handling_hooker (hookers (nd s)) (node_name (nd s)) (Size (in_queue (nd s))) m,
          hpc := HHandle m\<rparr>)
    | HHandle m \<Rightarrow> Some (handle_meta vm m s)
    | HPush [] \<Rightarrow> Some (s\<lparr>cache := [], hpc := HTop\<rparr>)
    | HPush (x # xs) \<Rightarrow> Some (s\<lparr>nd := (nd s)\<lparr>out_queue := Push (Some x) (out_queue (nd s))\<rparr>,
          hpc := HHandled x xs, emitted := emitted s @ [x]\<rparr>)
    | HHandled x xs \<Rightarrow> Some (s\<lparr>hook_log := hook_log s @
          invoke_meta_handled_hooker (hookers (nd s)) (node_name (nd s)) (Size (out_queue (nd s))) x,
          hpc := HSignal xs\<rparr>)
    | HSignal xs \<Rightarrow> Some (s\<lparr>nd := (nd s)\<lparr>out_queue_semaphore :=
          sem_signal (out_queue_semaphore (nd s))\<rparr>, hpc := HPush xs\<rparr>)
    | HDeadPush \<Rightarrow> Some (s\<lparr>nd := (nd s)\<lparr>out_queue := Push None (out_queue (nd s))\<rparr>,
          hpc := HDeadSignal\<rparr>)
    | HDeadSignal \<Rightarrow> Some (s\<lparr>nd := (nd s)\<lparr>out_queue_semaphore :=
          sem_signal (out_queue_semaphore (nd s))\<rparr>, hpc := HDone\<rparr>)
    | HDone \<Rightarrow> None)"

section \<open>The dispatch thread\<close>

text \<open>
  \<open>dispatch_run\<close> looks at the front of the out-queue, and takes it out only after it has
  been pushed to the subscribers; a dead flag stays where it is. An exception of \<open>Front\<close>
  leaves the thread function (\<open>DCrash\<close>), which ends the program. The scheme parameter
  \<open>'z\<close> lets subclasses extend the state.
\<close>

definition dispatch_run ::
    "('h, 'w, 'p, 'z) node_sys_scheme \<Rightarrow> ('h, 'w, 'p, 'z) node_sys_scheme option" where
  "dispatch_run s = (case dpc s of
      DTop \<Rightarrow> Some (s\<lparr>dpc := if alive (nd s) then DWait else DDone\<rparr>)
    | DWait \<Rightarrow> map_option (\<lambda>sem. s\<lparr>nd := (nd s)\<lparr>out_queue_semaphore := sem\<rparr>, dpc := DFront\<rparr>)
        (sem_wait (out_queue_semaphore (nd s)))
    | DFront \<Rightarrow> Some (s\<lparr>dpc := (case Front (out_queue (nd s)) of
          Inl e \<Rightarrow> DCrash e | Inr None \<Rightarrow> DTop | Inr (Some m) \<Rightarrow> DLeave m)\<rparr>)
    | DLeave m \<Rightarrow> Some (s\<lparr>hook_log := hook_log s @
          invoke_meta_leaving_hooker (hookers (nd s)) (node_name (nd s)) (Size (out_queue (nd s))) m,
          dpc := DPush m\<rparr>)
    | DPush m \<Rightarrow> Some (s\<lparr>delivered := delivered s @ [m], dpc := DPop\<rparr>)
    | DPop \<Rightarrow> Some (s\<lparr>nd := (nd s)\<lparr>out_queue := Pop (out_queue (nd s))\<rparr>, dpc := DTop\<rparr>)
    | DDone \<Rightarrow> None
    | DCrash e \<Rightarrow> None)"

section \<open>Shutting down\<close>

text \<open>
  \<open>deinitialized\<close>: clear \<open>alive\<close>, push and signal the dead flag, join both threads.
  \<open>handle_done\<close> tells whether the handle thread has returned.
\<close>

definition deinitialized ::
    "bool \<Rightarrow> ('h, 'w, 'p, 'z) node_sys_scheme \<Rightarrow> ('h, 'w, 'p, 'z) node_sys_scheme option" where
  "deinitialized handle_done s = (case cpc s of
      CRun \<Rightarrow> Some (s\<lparr>nd := (nd s)\<lparr>alive := False\<rparr>, cpc := CPushNull\<rparr>)
    | CPushNull \<Rightarrow> Some (s\<lparr>nd := (nd s)\<lparr>in_queue := Push None (in_queue (nd s))\<rparr>, cpc := CSignal\<rparr>)
    | CSignal \<Rightarrow> Some (s\<lparr>nd := (nd s)\<lparr>in_queue_semaphore :=
          sem_signal (in_queue_semaphore (nd s))\<rparr>, cpc := CJoinHandle\<rparr>)
    | CJoinHandle \<Rightarrow> (if handle_done then Some (s\<lparr>cpc := CJoinDispatch\<rparr>) else None)
    | CJoinDispatch \<Rightarrow> (if dpc s = DDone then Some (s\<lparr>cpc := CDone\<rparr>) else None)
    | CDone \<Rightarrow> None)"

section \<open>Interleaving\<close>

text \<open>
  A step of the node itself (\<open>node_thread\<close>) or of an upstream thread inside
  \<open>meta_flow\<close>. \<open>m\<close> is any meta: upstream nodes never push \<open>nullptr\<close>, which
  \<open>meta_flow\<close> ignores. The metas are shared between the nodes, so that other threads may change
  the world at any time.
\<close>

inductive node_thread ::
  "'w methods \<Rightarrow> ('h, 'w, handle_pc) node_sys \<Rightarrow> ('h, 'w, handle_pc) node_sys \<Rightarrow> bool"
  for vm where
  handle: "handle_run vm s = Some t \<Longrightarrow> node_thread vm s t"
| dispatch: "dispatch_run s = Some t \<Longrightarrow> node_thread vm s t"
| control: "deinitialized (hpc s = HDone) s = Some t \<Longrightarrow> node_thread vm s t"

inductive upstream ::
  "('h, 'w, 'p, 'z) node_sys_scheme \<Rightarrow> ('h, 'w, 'p, 'z) node_sys_scheme \<Rightarrow> bool" where
  flow_push: "upstream s (s\<lparr>nd := (nd s)\<lparr>in_queue := Push (Some m) (in_queue (nd s))\<rparr>,
     flows := add_mset m (flows s), arrived := arrived s @ [m]\<rparr>)"
| flow_hook: "m \<in># flows s \<Longrightarrow> upstream s (s\<lparr>hook_log := hook_log s @
     invoke_meta_arriving_hooker (hookers (nd s)) (node_name (nd s)) (Size (in_queue (nd s))) m,
     flows := flows s - {#m#}, signalling := Suc (signalling s)\<rparr>)"
| flow_signal: "signalling s = Suc k \<Longrightarrow> upstream s (s\<lparr>nd := (nd s)\<lparr>in_queue_semaphore :=
     sem_signal (in_queue_semaphore (nd s))\<rparr>, signalling := k\<rparr>)"
| world: "upstream s (s\<lparr>world := w\<rparr>)"

definition node_step ::
  "'w methods \<Rightarrow> ('h, 'w, handle_pc) node_sys \<Rightarrow> ('h, 'w, handle_pc) node_sys \<Rightarrow> bool" where
  "node_step vm s t \<longleftrightarrow> node_thread vm s t \<or> upstream s t"

text \<open>A node starts with empty queues, \<open>alive\<close> set and both threads at the loop head.\<close>

definition fresh_node :: "'h vp_node \<Rightarrow> bool" where
  "fresh_node n \<longleftrightarrow> alive n \<and> tsq_q (in_queue n) = [] \<and> tsq_q (out_queue n) = [] \<and>
     sem_count (in_queue_semaphore n) = 0 \<and> sem_count (out_queue_semaphore n) = 0"

inductive node_reach ::
  "'w methods \<Rightarrow> ('h, 'w, handle_pc) node_sys \<Rightarrow> bool" for vm where
  start: "fresh_node n \<Longrightarrow> node_reach vm (node_sys_init n HTop w)"
| step: "node_reach vm s \<Longrightarrow> node_step vm s t \<Longrightarrow> node_reach vm t"

inductive_simps node_thread_iff: "node_thread vm s t"

inductive_cases upstreamE: "upstream s t"

text \<open>Invariants of a running node: one obligation per thread.\<close>

lemma node_reach_invariant:
  assumes "node_reach vm s"
    and "\<And>n w. fresh_node n \<Longrightarrow> I (node_sys_init n HTop w)"
    and "\<And>s t. handle_run vm s = Some t \<Longrightarrow> I s \<Longrightarrow> I t"
    and "\<And>s t. dispatch_run s = Some t \<Longrightarrow> I s \<Longrightarrow> I t"
    and "\<And>d s t. deinitialized d s = Some t \<Longrightarrow> I s \<Longrightarrow> I t"
    and "\<And>s t. upstream s t \<Longrightarrow> I s \<Longrightarrow> I t"
  shows "I s"
  using assms(1)
proof (induction rule: node_reach.induct)
  case (start n w)
  then show ?case by (rule assms(2))
next
  case (step s t)
  from step.hyps(2) step.IH show ?case
    by (auto simp: node_step_def node_thread_iff intro: assms(3-6))
qed

lemma fresh_vp_node_ctor: "fresh_node (vp_node_ctor name)"
  by (simp add: fresh_node_def vp_node_ctor_def)

text \<open>The three upstream steps of one thread, without interleaving, are \<open>meta_flow\<close>.\<close>

lemma upstream_is_meta_flow:
  assumes "meta_flow (Some m) (nd s) = (cs, n)"
  shows "\<exists>s1 s2. upstream s s1 \<and> upstream s1 s2 \<and>
    upstream s2 (s\<lparr>nd := n, hook_log := hook_log s @ cs, arrived := arrived s @ [m]\<rparr>)"
proof -
  let ?s1 = "s\<lparr>nd := (nd s)\<lparr>in_queue := Push (Some m) (in_queue (nd s))\<rparr>,
     flows := add_mset m (flows s), arrived := arrived s @ [m]\<rparr>"
  let ?s2 = "?s1\<lparr>hook_log := hook_log ?s1 @
     invoke_meta_arriving_hooker (hookers (nd ?s1)) (node_name (nd ?s1)) (Size (in_queue (nd ?s1))) m,
     flows := flows ?s1 - {#m#}, signalling := Suc (signalling ?s1)\<rparr>"
  let ?s3 = "?s2\<lparr>nd := (nd ?s2)\<lparr>in_queue_semaphore :=
     sem_signal (in_queue_semaphore (nd ?s2))\<rparr>, signalling := signalling s\<rparr>"
  have "upstream s ?s1" by (rule flow_push)
  moreover have "upstream ?s1 ?s2" by (rule flow_hook) simp
  moreover have "upstream ?s2 ?s3" by (rule flow_signal) simp
  moreover have "?s3 = s\<lparr>nd := n, hook_log := hook_log s @ cs, arrived := arrived s @ [m]\<rparr>"
    using assms by (auto simp: meta_flow_def Let_def)
  ultimately show ?thesis by metis
qed

section \<open>Concrete schedules\<close>

text \<open>A run by a list of actions: \<open>None\<close> when one of them is not enabled.\<close>

datatype node_action =
  NHandle | NDispatch | NControl | NFlowPush nat | NFlowHook nat | NFlowSignal

fun node_act ::
    "'w methods \<Rightarrow> node_action \<Rightarrow> ('h, 'w, handle_pc) node_sys
      \<Rightarrow> ('h, 'w, handle_pc) node_sys option" where
  "node_act vm NHandle s = handle_run vm s"
| "node_act vm NDispatch s = dispatch_run s"
| "node_act vm NControl s = deinitialized (hpc s = HDone) s"
| "node_act vm (NFlowPush m) s =
     Some (s\<lparr>nd := (nd s)\<lparr>in_queue := Push (Some m) (in_queue (nd s))\<rparr>,
       flows := add_mset m (flows s), arrived := arrived s @ [m]\<rparr>)"
| "node_act vm (NFlowHook m) s =
     (if m \<in># flows s then Some (s\<lparr>hook_log := hook_log s @
       invoke_meta_arriving_hooker (hookers (nd s)) (node_name (nd s)) (Size (in_queue (nd s))) m,
       flows := flows s - {#m#}, signalling := Suc (signalling s)\<rparr>) else None)"
| "node_act vm NFlowSignal s = (case signalling s of
      0 \<Rightarrow> None
    | Suc k \<Rightarrow> Some (s\<lparr>nd := (nd s)\<lparr>in_queue_semaphore :=
        sem_signal (in_queue_semaphore (nd s))\<rparr>, signalling := k\<rparr>))"

fun node_run ::
    "'w methods \<Rightarrow> node_action list \<Rightarrow> ('h, 'w, handle_pc) node_sys
      \<Rightarrow> ('h, 'w, handle_pc) node_sys option" where
  "node_run vm [] s = Some s"
| "node_run vm (a # as) s = (case node_act vm a s of None \<Rightarrow> None | Some t \<Rightarrow> node_run vm as t)"

lemma node_act_step: "node_act vm a s = Some t \<Longrightarrow> node_step vm s t"
  by (cases a)
    (auto simp: node_step_def node_thread_iff intro: upstream.intros split: if_splits nat.splits)

lemma node_run_reach: "node_run vm as s = Some t \<Longrightarrow> node_reach vm s \<Longrightarrow> node_reach vm t"
  by (induction as arbitrary: s)
    (auto split: option.splits dest!: node_act_step intro: node_reach.step)

text \<open>One meta through \<open>meta_flow\<close>, and one frame through the loop of the handle thread.\<close>

definition flow_in :: "nat \<Rightarrow> node_action list" where
  "flow_in m = [NFlowPush m, NFlowHook m, NFlowSignal]"

end
