(* ===== verification/NodeInv.thy ===== *)
theory NodeInv
  imports NodeThreads "HOL-Library.Sublist"
begin

text \<open>
  Invariants of the threads of one node: the semaphores count the queue entries that nobody
  has claimed yet, the history of the run accounts for every meta, batches are emitted whole,
  and the flags that make the shutdown work.
\<close>

fun somes :: "'a option list \<Rightarrow> 'a list" where
  "somes [] = []"
| "somes (None # xs) = somes xs"
| "somes (Some x # xs) = x # somes xs"

lemma somes_append [simp]: "somes (xs @ ys) = somes xs @ somes ys"
  by (induction xs rule: somes.induct) auto

section \<open>Semaphores count unclaimed entries\<close>

fun h_in :: "handle_pc \<Rightarrow> int" where
  "h_in HPop = 1"
| "h_in _ = 0"

fun h_out :: "handle_pc \<Rightarrow> int" where
  "h_out (HHandled x xs) = 1"
| "h_out (HSignal xs) = 1"
| "h_out HDeadSignal = 1"
| "h_out _ = 0"

fun d_out :: "dispatch_pc \<Rightarrow> int" where
  "d_out DFront = 1"
| "d_out (DLeave m) = 1"
| "d_out (DPush m) = 1"
| "d_out DPop = 1"
| "d_out _ = 0"

fun c_in :: "control_pc \<Rightarrow> int" where
  "c_in CSignal = 1"
| "c_in _ = 0"

definition in_account :: "('h, 'w, handle_pc) node_sys \<Rightarrow> bool" where
  "in_account s \<longleftrightarrow> 0 \<le> sem_count (in_queue_semaphore (nd s)) \<and>
     sem_count (in_queue_semaphore (nd s)) + int (size (flows s)) + int (signalling s)
       + h_in (hpc s) + c_in (cpc s) = int (length (tsq_q (in_queue (nd s))))"

text \<open>
  The same for the out-queue, for any handle thread whose outstanding signals are \<open>owed\<close>.
  A dead flag that the dispatch thread has seen stays in the queue without a count, hence
  the inequality.
\<close>

definition out_account :: "int \<Rightarrow> ('h, 'w, 'p, 'z) node_sys_scheme \<Rightarrow> bool" where
  "out_account owed s \<longleftrightarrow> 0 \<le> sem_count (out_queue_semaphore (nd s)) \<and> 0 \<le> owed \<and>
     sem_count (out_queue_semaphore (nd s)) + owed + d_out (dpc s)
       \<le> int (length (tsq_q (out_queue (nd s)))) \<and>
     (\<forall>e. dpc s \<noteq> DCrash e)"

lemmas run_defs = handle_run_def handle_meta_def dispatch_run_def deinitialized_def

lemma handle_run_cases:
  assumes "handle_run vm s = Some t"
  obtains (top) "hpc s = HTop" "t = s\<lparr>hpc := if alive (nd s) then HWait else HDeadPush\<rparr>"
  | (wait) sem where "hpc s = HWait" "sem_wait (in_queue_semaphore (nd s)) = Some sem"
      "t = s\<lparr>nd := (nd s)\<lparr>in_queue_semaphore := sem\<rparr>, hpc := HPop\<rparr>"
  | (dead) q where "hpc s = HPop" "WaitAndPop (in_queue (nd s)) = Some (None, q)"
      "t = s\<lparr>nd := (nd s)\<lparr>in_queue := q\<rparr>, hpc := HTop\<rparr>"
  | (pop) m q where "hpc s = HPop" "WaitAndPop (in_queue (nd s)) = Some (Some m, q)"
      "t = s\<lparr>nd := (nd s)\<lparr>in_queue := q\<rparr>, hpc := HHook m, taken := taken s @ [m]\<rparr>"
  | (hook) m cs where "hpc s = HHook m" "t = s\<lparr>hook_log := hook_log s @ cs, hpc := HHandle m\<rparr>"
  | (handle) m where "hpc s = HHandle m" "t = handle_meta vm m s"
  | (batch_end) "hpc s = HPush []" "t = s\<lparr>cache := [], hpc := HTop\<rparr>"
  | (push) x xs where "hpc s = HPush (x # xs)"
      "t = s\<lparr>nd := (nd s)\<lparr>out_queue := Push (Some x) (out_queue (nd s))\<rparr>,
         hpc := HHandled x xs, emitted := emitted s @ [x]\<rparr>"
  | (handled) x xs cs where "hpc s = HHandled x xs"
      "t = s\<lparr>hook_log := hook_log s @ cs, hpc := HSignal xs\<rparr>"
  | (signal) xs where "hpc s = HSignal xs"
      "t = s\<lparr>nd := (nd s)\<lparr>out_queue_semaphore := sem_signal (out_queue_semaphore (nd s))\<rparr>,
         hpc := HPush xs\<rparr>"
  | (dead_push) "hpc s = HDeadPush"
      "t = s\<lparr>nd := (nd s)\<lparr>out_queue := Push None (out_queue (nd s))\<rparr>, hpc := HDeadSignal\<rparr>"
  | (dead_signal) "hpc s = HDeadSignal"
      "t = s\<lparr>nd := (nd s)\<lparr>out_queue_semaphore := sem_signal (out_queue_semaphore (nd s))\<rparr>,
         hpc := HDone\<rparr>"
proof (cases "hpc s")
  case HTop
  with assms show thesis by (auto simp: handle_run_def intro: top)
next
  case HWait
  with assms show thesis by (auto simp: handle_run_def intro: wait)
next
  case HPop
  with assms obtain mo q where q: "WaitAndPop (in_queue (nd s)) = Some (mo, q)"
    by (auto simp: handle_run_def split: option.splits)
  with HPop assms show thesis
    by (cases mo) (auto simp: handle_run_def intro: dead pop)
next
  case (HHook m)
  with assms show thesis by (auto simp: handle_run_def intro: hook)
next
  case (HHandle m)
  with assms show thesis by (auto simp: handle_run_def intro: handle)
next
  case (HPush xs)
  with assms show thesis
    by (cases xs) (auto simp: handle_run_def intro: batch_end push)
next
  case (HHandled x xs)
  with assms show thesis by (auto simp: handle_run_def intro: handled)
next
  case (HSignal xs)
  with assms show thesis by (auto simp: handle_run_def intro: signal)
next
  case HDeadPush
  with assms show thesis by (auto simp: handle_run_def intro: dead_push)
next
  case HDeadSignal
  with assms show thesis by (auto simp: handle_run_def intro: dead_signal)
next
  case HDone
  with assms show thesis by (simp add: handle_run_def)
qed

lemma dispatch_run_cases:
  assumes "dispatch_run s = Some t"
  obtains (top) "dpc s = DTop" "t = s\<lparr>dpc := if alive (nd s) then DWait else DDone\<rparr>"
  | (wait) sem where "dpc s = DWait" "sem_wait (out_queue_semaphore (nd s)) = Some sem"
      "t = s\<lparr>nd := (nd s)\<lparr>out_queue_semaphore := sem\<rparr>, dpc := DFront\<rparr>"
  | (crash) e where "dpc s = DFront" "Front (out_queue (nd s)) = Inl e" "t = s\<lparr>dpc := DCrash e\<rparr>"
  | (dead) "dpc s = DFront" "Front (out_queue (nd s)) = Inr None" "t = s\<lparr>dpc := DTop\<rparr>"
  | (front) m where "dpc s = DFront" "Front (out_queue (nd s)) = Inr (Some m)"
      "t = s\<lparr>dpc := DLeave m\<rparr>"
  | (leave) m cs where "dpc s = DLeave m" "t = s\<lparr>hook_log := hook_log s @ cs, dpc := DPush m\<rparr>"
  | (push) m where "dpc s = DPush m" "t = s\<lparr>delivered := delivered s @ [m], dpc := DPop\<rparr>"
  | (pop) "dpc s = DPop"
      "t = s\<lparr>nd := (nd s)\<lparr>out_queue := Pop (out_queue (nd s))\<rparr>, dpc := DTop\<rparr>"
proof (cases "dpc s")
  case DTop
  with assms show thesis by (auto simp: dispatch_run_def intro: top)
next
  case DWait
  with assms show thesis by (auto simp: dispatch_run_def intro: wait)
next
  case DFront
  note step = this assms
  show thesis
  proof (cases "Front (out_queue (nd s))")
    case (Inl e)
    with step show thesis by (auto simp: dispatch_run_def intro: crash)
  next
    case (Inr mo)
    with step show thesis
      by (cases mo) (auto simp: dispatch_run_def intro: dead front)
  qed
next
  case (DLeave m)
  with assms show thesis by (auto simp: dispatch_run_def intro: leave)
next
  case (DPush m)
  with assms show thesis by (auto simp: dispatch_run_def intro: push)
next
  case DPop
  with assms show thesis by (auto simp: dispatch_run_def intro: pop)
next
  case DDone
  with assms show thesis by (simp add: dispatch_run_def)
next
  case (DCrash e)
  with assms show thesis by (simp add: dispatch_run_def)
qed

lemma deinitialized_cases:
  assumes "deinitialized hdone s = Some t"
  obtains (start) "cpc s = CRun" "t = s\<lparr>nd := (nd s)\<lparr>alive := False\<rparr>, cpc := CPushNull\<rparr>"
  | (push) "cpc s = CPushNull"
      "t = s\<lparr>nd := (nd s)\<lparr>in_queue := Push None (in_queue (nd s))\<rparr>, cpc := CSignal\<rparr>"
  | (signal) "cpc s = CSignal"
      "t = s\<lparr>nd := (nd s)\<lparr>in_queue_semaphore := sem_signal (in_queue_semaphore (nd s))\<rparr>,
         cpc := CJoinHandle\<rparr>"
  | (join_handle) "cpc s = CJoinHandle" "hdone" "t = s\<lparr>cpc := CJoinDispatch\<rparr>"
  | (join_dispatch) "cpc s = CJoinDispatch" "dpc s = DDone" "t = s\<lparr>cpc := CDone\<rparr>"
proof (cases "cpc s")
  case CRun
  with assms show thesis by (auto simp: deinitialized_def intro: start)
next
  case CPushNull
  with assms show thesis by (auto simp: deinitialized_def intro: push)
next
  case CSignal
  with assms show thesis by (auto simp: deinitialized_def intro: signal)
next
  case CJoinHandle
  with assms show thesis by (auto simp: deinitialized_def intro: join_handle split: if_splits)
next
  case CJoinDispatch
  with assms show thesis by (auto simp: deinitialized_def intro: join_dispatch split: if_splits)
next
  case CDone
  with assms show thesis by (simp add: deinitialized_def)
qed

lemma handle_meta_simps [node_simps, simp]:
  "nd (handle_meta vm m s) = nd s" "dpc (handle_meta vm m s) = dpc s"
  "cpc (handle_meta vm m s) = cpc s" "flows (handle_meta vm m s) = flows s"
  "signalling (handle_meta vm m s) = signalling s" "arrived (handle_meta vm m s) = arrived s"
  "taken (handle_meta vm m s) = taken s" "emitted (handle_meta vm m s) = emitted s"
  "delivered (handle_meta vm m s) = delivered s"
  "h_in (hpc (handle_meta vm m s)) = 0" "h_out (hpc (handle_meta vm m s)) = 0"
  by (auto simp: handle_meta_def Let_def split: vp_meta_type.split prod.split option.split)

lemma in_account_handle: "handle_run vm s = Some t \<Longrightarrow> in_account s \<Longrightarrow> in_account t"
  by (erule handle_run_cases) (auto simp: in_account_def sem_wait_Some_iff queue_simps)

lemma in_account_dispatch: "dispatch_run s = Some t \<Longrightarrow> in_account s \<Longrightarrow> in_account t"
  by (erule dispatch_run_cases) (auto simp: in_account_def)

lemma in_account_control: "deinitialized d s = Some t \<Longrightarrow> in_account s \<Longrightarrow> in_account t"
  by (erule deinitialized_cases) (auto simp: in_account_def)

lemma in_account_upstream: "upstream s t \<Longrightarrow> in_account s \<Longrightarrow> in_account t"
  by (erule upstreamE) (auto simp: in_account_def dest!: multi_member_split)

lemma in_account_reach: "node_reach vm s \<Longrightarrow> in_account s"
  by (erule node_reach_invariant)
    (auto intro: in_account_handle in_account_dispatch in_account_control in_account_upstream,
      simp add: in_account_def node_sys_init_def fresh_node_def)

lemma out_account_dispatch:
  "dispatch_run s = Some t \<Longrightarrow> out_account owed s \<Longrightarrow> out_account owed t"
  by (erule dispatch_run_cases)
    (auto simp: out_account_def sem_wait_Some_iff queue_simps)

lemma out_account_handle:
  "handle_run vm s = Some t \<Longrightarrow> out_account (h_out (hpc s)) s \<Longrightarrow> out_account (h_out (hpc t)) t"
  by (erule handle_run_cases) (auto simp: out_account_def)

lemma out_account_control:
  "deinitialized d s = Some t \<Longrightarrow> out_account owed s \<Longrightarrow> out_account owed t \<and> hpc t = hpc s"
  by (erule deinitialized_cases) (auto simp: out_account_def)

lemma out_account_upstream:
  "upstream s t \<Longrightarrow> out_account owed s \<Longrightarrow> out_account owed t \<and> hpc t = hpc s"
  by (erule upstreamE) (auto simp: out_account_def)

lemma dispatch_run_hpc: "dispatch_run s = Some t \<Longrightarrow> hpc t = hpc s"
  by (erule dispatch_run_cases) auto

lemma out_account_reach: "node_reach vm s \<Longrightarrow> out_account (h_out (hpc s)) s"
proof (erule node_reach_invariant)
  fix n :: "'h vp_node" and w :: 'w
  show "fresh_node n \<Longrightarrow> out_account (h_out (hpc (node_sys_init n HTop w))) (node_sys_init n HTop w)"
    by (simp add: out_account_def node_sys_init_def fresh_node_def)
next
  fix s t :: "('h, 'w, handle_pc) node_sys"
  assume "dispatch_run s = Some t" "out_account (h_out (hpc s)) s"
  then show "out_account (h_out (hpc t)) t"
    using dispatch_run_hpc [of s t] out_account_dispatch by fastforce
qed (use out_account_handle out_account_control out_account_upstream in \<open>fastforce+\<close>)

section \<open>The history of the queues\<close>

definition in_history :: "('h, 'w, 'p, 'z) node_sys_scheme \<Rightarrow> bool" where
  "in_history s \<longleftrightarrow> arrived s = taken s @ somes (tsq_q (in_queue (nd s)))"

text \<open>
  What was emitted is what was delivered and what the out-queue still holds; the entry being
  dispatched stays at the head of the queue until it is popped.
\<close>

definition out_history :: "('h, 'w, 'p, 'z) node_sys_scheme \<Rightarrow> bool" where
  "out_history s \<longleftrightarrow> (let q = tsq_q (out_queue (nd s)) in case dpc s of
      DPop \<Rightarrow> (\<exists>m q'. q = Some m # q' \<and> emitted s = delivered s @ somes q')
    | DLeave m \<Rightarrow> (\<exists>q'. q = Some m # q') \<and> emitted s = delivered s @ somes q
    | DPush m \<Rightarrow> (\<exists>q'. q = Some m # q') \<and> emitted s = delivered s @ somes q
    | _ \<Rightarrow> emitted s = delivered s @ somes q)"

lemma in_history_handle: "handle_run vm s = Some t \<Longrightarrow> in_history s \<Longrightarrow> in_history t"
  by (erule handle_run_cases) (auto simp: in_history_def queue_simps)

lemma in_history_dispatch: "dispatch_run s = Some t \<Longrightarrow> in_history s \<Longrightarrow> in_history t"
  by (erule dispatch_run_cases) (auto simp: in_history_def)

lemma in_history_control: "deinitialized d s = Some t \<Longrightarrow> in_history s \<Longrightarrow> in_history t"
  by (erule deinitialized_cases) (auto simp: in_history_def)

lemma in_history_upstream: "upstream s t \<Longrightarrow> in_history s \<Longrightarrow> in_history t"
  by (erule upstreamE) (auto simp: in_history_def)

lemma out_history_dispatch: "dispatch_run s = Some t \<Longrightarrow> out_history s \<Longrightarrow> out_history t"
proof (erule dispatch_run_cases)
  fix m assume "dpc s = DFront" "Front (out_queue (nd s)) = Inr (Some m)" "t = s\<lparr>dpc := DLeave m\<rparr>"
    and "out_history s"
  then show "out_history t"
    by (cases "tsq_q (out_queue (nd s))") (auto simp: out_history_def queue_simps)
qed (auto simp: out_history_def Let_def)

lemma out_history_handle: "handle_run vm s = Some t \<Longrightarrow> out_history s \<Longrightarrow> out_history t"
  by (erule handle_run_cases) (auto simp: out_history_def Let_def split: dispatch_pc.splits)

lemma out_history_control: "deinitialized d s = Some t \<Longrightarrow> out_history s \<Longrightarrow> out_history t"
  by (erule deinitialized_cases) (auto simp: out_history_def Let_def split: dispatch_pc.splits)

lemma out_history_upstream: "upstream s t \<Longrightarrow> out_history s \<Longrightarrow> out_history t"
  by (erule upstreamE) (auto simp: out_history_def Let_def split: dispatch_pc.splits)

lemma out_history_prefix:
  assumes "out_history s"
  shows "\<exists>rest. emitted s = delivered s @ rest"
  using assms by (auto simp: out_history_def Let_def split: dispatch_pc.splits)

section \<open>What the handle thread holds\<close>

definition held :: "('h, 'w, handle_pc) node_sys \<Rightarrow> nat list" where
  "held s = (case hpc s of HPush xs \<Rightarrow> xs | HSignal xs \<Rightarrow> xs | HHandled x xs \<Rightarrow> xs | _ \<Rightarrow> cache s)"

definition in_hand :: "('h, 'w, handle_pc) node_sys \<Rightarrow> nat list" where
  "in_hand s = (case hpc s of HHook m \<Rightarrow> [m] | HHandle m \<Rightarrow> [m] | _ \<Rightarrow> [])"

abbreviation frames :: "(nat \<Rightarrow> vp_meta_type) \<Rightarrow> nat list \<Rightarrow> nat list" where
  "frames ty \<equiv> filter (\<lambda>m. ty m = FRAME)"

definition frame_history :: "(nat \<Rightarrow> vp_meta_type) \<Rightarrow> ('h, 'w, handle_pc) node_sys \<Rightarrow> bool" where
  "frame_history ty s \<longleftrightarrow>
     (\<exists>ys. taken s = ys @ in_hand s \<and> frames ty ys = emitted s @ held s)"

text \<open>
  The two conditions on the virtual functions: the type tag of a meta does not change, and
  the control handler never returns \<open>nullptr\<close>. \<open>vp_node\<close> itself meets both.
\<close>

definition typed_methods :: "(nat \<Rightarrow> vp_meta_type) \<Rightarrow> 'w methods \<Rightarrow> bool" where
  "typed_methods ty vm \<longleftrightarrow> (\<forall>m w. vm_type vm m w = ty m)"

definition keeps_controls :: "'w methods \<Rightarrow> bool" where
  "keeps_controls vm \<longleftrightarrow> (\<forall>m w. fst (vm_control vm m w) \<noteq> None)"

lemma vp_node_methods_ok:
  "typed_methods ty (vp_node_methods (\<lambda>m w. ty m))"
  "keeps_controls (vp_node_methods (\<lambda>m w. ty m))"
  by (simp_all add: typed_methods_def keeps_controls_def vp_node_methods_def handle_control_meta_def)

lemma frame_history_handle_meta:
  assumes "typed_methods ty vm" and "keeps_controls vm" and "hpc s = HHandle m"
    and "frame_history ty s"
  shows "frame_history ty (handle_meta vm m s)"
proof -
  obtain ys where ys: "taken s = ys @ [m]" "frames ty ys = emitted s @ cache s"
    using assms(3,4) by (auto simp: frame_history_def in_hand_def held_def)
  show ?thesis
  proof (cases "ty m")
    case FRAME
    then have "vm_type vm m (world s) = FRAME" using assms(1) by (simp add: typed_methods_def)
    with ys FRAME show ?thesis
      by (auto simp: frame_history_def handle_meta_def Let_def in_hand_def held_def)
  next
    case CONTROL
    then have "vm_type vm m (world s) = CONTROL" using assms(1) by (simp add: typed_methods_def)
    moreover obtain c w where "vm_control vm m (world s) = (Some c, w)"
      using assms(2) by (metis keeps_controls_def not_None_eq prod.collapse)
    ultimately show ?thesis
      using ys CONTROL by (auto simp: frame_history_def handle_meta_def in_hand_def held_def)
  qed
qed

lemma frame_history_handle:
  assumes vm: "typed_methods ty vm" "keeps_controls vm"
  shows "handle_run vm s = Some t \<Longrightarrow> frame_history ty s \<Longrightarrow> frame_history ty t"
proof (erule handle_run_cases)
  fix m assume "hpc s = HHandle m" "t = handle_meta vm m s" "frame_history ty s"
  then show "frame_history ty t" using frame_history_handle_meta [OF vm] by blast
qed (auto simp: frame_history_def in_hand_def held_def)

lemma same_history:
  assumes "taken t = taken s" "emitted t = emitted s" "hpc t = hpc s" "cache t = cache s"
  shows "frame_history ty s \<Longrightarrow> frame_history ty t"
  using assms by (cases "hpc s") (simp_all add: frame_history_def in_hand_def held_def)

lemma dispatch_run_same: "dispatch_run s = Some t \<Longrightarrow>
    taken t = taken s \<and> emitted t = emitted s \<and> hpc t = hpc s \<and> cache t = cache s \<and>
    frame_meta_handle_batch (nd t) = frame_meta_handle_batch (nd s) \<and> alive (nd t) = alive (nd s)"
  by (erule dispatch_run_cases) auto

lemma deinitialized_same: "deinitialized d s = Some t \<Longrightarrow>
    taken t = taken s \<and> emitted t = emitted s \<and> hpc t = hpc s \<and> cache t = cache s \<and>
    frame_meta_handle_batch (nd t) = frame_meta_handle_batch (nd s)"
  by (erule deinitialized_cases) auto

lemma upstream_same: "upstream s t \<Longrightarrow>
    taken t = taken s \<and> emitted t = emitted s \<and> hpc t = hpc s \<and> cache t = cache s \<and>
    frame_meta_handle_batch (nd t) = frame_meta_handle_batch (nd s) \<and>
    alive (nd t) = alive (nd s) \<and> dpc t = dpc s \<and> cpc t = cpc s"
  by (erule upstreamE) auto

lemma frame_history_dispatch: "dispatch_run s = Some t \<Longrightarrow> frame_history ty s \<Longrightarrow> frame_history ty t"
  by (rule same_history [of t s]) (auto dest: dispatch_run_same)

lemma frame_history_control: "deinitialized d s = Some t \<Longrightarrow> frame_history ty s \<Longrightarrow> frame_history ty t"
  by (rule same_history [of t s]) (auto dest: deinitialized_same)

lemma frame_history_upstream: "upstream s t \<Longrightarrow> frame_history ty s \<Longrightarrow> frame_history ty t"
  by (rule same_history [of t s]) (auto dest: upstream_same)

lemma frame_history_reach:
  assumes vm: "typed_methods ty vm" "keeps_controls vm" and "node_reach vm s"
  shows "frame_history ty s"
  using assms(3)
proof (rule node_reach_invariant)
  show "fresh_node n \<Longrightarrow> frame_history ty (node_sys_init n HTop w)" for n :: "'h vp_node" and w :: 'w
    by (simp add: frame_history_def in_hand_def held_def node_sys_init_def)
qed (fact frame_history_handle [OF vm] frame_history_dispatch frame_history_control
  frame_history_upstream)+

lemma in_history_reach: "node_reach vm s \<Longrightarrow> in_history s"
  by (erule node_reach_invariant)
    (auto intro: in_history_handle in_history_dispatch in_history_control in_history_upstream,
      simp add: in_history_def node_sys_init_def fresh_node_def)

lemma out_history_reach: "node_reach vm s \<Longrightarrow> out_history s"
  by (erule node_reach_invariant)
    (auto intro: out_history_handle out_history_dispatch out_history_control out_history_upstream,
      simp add: out_history_def node_sys_init_def fresh_node_def)

text \<open>
  The metas that have arrived and not been delivered, in the order in which they would be:
  the rest of the out-queue, the frames the handle thread holds, and the in-queue.
\<close>

definition out_pending :: "('h, 'w, 'p, 'z) node_sys_scheme \<Rightarrow> nat list" where
  "out_pending s = somes (if dpc s = DPop then tl (tsq_q (out_queue (nd s))) else tsq_q (out_queue (nd s)))"

lemma emitted_eq: "out_history s \<Longrightarrow> emitted s = delivered s @ out_pending s"
  by (auto simp: out_history_def out_pending_def Let_def split: dispatch_pc.splits)

section \<open>Batches\<close>

definition batch_size :: "('h, 'w, 'p, 'z) node_sys_scheme \<Rightarrow> nat" where
  "batch_size s = max 1 (size_t_of_int (frame_meta_handle_batch (nd s)))"

definition batch_inv :: "('h, 'w, handle_pc) node_sys \<Rightarrow> bool" where
  "batch_inv s \<longleftrightarrow> (case hpc s of
      HPush xs \<Rightarrow> batch_size s dvd length (emitted s) + length xs
    | HSignal xs \<Rightarrow> batch_size s dvd length (emitted s) + length xs
    | HHandled x xs \<Rightarrow> batch_size s dvd length (emitted s) + length xs
    | _ \<Rightarrow> length (cache s) < batch_size s \<and> batch_size s dvd length (emitted s))"

lemma batch_inv_handle_meta:
  assumes "hpc s = HHandle m" and "batch_inv s"
  shows "batch_inv (handle_meta vm m s)"
proof -
  let ?b = "size_t_of_int (frame_meta_handle_batch (nd s))"
  have c: "length (cache s) < max 1 ?b" and d: "max 1 ?b dvd length (emitted s)"
    using assms by (simp_all add: batch_inv_def batch_size_def)
  show ?thesis
  proof (cases "vm_type vm m (world s)")
    case FRAME
    show ?thesis
    proof (cases "?b \<le> Suc (length (cache s))")
      case True
      with c have "Suc (length (cache s)) = max 1 ?b" by linarith
      with d have "max 1 ?b dvd length (emitted s) + Suc (length (cache s))"
        by (metis dvd_add dvd_refl)
      with FRAME True show ?thesis
        by (simp add: handle_meta_def Let_def batch_inv_def batch_size_def)
    next
      case False
      with FRAME c d show ?thesis
        by (simp add: handle_meta_def Let_def batch_inv_def batch_size_def)
    qed
  next
    case CONTROL
    with c d show ?thesis
      by (auto simp: handle_meta_def batch_inv_def batch_size_def split: prod.split option.split)
  qed
qed

lemma batch_inv_handle: "handle_run vm s = Some t \<Longrightarrow> batch_inv s \<Longrightarrow> batch_inv t"
proof (erule handle_run_cases)
  fix m assume "hpc s = HHandle m" "t = handle_meta vm m s" "batch_inv s"
  then show "batch_inv t" using batch_inv_handle_meta by blast
qed (auto simp: batch_inv_def batch_size_def)

lemma same_batch:
  assumes "emitted t = emitted s" "hpc t = hpc s" "cache t = cache s"
    "frame_meta_handle_batch (nd t) = frame_meta_handle_batch (nd s)"
  shows "batch_inv s \<Longrightarrow> batch_inv t"
  using assms by (cases "hpc s") (simp_all add: batch_inv_def batch_size_def)

lemma batch_inv_dispatch: "dispatch_run s = Some t \<Longrightarrow> batch_inv s \<Longrightarrow> batch_inv t"
  by (rule same_batch [of t s]) (auto dest: dispatch_run_same)

lemma batch_inv_control: "deinitialized d s = Some t \<Longrightarrow> batch_inv s \<Longrightarrow> batch_inv t"
  by (rule same_batch [of t s]) (auto dest: deinitialized_same)

lemma batch_inv_upstream: "upstream s t \<Longrightarrow> batch_inv s \<Longrightarrow> batch_inv t"
  by (rule same_batch [of t s]) (auto dest: upstream_same)

lemma batch_inv_reach: "node_reach vm s \<Longrightarrow> batch_inv s"
proof (erule node_reach_invariant)
  show "fresh_node n \<Longrightarrow> batch_inv (node_sys_init n HTop w)" for n :: "'h vp_node" and w :: 'w
    by (simp add: batch_inv_def batch_size_def node_sys_init_def)
qed (fact batch_inv_handle batch_inv_dispatch batch_inv_control batch_inv_upstream)+

section \<open>The account of the frames\<close>

lemma frame_account:
  assumes "typed_methods ty vm" and "keeps_controls vm" and "node_reach vm s"
  shows "frames ty (arrived s) = delivered s @ out_pending s @ held s @
    frames ty (in_hand s) @ frames ty (somes (tsq_q (in_queue (nd s))))"
proof -
  from frame_history_reach [OF assms] obtain ys
    where "taken s = ys @ in_hand s" "frames ty ys = emitted s @ held s"
    by (auto simp: frame_history_def)
  then show ?thesis
    using in_history_reach [OF assms(3)] emitted_eq [OF out_history_reach [OF assms(3)]]
    by (simp add: in_history_def)
qed

section \<open>What survives any handlers\<close>

text \<open>
  Whatever the handlers return, what was emitted and what is held for emission is taken, in
  order, from the metas handled so far, and only from those with the property \<open>P\<close> that the
  type tag \<open>FRAME\<close> gives.
\<close>

definition kept_in_order :: "(nat \<Rightarrow> bool) \<Rightarrow> ('h, 'w, handle_pc) node_sys \<Rightarrow> bool" where
  "kept_in_order P s \<longleftrightarrow>
     (\<exists>ys. taken s = ys @ in_hand s \<and> subseq (emitted s @ held s) (filter P ys))"

lemma kept_in_order_handle_meta:
  assumes "\<forall>m w. vm_type vm m w = FRAME \<longrightarrow> P m" and "hpc s = HHandle m"
    and "kept_in_order P s"
  shows "kept_in_order P (handle_meta vm m s)"
proof -
  obtain ys where taken: "taken s = ys @ [m]" and sub: "subseq (emitted s @ cache s) (filter P ys)"
    using assms(2,3) by (auto simp: kept_in_order_def in_hand_def held_def)
  have rest: "subseq (emitted s @ cache s) (filter P (ys @ [m]))"
    using sub by (simp add: subseq_rev_drop_many)
  then have only: "subseq (emitted s) (filter P (ys @ [m]))"
    by (metis list_emb_appendD subseq_rev_drop_many)
  show ?thesis
  proof (cases "vm_type vm m (world s)")
    case FRAME
    with assms(1) have "P m" by blast
    moreover have "subseq ((emitted s @ cache s) @ [m]) (filter P ys @ [m])"
      using sub by (rule list_emb_append_mono) simp
    ultimately show ?thesis
      using FRAME taken by (auto simp: kept_in_order_def handle_meta_def Let_def in_hand_def held_def)
  next
    case CONTROL
    with rest only taken show ?thesis
      by (auto simp: kept_in_order_def handle_meta_def in_hand_def held_def
        split: prod.split option.split)
  qed
qed

lemma kept_in_order_handle:
  assumes "\<forall>m w. vm_type vm m w = FRAME \<longrightarrow> P m"
  shows "handle_run vm s = Some t \<Longrightarrow> kept_in_order P s \<Longrightarrow> kept_in_order P t"
proof (erule handle_run_cases)
  fix m assume "hpc s = HHandle m" "t = handle_meta vm m s" "kept_in_order P s"
  then show "kept_in_order P t" using kept_in_order_handle_meta [OF assms] by blast
qed (auto simp: kept_in_order_def in_hand_def held_def)

lemma same_order:
  assumes "taken t = taken s" "emitted t = emitted s" "hpc t = hpc s" "cache t = cache s"
  shows "kept_in_order P s \<Longrightarrow> kept_in_order P t"
  using assms by (cases "hpc s") (simp_all add: kept_in_order_def in_hand_def held_def)

lemma kept_in_order_reach:
  assumes tag: "\<forall>m w. vm_type vm m w = FRAME \<longrightarrow> P m" and "node_reach vm s"
  shows "kept_in_order P s"
  using assms(2)
proof (rule node_reach_invariant)
  show "fresh_node n \<Longrightarrow> kept_in_order P (node_sys_init n HTop w)" for n :: "'h vp_node" and w :: 'w
    by (simp add: kept_in_order_def in_hand_def held_def node_sys_init_def)
  show "dispatch_run s = Some t \<Longrightarrow> kept_in_order P s \<Longrightarrow> kept_in_order P t"
    for s t :: "('h, 'w, handle_pc) node_sys"
    by (rule same_order [of t s]) (auto dest: dispatch_run_same)
  show "deinitialized d s = Some t \<Longrightarrow> kept_in_order P s \<Longrightarrow> kept_in_order P t"
    for d and s t :: "('h, 'w, handle_pc) node_sys"
    by (rule same_order [of t s]) (auto dest: deinitialized_same)
  show "upstream s t \<Longrightarrow> kept_in_order P s \<Longrightarrow> kept_in_order P t"
    for s t :: "('h, 'w, handle_pc) node_sys"
    by (rule same_order [of t s]) (auto dest: upstream_same)
qed (fact kept_in_order_handle [OF tag])

lemma frames_kept_in_order:
  assumes "typed_methods ty vm" and "node_reach vm s"
  shows "subseq (delivered s @ out_pending s @ held s @ frames ty (in_hand s) @
    frames ty (somes (tsq_q (in_queue (nd s))))) (frames ty (arrived s))"
proof -
  have "kept_in_order (\<lambda>m. ty m = FRAME) s"
    using assms by (intro kept_in_order_reach) (simp_all add: typed_methods_def)
  then obtain ys where taken: "taken s = ys @ in_hand s"
    and "subseq (emitted s @ held s) (frames ty ys)"
    by (auto simp: kept_in_order_def)
  then have "subseq ((emitted s @ held s) @ frames ty (in_hand s @ somes (tsq_q (in_queue (nd s)))))
      (frames ty ys @ frames ty (in_hand s @ somes (tsq_q (in_queue (nd s)))))"
    by (intro list_emb_append_mono) simp_all
  then show ?thesis
    using taken in_history_reach [OF assms(2)] emitted_eq [OF out_history_reach [OF assms(2)]]
    by (simp add: in_history_def)
qed

lemma handle_control_step:
  assumes "typed_methods ty vm" and "hpc s = HHandle m" and "ty m = CONTROL"
  shows "\<exists>t. handle_run vm s = Some t \<and> hpc t = HTop \<and> nd t = nd s \<and> emitted t = emitted s \<and>
    cache t = (if fst (vm_control vm m (world s)) = None then [] else cache s)"
  using assms by (cases "vm_control vm m (world s)")
    (auto simp: handle_run_def handle_meta_def typed_methods_def split: option.split)

lemma emitted_held_bound:
  assumes "node_reach vm s"
  shows "length (emitted s) + length (held s) \<le> length (taken s)"
proof -
  have "kept_in_order (\<lambda>m. True) s" by (rule kept_in_order_reach [OF _ assms]) simp
  then obtain ys where "taken s = ys @ in_hand s" "subseq (emitted s @ held s) ys"
    by (auto simp: kept_in_order_def)
  then show ?thesis using list_emb_length [of "(=)" "emitted s @ held s" ys] by simp
qed

text \<open>At any point of the loop what was emitted and is being emitted makes whole batches.\<close>

lemma batch_inv_dvd:
  assumes "batch_inv s"
  obtains k where "k \<le> length (held s)" and "batch_size s dvd length (emitted s) + k"
  using assms by (cases "hpc s") (fastforce simp: batch_inv_def held_def)+

end
