(* ===== verification/NodeShutdown.thy ===== *)
theory NodeShutdown
  imports NodeInv
begin

text \<open>
  Shutting a node down. \<open>deinitialized\<close> clears \<open>alive\<close>, wakes the handle thread with the
  dead flag and joins both threads. The flags below say why nobody is left waiting; a measure
  on the program counters bounds the steps the three threads still take.
\<close>

section \<open>Flags\<close>

definition shutdown_inv :: "('h, 'w, handle_pc) node_sys \<Rightarrow> bool" where
  "shutdown_inv s \<longleftrightarrow>
     (alive (nd s) \<longleftrightarrow> cpc s = CRun) \<and>
     (hpc s \<in> {HDeadPush, HDeadSignal, HDone} \<longrightarrow> \<not> alive (nd s)) \<and>
     (dpc s = DDone \<longrightarrow> \<not> alive (nd s)) \<and>
     (cpc s \<in> {CJoinHandle, CJoinDispatch, CDone} \<and> hpc s = HWait \<longrightarrow>
        0 < sem_count (in_queue_semaphore (nd s))) \<and>
     (hpc s = HDone \<and> dpc s = DWait \<longrightarrow> 0 < sem_count (out_queue_semaphore (nd s))) \<and>
     (cpc s \<in> {CJoinDispatch, CDone} \<longrightarrow> hpc s = HDone) \<and>
     (cpc s = CDone \<longrightarrow> dpc s = DDone) \<and>
     0 \<le> sem_count (in_queue_semaphore (nd s)) \<and> 0 \<le> sem_count (out_queue_semaphore (nd s))"

lemma hpc_handle_meta: "hpc (handle_meta vm m s) = HTop \<or> (\<exists>xs. hpc (handle_meta vm m s) = HPush xs)"
  by (auto simp: handle_meta_def Let_def split: vp_meta_type.split prod.split option.split)

lemma shutdown_inv_handle: "handle_run vm s = Some t \<Longrightarrow> shutdown_inv s \<Longrightarrow> shutdown_inv t"
proof (erule handle_run_cases)
  fix m assume "hpc s = HHandle m" "t = handle_meta vm m s" "shutdown_inv s"
  then show "shutdown_inv t" using hpc_handle_meta [of vm m s] by (auto simp: shutdown_inv_def)
qed (auto simp: shutdown_inv_def sem_wait_Some_iff)

lemma shutdown_inv_dispatch: "dispatch_run s = Some t \<Longrightarrow> shutdown_inv s \<Longrightarrow> shutdown_inv t"
  by (erule dispatch_run_cases) (auto simp: shutdown_inv_def sem_wait_Some_iff)

lemma shutdown_inv_control:
  "deinitialized (hpc s = HDone) s = Some t \<Longrightarrow> shutdown_inv s \<Longrightarrow> shutdown_inv t"
  by (erule deinitialized_cases) (auto simp: shutdown_inv_def)

lemma shutdown_inv_upstream: "upstream s t \<Longrightarrow> shutdown_inv s \<Longrightarrow> shutdown_inv t"
  by (erule upstreamE) (auto simp: shutdown_inv_def)

lemma shutdown_inv_reach: "node_reach vm s \<Longrightarrow> shutdown_inv s"
proof (induction rule: node_reach.induct)
  case (start n w)
  then show ?case by (simp add: shutdown_inv_def node_sys_init_def fresh_node_def)
next
  case (step s t)
  from step.hyps(2) step.IH show ?case
    by (auto simp: node_step_def node_thread_iff intro: shutdown_inv_handle
      shutdown_inv_dispatch shutdown_inv_control shutdown_inv_upstream)
qed

section \<open>Progress\<close>

definition shut_down :: "('h, 'w, handle_pc) node_sys \<Rightarrow> bool" where
  "shut_down s \<longleftrightarrow> hpc s = HDone \<and> dpc s = DDone \<and> cpc s = CDone"

lemma handle_enabled:
  assumes "in_account s" and "shutdown_inv s" and "\<not> alive (nd s)" and "hpc s \<noteq> HDone"
    and "cpc s \<notin> {CPushNull, CSignal}"
  shows "\<exists>t. handle_run vm s = Some t"
proof (cases "hpc s")
  case HWait
  with assms have "0 < sem_count (in_queue_semaphore (nd s))"
    by (cases "cpc s") (auto simp: shutdown_inv_def)
  with HWait show ?thesis by (simp add: handle_run_def sem_wait_def)
next
  case HPop
  with assms(1) have "tsq_q (in_queue (nd s)) \<noteq> []"
    by (cases "cpc s") (auto simp: in_account_def)
  then obtain m q where "WaitAndPop (in_queue (nd s)) = Some (m, q)"
    using WaitAndPop_None_iff [of "in_queue (nd s)"] by (cases "WaitAndPop (in_queue (nd s))") auto
  with HPop show ?thesis by (cases m) (simp_all add: handle_run_def)
next
  case (HPush xs)
  then show ?thesis by (cases xs) (simp_all add: handle_run_def)
qed (use assms(4) in \<open>simp_all add: handle_run_def\<close>)

lemma dispatch_enabled:
  assumes "out_account owed s" and "shutdown_inv s" and "hpc s = HDone" and "dpc s \<noteq> DDone"
  shows "\<exists>t. dispatch_run s = Some t"
proof (cases "dpc s")
  case DWait
  with assms(2,3) have "0 < sem_count (out_queue_semaphore (nd s))"
    by (simp add: shutdown_inv_def)
  with DWait show ?thesis by (simp add: dispatch_run_def sem_wait_def)
qed (use assms in \<open>simp_all add: dispatch_run_def out_account_def\<close>)

lemma shutdown_progress:
  assumes "node_reach vm s" and "\<not> alive (nd s)" and "\<not> shut_down s"
  shows "\<exists>t. node_thread vm s t"
proof -
  note inv = shutdown_inv_reach [OF assms(1)] in_account_reach [OF assms(1)]
    out_account_reach [OF assms(1)]
  show ?thesis
  proof (cases "cpc s \<in> {CPushNull, CSignal}")
    case True
    then obtain t where "deinitialized (hpc s = HDone) s = Some t"
      by (auto simp: deinitialized_def)
    then show ?thesis by (blast intro: node_thread.control)
  next
    case c: False
    show ?thesis
    proof (cases "hpc s = HDone")
      case False
      with handle_enabled [OF inv(2,1) assms(2) False c] show ?thesis
        by (blast intro: node_thread.handle)
    next
      case h: True
      show ?thesis
      proof (cases "dpc s = DDone")
        case False
        from dispatch_enabled [OF inv(3,1) h False] show ?thesis
          by (blast intro: node_thread.dispatch)
      next
        case True
        with h assms c inv(1) obtain t where "deinitialized (hpc s = HDone) s = Some t"
          by (cases "cpc s") (auto simp: deinitialized_def shut_down_def shutdown_inv_def)
        then show ?thesis by (blast intro: node_thread.control)
      qed
    qed
  qed
qed

section \<open>Termination\<close>

fun h_steps :: "nat \<Rightarrow> handle_pc \<Rightarrow> nat" where
  "h_steps c HDone = 0"
| "h_steps c HDeadSignal = 1"
| "h_steps c HDeadPush = 2"
| "h_steps c HTop = 3"
| "h_steps c (HPush xs) = 4 + 3 * length xs"
| "h_steps c (HSignal xs) = 5 + 3 * length xs"
| "h_steps c (HHandled x xs) = 6 + 3 * length xs"
| "h_steps c (HHandle m) = 8 + 3 * c"
| "h_steps c (HHook m) = 9 + 3 * c"
| "h_steps c HPop = 10 + 3 * c"
| "h_steps c HWait = 11 + 3 * c"

fun d_steps :: "dispatch_pc \<Rightarrow> nat" where
  "d_steps DDone = 0"
| "d_steps (DCrash e) = 0"
| "d_steps DTop = 1"
| "d_steps DPop = 2"
| "d_steps (DPush m) = 3"
| "d_steps (DLeave m) = 4"
| "d_steps DFront = 5"
| "d_steps DWait = 6"

fun c_steps :: "control_pc \<Rightarrow> nat" where
  "c_steps CRun = 5"
| "c_steps CPushNull = 4"
| "c_steps CSignal = 3"
| "c_steps CJoinHandle = 2"
| "c_steps CJoinDispatch = 1"
| "c_steps CDone = 0"

definition steps_left :: "('h, 'w, handle_pc) node_sys \<Rightarrow> nat" where
  "steps_left s = h_steps (length (cache s)) (hpc s) + d_steps (dpc s) + c_steps (cpc s)"

lemma steps_left_handle_meta:
  "hpc s = HHandle m \<Longrightarrow> steps_left (handle_meta vm m s) < steps_left s"
  by (auto simp: steps_left_def handle_meta_def Let_def
    split: vp_meta_type.split prod.split option.split)

lemma steps_left_handle:
  "handle_run vm s = Some t \<Longrightarrow> \<not> alive (nd s) \<Longrightarrow> steps_left t < steps_left s"
proof (erule handle_run_cases)
  fix m assume "hpc s = HHandle m" "t = handle_meta vm m s"
  then show "steps_left t < steps_left s" using steps_left_handle_meta by blast
qed (auto simp: steps_left_def)

lemma steps_left_dispatch:
  "dispatch_run s = Some t \<Longrightarrow> \<not> alive (nd s) \<Longrightarrow> steps_left t < steps_left s"
  by (erule dispatch_run_cases) (auto simp: steps_left_def)

lemma steps_left_control: "deinitialized d s = Some t \<Longrightarrow> steps_left t < steps_left s"
  by (erule deinitialized_cases) (auto simp: steps_left_def)

lemma steps_left_thread:
  "node_thread vm s t \<Longrightarrow> \<not> alive (nd s) \<Longrightarrow> steps_left t < steps_left s"
  by (auto simp: node_thread_iff intro: steps_left_handle steps_left_dispatch steps_left_control)

lemma steps_left_upstream: "upstream s t \<Longrightarrow> steps_left t = steps_left s"
  by (frule upstream_same) (simp add: steps_left_def)

lemma node_thread_dead: "node_thread vm s t \<Longrightarrow> \<not> alive (nd s) \<Longrightarrow> \<not> alive (nd t)"
  by (auto simp: node_thread_iff elim!: handle_run_cases dispatch_run_cases deinitialized_cases)

text \<open>
  A schedule after \<open>alive\<close> was cleared: any interleaving of the node's threads with the
  upstream threads, counting the steps of the former.
\<close>

inductive schedule ::
  "'w methods \<Rightarrow> nat \<Rightarrow> ('h, 'w, handle_pc) node_sys \<Rightarrow> ('h, 'w, handle_pc) node_sys \<Rightarrow> bool"
  for vm where
  none: "schedule vm 0 s s"
| own: "schedule vm k s t \<Longrightarrow> node_thread vm t u \<Longrightarrow> schedule vm (Suc k) s u"
| other: "schedule vm k s t \<Longrightarrow> upstream t u \<Longrightarrow> schedule vm k s u"

lemma schedule_bound:
  "schedule vm k s t \<Longrightarrow> \<not> alive (nd s) \<Longrightarrow> \<not> alive (nd t) \<and> k + steps_left t \<le> steps_left s"
proof (induction rule: schedule.induct)
  case (none s)
  then show ?case by simp
next
  case (own k s t u)
  then show ?case
    using steps_left_thread [of vm t u] node_thread_dead [of vm t u] by simp
next
  case (other k s t u)
  then show ?case
    using steps_left_upstream [of t u] upstream_same [of t u] by simp
qed

lemma schedule_reach: "schedule vm k s t \<Longrightarrow> node_reach vm s \<Longrightarrow> node_reach vm t"
  by (induction rule: schedule.induct) (auto intro: node_reach.step simp: node_step_def)

lemma schedule_prepend:
  "schedule vm k u t \<Longrightarrow> node_thread vm s u \<Longrightarrow> schedule vm (Suc k) s t"
proof (induction rule: schedule.induct)
  case (none u)
  then show ?case using schedule.own [OF schedule.none] by blast
qed (auto intro: schedule.own schedule.other)

lemma schedule_to_end:
  "node_reach vm s \<Longrightarrow> \<not> alive (nd s) \<Longrightarrow> \<exists>k t. schedule vm k s t \<and> shut_down t"
proof (induction "steps_left s" arbitrary: s rule: less_induct)
  case less
  show ?case
  proof (cases "shut_down s")
    case True
    then show ?thesis by (blast intro: schedule.none)
  next
    case False
    with shutdown_progress less.prems obtain u where u: "node_thread vm s u" by blast
    have "node_reach vm u" using less.prems(1) u
      by (auto intro: node_reach.step simp: node_step_def)
    moreover have "\<not> alive (nd u)" using node_thread_dead u less.prems(2) by blast
    moreover have "steps_left u < steps_left s" using steps_left_thread u less.prems(2) by blast
    ultimately obtain k t where "schedule vm k u t" "shut_down t" using less.hyps by blast
    with u show ?thesis by (blast intro: schedule_prepend)
  qed
qed

end
