(* ===== verification/NodeProperties.thy ===== *)
theory NodeProperties
  imports NodeShutdown
begin

text \<open>
  What the threads of one node guarantee: the properties C1 to C7 of the development. Each is
  a few steps over the invariants of \<open>NodeInv\<close> and \<open>NodeShutdown\<close>; the witnesses apply it to
  the state a concrete schedule of a node reaches.
\<close>

section \<open>A concrete run\<close>

text \<open>Metas below 100 are frames. One frame and one control meta pass through a fresh node.\<close>

definition demo_type :: "nat \<Rightarrow> vp_meta_type" where
  "demo_type m = (if m < 100 then FRAME else CONTROL)"

definition demo_vm :: "unit methods" where
  "demo_vm = vp_node_methods (\<lambda>m w. demo_type m)"

definition demo_start :: "(unit, unit, handle_pc) node_sys" where
  "demo_start = node_sys_init (vp_node_ctor ''node'') HTop ()"

definition demo_schedule :: "node_action list" where
  "demo_schedule = flow_in 1 @ flow_in 100 @
     [NHandle, NHandle, NHandle, NHandle, NHandle, NHandle, NHandle, NHandle, NHandle,
      NHandle, NHandle, NHandle, NHandle, NHandle,
      NDispatch, NDispatch, NDispatch, NDispatch, NDispatch, NDispatch]"

definition demo_state :: "(unit, unit, handle_pc) node_sys" where
  "demo_state = the (node_run demo_vm demo_schedule demo_start)"

definition dying_state :: "(unit, unit, handle_pc) node_sys" where
  "dying_state = the (node_act demo_vm NControl demo_state)"

lemmas demo_defs = demo_schedule_def demo_start_def demo_vm_def demo_type_def flow_in_def
  vp_node_methods_def handle_control_meta_def handle_frame_metas_def handle_frame_meta_def
  node_sys_init_def vp_node_ctor_def ts_queue_new_def vp_semaphore_new_def no_hookers_def
  handle_run_def handle_meta_def dispatch_run_def deinitialized_def WaitAndPop_def Push_def Pop_def
  Front_def Size_def sem_wait_def sem_signal_def invoke_defs call_hooker_def Let_def

lemma demo_methods: "typed_methods demo_type demo_vm" "keeps_controls demo_vm"
  by (simp_all add: demo_vm_def vp_node_methods_ok)

lemma demo_start_reach: "node_reach demo_vm demo_start"
  unfolding demo_start_def by (rule node_reach.start) (rule fresh_vp_node_ctor)

lemma demo_run_exists:
  "\<exists>s. node_run demo_vm demo_schedule demo_start = Some s \<and> arrived s = [1, 100] \<and>
    taken s = [1, 100] \<and> delivered s = [1] \<and> hpc s = HTop \<and> cpc s = CRun \<and> alive (nd s) \<and>
    frame_meta_handle_batch (nd s) = 1"
  by (simp add: demo_defs)

lemma demo_run:
  "node_run demo_vm demo_schedule demo_start = Some demo_state"
  "arrived demo_state = [1, 100]" "taken demo_state = [1, 100]" "delivered demo_state = [1]"
  "hpc demo_state = HTop" "cpc demo_state = CRun" "alive (nd demo_state)"
  "frame_meta_handle_batch (nd demo_state) = 1"
  using demo_run_exists by (auto simp: demo_state_def)

lemma demo_reach: "node_reach demo_vm demo_state"
  using node_run_reach [OF demo_run(1) demo_start_reach] .

text \<open>The same node with a negative batch size: the frame stays in the cache.\<close>

definition negative_start :: "(unit, unit, handle_pc) node_sys" where
  "negative_start = node_sys_init ((vp_node_ctor ''node'')\<lparr>frame_meta_handle_batch := -1\<rparr>) HTop ()"

definition negative_state :: "(unit, unit, handle_pc) node_sys" where
  "negative_state = the (node_run demo_vm
     (flow_in 1 @ [NHandle, NHandle, NHandle, NHandle, NHandle]) negative_start)"

lemma negative_run_exists:
  "\<exists>s. node_run demo_vm (flow_in 1 @ [NHandle, NHandle, NHandle, NHandle, NHandle]) negative_start
      = Some s \<and> taken s = [1] \<and> cache s = [1] \<and> frame_meta_handle_batch (nd s) = -1"
  by (simp add: demo_defs negative_start_def size_t_of_int_neg)

lemma negative_run:
  "node_run demo_vm (flow_in 1 @ [NHandle, NHandle, NHandle, NHandle, NHandle]) negative_start
    = Some negative_state"
  "taken negative_state = [1]" "cache negative_state = [1]"
  "frame_meta_handle_batch (nd negative_state) = -1"
  using negative_run_exists by (auto simp: negative_state_def)

lemma negative_reach: "node_reach demo_vm negative_state"
proof -
  have "node_reach demo_vm negative_start"
    unfolding negative_start_def
    by (rule node_reach.start) (use fresh_vp_node_ctor in \<open>simp add: fresh_node_def\<close>)
  then show ?thesis by (rule node_run_reach [OF negative_run(1)])
qed

text \<open>
  A node with batch size 2 whose control handler returns \<open>nullptr\<close>, about to handle the
  control meta while a frame waits in the batch cache.
\<close>

definition deaf_vm :: "unit methods" where
  "deaf_vm = demo_vm\<lparr>vm_control := \<lambda>m w. (None, w)\<rparr>"

definition deaf_start :: "(unit, unit, handle_pc) node_sys" where
  "deaf_start = node_sys_init ((vp_node_ctor ''node'')\<lparr>frame_meta_handle_batch := 2\<rparr>) HTop ()"

definition deaf_schedule :: "node_action list" where
  "deaf_schedule = flow_in 1 @ flow_in 100 @
     [NHandle, NHandle, NHandle, NHandle, NHandle, NHandle, NHandle, NHandle, NHandle]"

definition deaf_state :: "(unit, unit, handle_pc) node_sys" where
  "deaf_state = the (node_run deaf_vm deaf_schedule deaf_start)"

lemma deaf_run_exists:
  "\<exists>s. node_run deaf_vm deaf_schedule deaf_start = Some s \<and> hpc s = HHandle 100 \<and>
    arrived s = [1, 100] \<and> cache s = [1] \<and> tsq_q (in_queue (nd s)) = []"
  by (simp add: demo_defs deaf_schedule_def deaf_start_def deaf_vm_def)

lemma deaf_run:
  "node_run deaf_vm deaf_schedule deaf_start = Some deaf_state"
  "hpc deaf_state = HHandle 100" "arrived deaf_state = [1, 100]" "cache deaf_state = [1]"
  "tsq_q (in_queue (nd deaf_state)) = []"
  using deaf_run_exists by (auto simp: deaf_state_def)

lemma deaf_reach: "node_reach deaf_vm deaf_state"
proof -
  have "node_reach deaf_vm deaf_start"
    unfolding deaf_start_def
    by (rule node_reach.start) (use fresh_vp_node_ctor in \<open>simp add: fresh_node_def\<close>)
  then show ?thesis by (rule node_run_reach [OF deaf_run(1)])
qed

section \<open>Frames\<close>

text \<open>
  C1. No frame is lost, duplicated or reordered while a node runs: when the control handler
  never returns \<open>nullptr\<close>, the frames that have arrived are, in the order of their arrival, the
  ones handed to the subscribers, the ones in the out-queue, the ones in the handle thread's
  batch cache, the one in its hands and the ones in the in-queue, under every interleaving of
  \<open>handle_run\<close>, \<open>dispatch_run\<close>, \<open>deinitialized\<close> and the upstream threads.
\<close>

theorem frames_accounted:
  assumes "typed_methods ty vm" and "keeps_controls vm" and "node_reach vm s"
  shows "frames ty (arrived s) = delivered s @ out_pending s @ held s @
    frames ty (in_hand s) @ frames ty (somes (tsq_q (in_queue (nd s))))"
  using assms by (rule frame_account)

theorem frames_accounted_witness:
  "[1] = delivered demo_state @ out_pending demo_state @ held demo_state @
    frames demo_type (in_hand demo_state) @ frames demo_type (somes (tsq_q (in_queue (nd demo_state))))"
  using frames_accounted [OF demo_methods demo_reach] by (simp add: demo_run demo_type_def)

text \<open>
  C2. The dispatch thread never finds its out-queue empty: in no reachable state of a running
  node has \<open>Front\<close> thrown its exception out of \<open>dispatch_run\<close>, because the out-queue
  semaphore never counts more entries than the queue holds.
\<close>

theorem dispatch_never_throws:
  assumes "node_reach vm s"
  shows "dpc s \<noteq> DCrash e \<and>
    sem_count (out_queue_semaphore (nd s)) \<le> int (length (tsq_q (out_queue (nd s))))"
proof -
  have "0 \<le> d_out (dpc s)" by (cases "dpc s") simp_all
  then show ?thesis using out_account_reach [OF assms] by (simp add: out_account_def)
qed

theorem dispatch_never_throws_witness:
  "dpc demo_state \<noteq> DCrash (std_runtime_error ''ThreadSafeQueue: queue is empty'')"
  using dispatch_never_throws [OF demo_reach] by blast

text \<open>
  C3. A node forwards frames only, each at most once and in the order of their arrival,
  whatever its handlers return (they leave the type tags alone): what it has handed to the
  subscribers, what its out-queue, its batch cache and its handle thread hold and what waits in
  the in-queue is a subsequence of the frames that arrived. A control meta is never forwarded,
  even though the default \<open>handle_control_meta\<close> returns the meta it was given and
  \<open>handle_run\<close> says that only \<open>nullptr\<close> is not pushed to the next nodes: handling it
  leaves all queues and semaphores of the node as they are, and empties the batch cache when the
  handler returned \<open>nullptr\<close>.
\<close>

theorem controls_not_forwarded:
  assumes "typed_methods ty vm" and "node_reach vm s"
  shows "subseq (delivered s @ out_pending s @ held s @ frames ty (in_hand s) @
      frames ty (somes (tsq_q (in_queue (nd s))))) (frames ty (arrived s)) \<and>
    (\<forall>m. hpc s = HHandle m \<and> ty m = CONTROL \<longrightarrow>
      (\<exists>t. handle_run vm s = Some t \<and> hpc t = HTop \<and> nd t = nd s \<and> emitted t = emitted s \<and>
        cache t = (if fst (vm_control vm m (world s)) = None then [] else cache s)))"
  using frames_kept_in_order [OF assms] handle_control_step [OF assms(1)] by blast

theorem controls_not_forwarded_witness:
  "subseq (delivered deaf_state @ out_pending deaf_state @ [1]) [1] \<and>
    (\<exists>t. handle_run deaf_vm deaf_state = Some t \<and> nd t = nd deaf_state \<and> cache t = [])"
proof -
  have "typed_methods demo_type deaf_vm"
    by (simp add: deaf_vm_def demo_vm_def typed_methods_def vp_node_methods_def)
  from controls_not_forwarded [OF this deaf_reach] show ?thesis
    by (auto simp: deaf_run held_def in_hand_def demo_type_def deaf_vm_def)
qed

section \<open>Batches\<close>

text \<open>
  C4. Batches are emitted whole: at the head of the loop of \<open>handle_run\<close>, and while it waits
  for the next meta, the number of frames put into the out-queue is a multiple of the batch
  size and the batch cache holds less than one batch.
\<close>

theorem whole_batches:
  assumes "node_reach vm s" and "hpc s \<in> {HTop, HWait, HPop}"
  shows "batch_size s dvd length (emitted s) \<and> length (cache s) < batch_size s"
  using batch_inv_reach [OF assms(1)] assms(2) by (auto simp: batch_inv_def)

theorem whole_batches_witness: "length (cache demo_state) < 1"
  using whole_batches [OF demo_reach]
  by (simp add: demo_run batch_size_def)

text \<open>
  C5. A node whose batch size is negative, down to the smallest \<open>int\<close>, emits nothing as long
  as it has taken fewer than 2^63 metas, whatever its handlers do: the \<open>int\<close> is converted to a
  \<open>size_t\<close> in the comparison, so that no cache is ever long enough.
\<close>

theorem negative_batch_emits_nothing:
  assumes "node_reach vm s" and "frame_meta_handle_batch (nd s) < 0"
    and "- (2 ^ 31) \<le> frame_meta_handle_batch (nd s)" and "length (taken s) < 2 ^ 63"
  shows "emitted s = []"
proof (rule ccontr)
  assume "emitted s \<noteq> []"
  obtain k where k: "k \<le> length (held s)" "batch_size s dvd length (emitted s) + k"
    using batch_inv_dvd [OF batch_inv_reach [OF assms(1)]] .
  with \<open>emitted s \<noteq> []\<close> have "batch_size s \<le> length (emitted s) + k" by (auto intro: dvd_imp_le)
  also have "\<dots> < 2 ^ 63"
    using emitted_held_bound [OF assms(1)] k(1) assms(4) by linarith
  finally have "batch_size s < 2 ^ 63" .
  moreover have "size_t_of_int (frame_meta_handle_batch (nd s)) = nat (frame_meta_handle_batch (nd s) + 2 ^ 64)"
    using assms(2,3) by (intro size_t_of_int_neg) auto
  ultimately show False using assms(3) by (simp add: batch_size_def)
qed

theorem negative_batch_emits_nothing_witness:
  "emitted negative_state = [] \<and> cache negative_state = [1]"
  using negative_batch_emits_nothing [OF negative_reach] by (simp add: negative_run)

text \<open>
  C6. A control meta whose handler returns \<open>nullptr\<close> throws away the frames that wait for
  their batch to fill: there is a run after which a frame has arrived and been taken from the
  in-queue, and is in no queue, not in the cache, and not delivered.
\<close>

theorem null_control_loses_frames:
  fixes n :: "'h vp_node" and vm :: "'w methods"
  assumes "fresh_node n" and "1 < frame_meta_handle_batch n" and "frame_meta_handle_batch n < 2 ^ 31"
    and "\<forall>w. vm_type vm f w = FRAME" and "\<forall>w. vm_type vm c w = CONTROL"
    and "\<forall>w. fst (vm_control vm c w) = None"
  shows "\<exists>s :: ('h, 'w, handle_pc) node_sys. node_reach vm s \<and> arrived s = [f, c] \<and>
    taken s = [f, c] \<and> tsq_q (in_queue (nd s)) = [] \<and> tsq_q (out_queue (nd s)) = [] \<and>
    cache s = [] \<and> delivered s = [] \<and> hpc s = HTop \<and> flows s = {#}"
proof -
  let ?s0 = "node_sys_init n HTop w0 :: ('h, 'w, handle_pc) node_sys"
  let ?handle = "[NHandle, NHandle, NHandle, NHandle, NHandle]"
  let ?post = "\<lambda>s :: ('h, 'w, handle_pc) node_sys. arrived s = [f, c] \<and> taken s = [f, c] \<and>
    tsq_q (in_queue (nd s)) = [] \<and> tsq_q (out_queue (nd s)) = [] \<and> cache s = [] \<and>
    delivered s = [] \<and> hpc s = HTop \<and> flows s = {#}"
  obtain w' where ctl: "vm_control vm c w0 = (None, w')"
    using assms(6) by (metis prod.collapse)
  have b: "\<not> size_t_of_int (frame_meta_handle_batch n) \<le> Suc 0"
    using assms(2,3) by simp
  have "\<exists>s. node_run vm (flow_in f @ flow_in c @ ?handle @ ?handle) ?s0 = Some s \<and> ?post s"
    using assms(1,4,5) b ctl
    by (simp add: fresh_node_def flow_in_def node_sys_init_def handle_run_def handle_meta_def
      WaitAndPop_def Push_def sem_wait_def sem_signal_def Let_def)
  moreover have "node_reach vm ?s0" using assms(1) by (rule node_reach.start)
  ultimately show ?thesis using node_run_reach by blast
qed

theorem null_control_loses_frames_witness:
  "\<exists>s :: (unit, unit, handle_pc) node_sys. node_reach deaf_vm s \<and> arrived s = [1, 100] \<and>
    taken s = [1, 100] \<and> cache s = [] \<and> delivered s = []"
  using null_control_loses_frames [of "(vp_node_ctor ''node'')\<lparr>frame_meta_handle_batch := 2\<rparr>"
      deaf_vm 1 100] fresh_vp_node_ctor [of "''node''", where 'a = unit]
  by (auto simp: deaf_vm_def demo_vm_def demo_type_def vp_node_methods_def fresh_node_def vp_node_ctor_def)

section \<open>Shutting down\<close>

text \<open>
  C7. \<open>deinitialized\<close> terminates under every schedule: once \<open>alive\<close> is cleared, the node's
  threads take at most \<open>steps_left s\<close> further steps however they and the upstream threads
  interleave, and as long as they have not all returned one of them can take a step, so that
  both joins return.
\<close>

theorem shutdown_terminates:
  assumes "node_reach vm s" and "\<not> alive (nd s)" and "schedule vm k s t"
  shows "k + steps_left t \<le> steps_left s \<and> (shut_down t \<or> (\<exists>u. node_thread vm t u)) \<and>
    (\<exists>k' u. schedule vm k' t u \<and> shut_down u)"
proof -
  have t: "node_reach vm t" "\<not> alive (nd t)" and b: "k + steps_left t \<le> steps_left s"
    using schedule_reach [OF assms(3,1)] schedule_bound [OF assms(3,2)] by simp_all
  from b shutdown_progress [OF t] schedule_to_end [OF t] show ?thesis by blast
qed

lemma dying_reach: "node_reach demo_vm dying_state \<and> \<not> alive (nd dying_state)"
proof -
  have "node_act demo_vm NControl demo_state = Some dying_state" "\<not> alive (nd dying_state)"
    by (simp_all add: dying_state_def deinitialized_def demo_run)
  then show ?thesis using demo_reach node_act_step node_reach.step by blast
qed

theorem shutdown_terminates_witness:
  "\<exists>k u. schedule demo_vm k dying_state u \<and> shut_down u"
  using shutdown_terminates [of demo_vm dying_state 0 dying_state] dying_reach schedule.none by blast

end
