(* ===== verification/Graph.thy ===== *)
theory Graph
  imports Node
begin

text \<open>
  The node graph: what \<open>attach_to\<close>, \<open>detach\<close>, \<open>detach_from\<close> and \<open>detach_recursively\<close> do
  to it. Each edge is recorded twice, in the publisher's subscribers and in the
  subscriber's \<open>pre_nodes\<close>; \<open>graph_ok\<close> says that the two agree with their multiplicities
  and that the edges respect the node types.
\<close>

section \<open>The invariant of the node graph\<close>

definition mirrored :: "'h network \<Rightarrow> bool" where
  "mirrored net \<longleftrightarrow>
     (\<forall>u v. count_list (subscribers (net u)) v = count_list (pre_nodes (net v)) u)"

definition typed_edges :: "'h network \<Rightarrow> bool" where
  "typed_edges net \<longleftrightarrow>
     (\<forall>v. (\<forall>u \<in> set (pre_nodes (net v)). node_type (net u) \<noteq> DES) \<and>
          (node_type (net v) = SRC \<longrightarrow> pre_nodes (net v) = []))"

definition graph_ok :: "'h network \<Rightarrow> bool" where
  "graph_ok net \<longleftrightarrow> mirrored net \<and> typed_edges net"

lemma mirrored_mem: "mirrored net \<Longrightarrow> v \<in> set (subscribers (net u)) \<longleftrightarrow> u \<in> set (pre_nodes (net v))"
  by (metis count_list_0_iff mirrored_def)

lemma graph_ok_mem: "graph_ok net \<Longrightarrow> v \<in> set (subscribers (net u)) \<longleftrightarrow> u \<in> set (pre_nodes (net v))"
  by (simp add: graph_ok_def mirrored_mem)

text \<open>The network with every edge into the nodes of \<open>S\<close> removed.\<close>

definition isolate :: "nat set \<Rightarrow> 'h network \<Rightarrow> 'h network" where
  "isolate S net = (\<lambda>w. (net w)\<lparr>subscribers := filter (\<lambda>v. v \<notin> S) (subscribers (net w)),
     pre_nodes := (if w \<in> S then [] else pre_nodes (net w))\<rparr>)"

lemma isolate_simps [node_simps, simp]:
  "subscribers (isolate S net w) = filter (\<lambda>v. v \<notin> S) (subscribers (net w))"
  "pre_nodes (isolate S net w) = (if w \<in> S then [] else pre_nodes (net w))"
  "node_type (isolate S net w) = node_type (net w)"
  "node_name (isolate S net w) = node_name (net w)"
  by (simp_all add: isolate_def)

lemma isolate_empty [simp]: "isolate {} net = net"
  by (simp add: isolate_def)

lemma isolate_isolate: "isolate S (isolate T net) = isolate (S \<union> T) net"
  by (auto simp: isolate_def conj_commute intro!: ext)

lemma graph_ok_isolate: "graph_ok net \<Longrightarrow> graph_ok (isolate S net)"
  by (auto simp: graph_ok_def mirrored_def typed_edges_def count_list_filter)

section \<open>Attaching\<close>

lemma attach_loop_None:
  assumes "\<forall>i \<in> set is. node_type (net i) \<noteq> DES"
  shows "\<exists>net'. attach_loop self is net = (None, net') \<and>
    (\<forall>w. node_type (net' w) = node_type (net w) \<and> node_name (net' w) = node_name (net w) \<and>
      subscribers (net' w) = subscribers (net w) @ replicate (count_list is w) self \<and>
      pre_nodes (net' w) = pre_nodes (net w) @ (if w = self then is else []))"
  using assms
proof (induction "is" arbitrary: net)
  case Nil
  then show ?case by simp
next
  case (Cons i "is")
  let ?net1 = "add_subscriber i self net"
  let ?net2 = "?net1(self := (?net1 self)\<lparr>pre_nodes := pre_nodes (?net1 self) @ [i]\<rparr>)"
  have "\<forall>j \<in> set is. node_type (?net2 j) \<noteq> DES"
    using Cons.prems by auto
  from Cons.IH [OF this] obtain net' where
    "attach_loop self is ?net2 = (None, net')" and
    "\<forall>w. node_type (net' w) = node_type (?net2 w) \<and> node_name (net' w) = node_name (?net2 w) \<and>
      subscribers (net' w) = subscribers (?net2 w) @ replicate (count_list is w) self \<and>
      pre_nodes (net' w) = pre_nodes (?net2 w) @ (if w = self then is else [])"
    by blast
  then show ?case
    using Cons.prems by (intro exI [of _ net']) (auto simp: Let_def)
qed

fun_cases attach_loop_ConsE: "attach_loop self (i # is) net = (None, net')"

lemma attach_loop_edges:
  "attach_loop self is net = (None, net') \<Longrightarrow> (\<forall>i \<in> set is. node_type (net i) \<noteq> DES)"
proof (induction "is" arbitrary: net)
  case (Cons i "is")
  from Cons.prems show ?case
    by (rule attach_loop_ConsE) (auto simp: Let_def split: if_splits dest!: Cons.IH [OF sym])
qed simp

lemma attach_to_result:
  assumes "attach_to self pre net = (None, net')"
  shows "node_type (net self) \<noteq> SRC" and "\<forall>i \<in> set pre. node_type (net i) \<noteq> DES"
    and "node_type (net' w) = node_type (net w)"
    and "subscribers (net' w) = subscribers (net w) @ replicate (count_list pre w) self"
    and "pre_nodes (net' w) = pre_nodes (net w) @ (if w = self then pre else [])"
proof -
  from assms have ns: "node_type (net self) \<noteq> SRC" and l: "attach_loop self pre net = (None, net')"
    by (auto simp: attach_to_def split: if_splits)
  show "node_type (net self) \<noteq> SRC" by (rule ns)
  show nd: "\<forall>i \<in> set pre. node_type (net i) \<noteq> DES" by (rule attach_loop_edges [OF l])
  from attach_loop_None [OF nd, of self] l
  show "node_type (net' w) = node_type (net w)"
    and "subscribers (net' w) = subscribers (net w) @ replicate (count_list pre w) self"
    and "pre_nodes (net' w) = pre_nodes (net w) @ (if w = self then pre else [])"
    by auto
qed

lemma count_list_replicate: "count_list (replicate n x) y = (if x = y then n else 0)"
  by (induction n) auto

lemma attach_to_graph_ok:
  assumes "graph_ok net" and "attach_to self pre net = (None, net')"
  shows "graph_ok net'"
proof -
  note r = attach_to_result [OF assms(2)]
  from assms(1) have "mirrored net'"
    by (auto simp: graph_ok_def mirrored_def r count_list_replicate)
  moreover from assms(1) r(1,2) have "typed_edges net'"
    by (auto simp: graph_ok_def typed_edges_def r(3-5))
  ultimately show ?thesis by (simp add: graph_ok_def)
qed

section \<open>Detaching\<close>

lemma detach_loop_None:
  assumes "\<forall>i \<in> set is. node_type (net i) \<noteq> DES"
  shows "detach_loop self is net = (None, \<lambda>w. if w \<in> set is
    then (net w)\<lparr>subscribers := removeAll self (subscribers (net w))\<rparr> else net w)"
  using assms
proof (induction "is" arbitrary: net)
  case Nil
  then show ?case by simp
next
  case (Cons i "is")
  let ?net1 = "remove_subscriber i self net"
  have "\<forall>j \<in> set is. node_type (?net1 j) \<noteq> DES" using Cons.prems by simp
  note Cons.IH [OF this]
  also have "(\<lambda>w. if w \<in> set is
      then (?net1 w)\<lparr>subscribers := removeAll self (subscribers (?net1 w))\<rparr> else ?net1 w) =
    (\<lambda>w. if w \<in> set (i # is)
      then (net w)\<lparr>subscribers := removeAll self (subscribers (net w))\<rparr> else net w)"
    by (rule ext) (simp add: remove_subscriber_def)
  finally show ?case using Cons.prems by simp
qed

lemma detach_eq:
  assumes "graph_ok net"
  shows "detach self net = (None, isolate {self} net)"
proof -
  have "\<forall>i \<in> set (pre_nodes (net self)). node_type (net i) \<noteq> DES"
    using assms by (simp add: graph_ok_def typed_edges_def)
  note loop = detach_loop_None [OF this, of self]
  have "removeAll self (subscribers (net w)) = subscribers (net w)"
    if "w \<notin> set (pre_nodes (net self))" for w
    using graph_ok_mem [OF assms, of self w] that by simp
  then show ?thesis
    by (auto simp: detach_def loop isolate_def intro!: ext vp_node.equality split: if_splits)
qed

lemma detach_from_loop_eq:
  "detach_from_loop self names kept is net =
    (kept @ filter (\<lambda>i. node_name (net i) \<notin> set names) is,
     \<lambda>w. if w \<in> set is \<and> node_name (net w) \<in> set names
       then (net w)\<lparr>subscribers := removeAll self (subscribers (net w))\<rparr> else net w)"
proof (induction "is" arbitrary: kept net)
  case Nil
  then show ?case by simp
next
  case (Cons i "is")
  show ?case
  proof (cases "node_name (net i) \<in> set names")
    case True
    then show ?thesis
      by (simp add: Cons.IH) (rule ext, simp add: remove_subscriber_def)
  next
    case False
    then show ?thesis by (simp add: Cons.IH) (rule ext, auto)
  qed
qed

lemma detach_from_simps:
  "subscribers (detach_from self names net w) =
     (if w \<in> set (pre_nodes (net self)) \<and> node_name (net w) \<in> set names
      then removeAll self (subscribers (net w)) else subscribers (net w))"
  "pre_nodes (detach_from self names net w) =
     (if w = self then filter (\<lambda>i. node_name (net i) \<notin> set names) (pre_nodes (net self))
      else pre_nodes (net w))"
  "node_type (detach_from self names net w) = node_type (net w)"
  "node_name (detach_from self names net w) = node_name (net w)"
  by (simp_all add: detach_from_def detach_from_loop_eq)

lemma detach_from_eq:
  assumes "graph_ok net"
  shows "detach_from self names net w = (net w)\<lparr>
    subscribers := (if node_name (net w) \<in> set names then removeAll self (subscribers (net w))
      else subscribers (net w)),
    pre_nodes := (if w = self then filter (\<lambda>i. node_name (net i) \<notin> set names) (pre_nodes (net self))
      else pre_nodes (net w))\<rparr>"
proof (cases "w \<in> set (pre_nodes (net self))")
  case True
  then show ?thesis by (auto simp: detach_from_def detach_from_loop_eq)
next
  case False
  then have "removeAll self (subscribers (net w)) = subscribers (net w)"
    using graph_ok_mem [OF assms, of self w] by simp
  with False show ?thesis by (auto simp: detach_from_def detach_from_loop_eq)
qed

lemma detach_from_graph_ok:
  assumes "graph_ok net"
  shows "graph_ok (detach_from self names net)"
proof -
  have "mirrored (detach_from self names net)"
    unfolding mirrored_def
  proof (intro allI)
    fix u v
    have "count_list (subscribers (net u)) v = count_list (pre_nodes (net v)) u"
      using assms by (simp add: graph_ok_def mirrored_def)
    then show "count_list (subscribers (detach_from self names net u)) v =
        count_list (pre_nodes (detach_from self names net v)) u"
      by (auto simp: detach_from_simps count_list_filter count_list_0_iff)
  qed
  moreover have "typed_edges (detach_from self names net)"
    using assms by (auto simp: graph_ok_def typed_edges_def detach_from_simps)
  ultimately show ?thesis by (simp add: graph_ok_def)
qed

section \<open>Detaching recursively\<close>

definition edges :: "'h network \<Rightarrow> (nat \<times> nat) set" where
  "edges net = {(a, b). b \<in> set (subscribers (net a))}"

definition edges_avoiding :: "(nat \<times> nat) set \<Rightarrow> nat set \<Rightarrow> (nat \<times> nat) set" where
  "edges_avoiding E S = {(a, b) \<in> E. b \<notin> S}"

definition reach_avoiding :: "(nat \<times> nat) set \<Rightarrow> nat set \<Rightarrow> nat \<Rightarrow> nat set" where
  "reach_avoiding E S m = (edges_avoiding E S)\<^sup>* `` {m}"

lemma edges_avoiding_mono: "S \<subseteq> T \<Longrightarrow> edges_avoiding E T \<subseteq> edges_avoiding E S"
  by (auto simp: edges_avoiding_def)

lemma reach_avoiding_refl [simp]: "m \<in> reach_avoiding E S m"
  by (simp add: reach_avoiding_def)

lemma reach_avoiding_succ:
  "x \<in> reach_avoiding E S m \<Longrightarrow> (x, y) \<in> E \<Longrightarrow> y \<in> S \<or> y \<in> reach_avoiding E S m"
  by (auto simp: reach_avoiding_def edges_avoiding_def intro: rtrancl_into_rtrancl)

lemma reach_avoiding_trans:
  assumes "S \<subseteq> T" and "c \<in> reach_avoiding E S m"
  shows "reach_avoiding E T c \<subseteq> reach_avoiding E S m"
proof -
  have "(edges_avoiding E T)\<^sup>* \<subseteq> (edges_avoiding E S)\<^sup>*"
    by (intro rtrancl_mono edges_avoiding_mono assms(1))
  with assms(2) show ?thesis
    by (auto simp: reach_avoiding_def intro: rtrancl_trans)
qed

text \<open>The set of nodes the recursion has detached, as it goes through the next nodes.\<close>

fun explore :: "(nat \<times> nat) set \<Rightarrow> nat set \<Rightarrow> nat list \<Rightarrow> nat set" where
  "explore E T [] = T"
| "explore E T (c # cs) = explore E (T \<union> reach_avoiding E T c) cs"

lemma explore_upper:
  "S \<subseteq> T \<Longrightarrow> T \<subseteq> S \<union> reach_avoiding E S m \<Longrightarrow> set cs \<subseteq> reach_avoiding E S m \<Longrightarrow>
    explore E T cs \<subseteq> S \<union> reach_avoiding E S m"
proof (induction cs arbitrary: T)
  case Nil
  then show ?case by simp
next
  case (Cons c cs)
  then have "reach_avoiding E T c \<subseteq> reach_avoiding E S m"
    by (intro reach_avoiding_trans) auto
  with Cons.prems have "T \<union> reach_avoiding E T c \<subseteq> S \<union> reach_avoiding E S m" by blast
  moreover have "S \<subseteq> T \<union> reach_avoiding E T c" and "set cs \<subseteq> reach_avoiding E S m"
    using Cons.prems by auto
  ultimately show ?case by (simp add: Cons.IH)
qed

lemma explore_lower: "T \<union> set cs \<subseteq> explore E T cs"
proof (induction cs arbitrary: T)
  case Nil
  then show ?case by simp
next
  case (Cons c cs)
  then show ?case
    using reach_avoiding_refl [of c E T] by fastforce
qed

lemma explore_closed:
  "\<forall>x \<in> T. x \<in> A \<or> E `` {x} \<subseteq> T \<Longrightarrow> \<forall>x \<in> explore E T cs. x \<in> A \<or> E `` {x} \<subseteq> explore E T cs"
proof (induction cs arbitrary: T)
  case Nil
  then show ?case by simp
next
  case (Cons c cs)
  let ?T = "T \<union> reach_avoiding E T c"
  have "\<forall>x \<in> ?T. x \<in> A \<or> E `` {x} \<subseteq> ?T"
    using Cons.prems reach_avoiding_succ [of _ E T c] by blast
  from Cons.IH [OF this] show ?case by simp
qed

lemma explore_children:
  assumes "set cs = E `` {m} - insert m S"
  shows "explore E (insert m S) cs = S \<union> reach_avoiding E S m"
proof
  have "set cs \<subseteq> reach_avoiding E S m"
    using assms reach_avoiding_succ [of m E S m] by auto
  then show "explore E (insert m S) cs \<subseteq> S \<union> reach_avoiding E S m"
    by (intro explore_upper) auto
next
  let ?F = "explore E (insert m S) cs"
  have low: "insert m S \<union> set cs \<subseteq> ?F" by (rule explore_lower)
  then have m: "E `` {m} \<subseteq> ?F" using assms by blast
  have closed: "\<forall>x \<in> ?F. x \<in> insert m S \<or> E `` {x} \<subseteq> ?F"
    by (rule explore_closed) blast
  have "x \<in> ?F \<and> (x = m \<or> x \<notin> S)" if "(m, x) \<in> (edges_avoiding E S)\<^sup>*" for x
    using that
  proof (induction rule: rtrancl_induct)
    case base
    show ?case using low by simp
  next
    case (step y z)
    then have "E `` {y} \<subseteq> ?F" using closed m by (cases "y = m") auto
    with step(2) show ?case by (auto simp: edges_avoiding_def)
  qed
  with low show "S \<union> reach_avoiding E S m \<subseteq> ?F"
    by (auto simp: reach_avoiding_def)
qed

text \<open>
  The recursion depth is bounded by the number of edges: each call sees at least one edge
  less than its caller, the edge from the caller to it, whether its own \<open>detach\<close> removed it
  or an earlier call did.
\<close>

lemma edges_avoiding_isolate:
  "subscribers (isolate S net a) = filter (\<lambda>v. v \<notin> S) (subscribers (net a))"
  by simp

lemma detach_each_explore:
  assumes rec: "\<And>c T. card (edges_avoiding (edges net) (insert c T)) < k \<Longrightarrow>
      detach_recursively k c (isolate T net) =
        Some (None, isolate (T \<union> reach_avoiding (edges net) T c) net)"
    and fin: "finite (edges net)" and k: "card (edges_avoiding (edges net) U) \<le> k"
  shows "U \<subseteq> T \<Longrightarrow> \<forall>c \<in> set cs. (m, c) \<in> edges_avoiding (edges net) U \<Longrightarrow>
    detach_each k cs (isolate T net) = Some (None, isolate (explore (edges net) T cs) net)"
proof (induction cs arbitrary: T)
  case Nil
  then show ?case by simp
next
  case (Cons c cs)
  let ?E = "edges net"
  have fU: "finite (edges_avoiding ?E U)"
    using fin by (rule finite_subset [rotated]) (auto simp: edges_avoiding_def)
  have "edges_avoiding ?E (insert c T) \<subset> edges_avoiding ?E U"
    using Cons.prems unfolding edges_avoiding_def by fastforce
  from psubset_card_mono [OF fU this] k
  have "card (edges_avoiding ?E (insert c T)) < k" by linarith
  from rec [OF this]
  have c: "detach_recursively k c (isolate T net) =
      Some (None, isolate (T \<union> reach_avoiding ?E T c) net)" .
  have "detach_each k cs (isolate (T \<union> reach_avoiding ?E T c) net) =
      Some (None, isolate (explore ?E (T \<union> reach_avoiding ?E T c) cs) net)"
    using Cons.prems by (intro Cons.IH) auto
  with c show ?case by simp
qed

lemma detach_recursively_isolate:
  assumes ok: "graph_ok net" and fin: "finite (edges net)"
  shows "card (edges_avoiding (edges net) (insert m S)) < k \<Longrightarrow>
    detach_recursively k m (isolate S net) =
      Some (None, isolate (S \<union> reach_avoiding (edges net) S m) net)"
proof (induction k arbitrary: m S)
  case 0
  then show ?case by simp
next
  case (Suc k)
  let ?E = "edges net" and ?net1 = "isolate (insert m S) net"
  let ?cs = "next_nodes m ?net1"
  have d: "detach m (isolate S net) = (None, ?net1)"
    by (simp add: detach_eq graph_ok_isolate ok isolate_isolate)
  have cs: "set ?cs = ?E `` {m} - insert m S"
    by (auto simp: next_nodes_def edges_def)
  have "detach_each k ?cs ?net1 = Some (None, isolate (explore ?E (insert m S) ?cs) net)"
  proof (rule detach_each_explore [where U = "insert m S" and m = m])
    show "card (edges_avoiding ?E (insert m S)) \<le> k" using Suc.prems by simp
    show "\<forall>c \<in> set ?cs. (m, c) \<in> edges_avoiding ?E (insert m S)"
      using cs by (auto simp: edges_avoiding_def)
  qed (auto simp: fin Suc.IH)
  also have "explore ?E (insert m S) ?cs = S \<union> reach_avoiding ?E S m"
    by (rule explore_children) (rule cs)
  finally show ?case by (simp add: d)
qed

section \<open>Publishing\<close>

lemma push_to_Cons:
  "snd (push_to (v # vs) meta net) = snd (push_to vs meta (net(v := snd (meta_flow meta (net v)))))"
  by (simp split: prod.split)

text \<open>
  What a subscriber is after \<open>k\<close> of the subscriptions served were its own: only its
  in-queue and the semaphore of it have changed.
\<close>

definition after_pushes :: "nat \<Rightarrow> nat \<Rightarrow> 'h vp_node \<Rightarrow> 'h vp_node" where
  "after_pushes k m n = n\<lparr>
     in_queue := (in_queue n)\<lparr>tsq_q := tsq_q (in_queue n) @ replicate k (Some m)\<rparr>,
     in_queue_semaphore := (in_queue_semaphore n)\<lparr>sem_count :=
       sem_count (in_queue_semaphore n) + int k\<rparr>\<rparr>"

lemma after_pushes_0 [simp]: "after_pushes 0 m n = n"
  by (simp add: after_pushes_def)

lemma after_pushes_one: "snd (meta_flow (Some m) n) = after_pushes 1 m n"
  by (simp add: meta_flow_Some after_pushes_def Push_def sem_signal_def)

lemma after_pushes_add: "after_pushes k m (after_pushes j m n) = after_pushes (k + j) m n"
proof -
  have "replicate j (Some m) @ replicate k (Some m) = replicate (k + j) (Some m)"
    by (metis add.commute replicate_add)
  then show ?thesis by (simp add: after_pushes_def)
qed

lemma push_to_Some: "snd (push_to vs (Some m) net) w = after_pushes (count_list vs w) m (net w)"
proof (induction vs arbitrary: net)
  case (Cons v vs)
  show ?case
    unfolding push_to_Cons Cons.IH
    by (simp add: after_pushes_one after_pushes_add)
qed simp

text \<open>
  The hooker calls of \<open>push_meta\<close>: one per subscription whose node has an arriving hooker, in
  order, each with the length its node's in-queue has at that moment.
\<close>

lemma push_to_calls:
  "fst (push_to vs (Some m) net) = concat (map (\<lambda>i. invoke_meta_arriving_hooker
     (hookers (net (vs ! i))) (node_name (net (vs ! i)))
     (uint32_of_size (length (tsq_q (in_queue (net (vs ! i)))) + count_list (take (Suc i) vs) (vs ! i))) m)
     [0..<length vs])"
proof (induction vs arbitrary: net)
  case (Cons v vs)
  let ?net1 = "net(v := after_pushes 1 m (net v))"
  let ?call = "\<lambda>net vs i. invoke_meta_arriving_hooker (hookers (net (vs ! i))) (node_name (net (vs ! i)))
     (uint32_of_size (length (tsq_q (in_queue (net (vs ! i)))) + count_list (take (Suc i) vs) (vs ! i))) m"
  have head: "fst (meta_flow (Some m) (net v)) = ?call net (v # vs) 0"
    by (simp add: meta_flow_def Let_def Push_def Size_def)
  have later: "?call ?net1 vs i = ?call net (v # vs) (Suc i)" for i
    by (simp add: after_pushes_def)
  have "fst (push_to (v # vs) (Some m) net) =
      fst (meta_flow (Some m) (net v)) @ fst (push_to vs (Some m) ?net1)"
    using after_pushes_one [of m "net v"]
    by (cases "meta_flow (Some m) (net v)") (simp split: prod.split)
  also have "fst (push_to vs (Some m) ?net1) =
      concat (map (\<lambda>i. ?call net (v # vs) (Suc i)) [0..<length vs])"
    unfolding Cons.IH later ..
  finally show ?case
    by (simp only: head map_upt_Suc length_Cons list.map concat.simps append_Nil2
      upt_conv_Cons [OF zero_less_Suc] map_Suc_upt [symmetric] map_map o_def)
qed simp

lemma push_to_None: "push_to vs None net = ([], net)"
  by (induction vs) simp_all

end
