(* ===== verification/GraphProperties.thy ===== *)
theory GraphProperties
  imports Graph
begin

text \<open>
  Building and taking apart the node graph: the properties C8 to C13 of the development. A
  graph is sound when the subscriptions mirror the \<open>pre_nodes\<close> lists, with multiplicities, no
  sink node has a successor and no source node a predecessor (\<open>graph_ok\<close>).
\<close>

section \<open>A concrete network\<close>

text \<open>A source, an inner node and a sink, at first not connected.\<close>

definition demo_net :: "unit network" where
  "demo_net i = (vp_node_ctor ''node'')\<lparr>node_type := (if i = 0 then SRC else if i = 2 then DES else MID)\<rparr>"

definition demo_line :: "unit network" where
  "demo_line = snd (attach_to 2 [1] (snd (attach_to 1 [0] demo_net)))"

lemma demo_net_simps [simp]:
  "subscribers (demo_net i) = []" "pre_nodes (demo_net i) = []"
  "node_type (demo_net i) = (if i = 0 then SRC else if i = 2 then DES else MID)"
  by (simp_all add: demo_net_def vp_node_ctor_def)

lemma demo_net_ok: "graph_ok demo_net"
  by (simp add: graph_ok_def mirrored_def typed_edges_def)

lemma demo_attach: "\<exists>net. attach_to 1 [0] demo_net = (None, net)"
  by (simp add: attach_to_def Let_def)

lemma demo_line_ok: "graph_ok demo_line"
proof -
  have 1: "attach_to 1 [0] demo_net = (None, snd (attach_to 1 [0] demo_net))"
    by (simp add: attach_to_def Let_def)
  have 2: "attach_to 2 [1] (snd (attach_to 1 [0] demo_net)) = (None, demo_line)"
    by (simp add: demo_line_def attach_to_def Let_def)
  show ?thesis by (rule attach_to_graph_ok [OF attach_to_graph_ok [OF demo_net_ok 1] 2])
qed

lemma demo_line_simps [simp]:
  "subscribers (demo_line i) = (if i = 0 then [1] else if i = 1 then [2] else [])"
  "pre_nodes (demo_line i) = (if i = 1 then [0] else if i = 2 then [1] else [])"
  "node_type (demo_line i) = node_type (demo_net i)"
  by (simp_all add: demo_line_def attach_to_def Let_def)

section \<open>Attaching\<close>

text \<open>
  C8. A call of \<open>attach_to\<close> that does not throw keeps the graph sound: it adds one
  subscription per entry of the list, in order, and exactly those entries to \<open>pre_nodes\<close>, none
  of them is a sink node, and the node itself is not a source node.
\<close>

theorem attach_keeps_graph:
  assumes "graph_ok net" and "attach_to self pre net = (None, net')"
  shows "graph_ok net' \<and> node_type (net self) \<noteq> SRC \<and> (\<forall>w.
    subscribers (net' w) = subscribers (net w) @ replicate (count_list pre w) self \<and>
    pre_nodes (net' w) = pre_nodes (net w) @ (if w = self then pre else []))"
  using attach_to_graph_ok [OF assms] attach_to_result(1,4,5) [OF assms(2)] by simp

theorem attach_keeps_graph_witness:
  "\<exists>net. attach_to 1 [0] demo_net = (None, net) \<and> graph_ok net \<and> subscribers (net 0) = [1]"
proof -
  obtain net where "attach_to 1 [0] demo_net = (None, net)" using demo_attach by blast
  with attach_keeps_graph [OF demo_net_ok this] show ?thesis by (intro exI [of _ net]) simp
qed

text \<open>
  C9. \<open>attach_to\<close> a sink node throws, but leaves the subscription behind: the sink node will
  push its metas to the node, which does not have it in \<open>pre_nodes\<close>, so that no later
  \<open>detach\<close> removes the subscription. The graph is no longer sound.
\<close>

theorem attach_to_sink_dangles:
  assumes "graph_ok net" and "node_type (net self) \<noteq> SRC" and "node_type (net d) = DES"
  shows "\<exists>net'. attach_to self (d # rest) net = (Some des_has_no_next, net') \<and>
    subscribers (net' d) = subscribers (net d) @ [self] \<and> d \<notin> set (pre_nodes (net' self)) \<and>
    \<not> graph_ok net' \<and> self \<in> set (subscribers (snd (detach self net') d))"
proof -
  let ?net' = "add_subscriber d self net"
  have eq: "attach_to self (d # rest) net = (Some des_has_no_next, ?net')"
    using assms(2,3) by (simp add: attach_to_def)
  have pre: "d \<notin> set (pre_nodes (?net' self))"
    using assms(1,3) by (auto simp: graph_ok_def typed_edges_def)
  have nodes: "\<forall>i \<in> set (pre_nodes (net self)). node_type (?net' i) \<noteq> DES"
    using assms(1) by (simp add: graph_ok_def typed_edges_def)
  have "\<not> graph_ok ?net'" using graph_ok_mem [of ?net' self d] pre by auto
  moreover have "self \<in> set (subscribers (snd (detach self ?net') d))"
    using pre detach_loop_None [OF nodes, of self] by (auto simp: detach_def)
  ultimately show ?thesis using eq pre by auto
qed

theorem attach_to_sink_dangles_witness:
  "\<exists>net'. attach_to 1 [2] demo_net = (Some des_has_no_next, net') \<and> \<not> graph_ok net'"
  using attach_to_sink_dangles [OF demo_net_ok, of 1 2 "[]"] by auto

section \<open>Detaching\<close>

text \<open>
  C10. In a sound graph \<open>detach\<close> never throws; it removes exactly the edges into the node, all
  of them, and keeps the graph sound.
\<close>

theorem detach_removes_all:
  assumes "graph_ok net"
  shows "\<exists>net'. detach self net = (None, net') \<and> graph_ok net' \<and> pre_nodes (net' self) = [] \<and>
    (\<forall>w. subscribers (net' w) = removeAll self (subscribers (net w))) \<and>
    (\<forall>w. w \<noteq> self \<longrightarrow> pre_nodes (net' w) = pre_nodes (net w))"
  using detach_eq [OF assms] graph_ok_isolate [OF assms, of "{self}"] by simp

theorem detach_removes_all_witness:
  "\<exists>net'. detach 1 demo_line = (None, net') \<and> graph_ok net' \<and> subscribers (net' 0) = [] \<and>
    pre_nodes (net' 2) = [1]"
proof -
  obtain net' where "detach 1 demo_line = (None, net')" "graph_ok net'"
    "\<forall>w. subscribers (net' w) = removeAll 1 (subscribers (demo_line w))"
    "\<forall>w. w \<noteq> 1 \<longrightarrow> pre_nodes (net' w) = pre_nodes (demo_line w)"
    using detach_removes_all [OF demo_line_ok, of 1] by blast
  then show ?thesis by (intro exI [of _ net']) simp
qed

text \<open>
  C11. In a sound graph \<open>detach_from\<close> removes the edges into the node from the nodes with the given
  names, all of them and no other: those nodes lose the node from their subscribers, the node keeps
  the other entries of \<open>pre_nodes\<close> in their order, nothing else of any node changes, and the graph
  stays sound.
\<close>

theorem detach_from_removes_named:
  assumes "graph_ok net"
  shows "graph_ok (detach_from self names net) \<and> (\<forall>w. detach_from self names net w = (net w)\<lparr>
    subscribers := (if node_name (net w) \<in> set names then removeAll self (subscribers (net w))
      else subscribers (net w)),
    pre_nodes := (if w = self then filter (\<lambda>i. node_name (net i) \<notin> set names) (pre_nodes (net self))
      else pre_nodes (net w))\<rparr>)"
  using detach_from_graph_ok [OF assms] detach_from_eq [OF assms] by blast

theorem detach_from_removes_named_witness:
  "pre_nodes (detach_from 2 [''node''] demo_line 2) = [] \<and>
    subscribers (detach_from 2 [''node''] demo_line 1) = []"
proof -
  have "node_name (demo_line i) = ''node''" for i
    by (simp add: demo_line_def demo_net_def vp_node_ctor_def attach_to_def Let_def)
  then show ?thesis
    using detach_from_removes_named [OF demo_line_ok, of 2 "[''node'']"] by simp
qed

text \<open>
  C12. \<open>detach_recursively\<close> terminates on every sound finite graph, cycles included: its
  recursion is never deeper than the number of edges plus one, it never throws, and afterwards
  exactly the edges into the nodes reachable from the node are gone.
\<close>

theorem detach_recursively_terminates:
  assumes "graph_ok net" and "finite (edges net)" and "card (edges net) < fuel"
  shows "detach_recursively fuel m net = Some (None, isolate ((edges net)\<^sup>* `` {m}) net)"
proof -
  have "card (edges_avoiding (edges net) {m}) \<le> card (edges net)"
    by (rule card_mono [OF assms(2)]) (auto simp: edges_avoiding_def)
  then have "card (edges_avoiding (edges net) (insert m {})) < fuel" using assms(3) by simp
  from detach_recursively_isolate [OF assms(1,2) this]
  show ?thesis by (simp add: reach_avoiding_def edges_avoiding_def)
qed

lemma demo_line_edges: "edges demo_line = {(0, 1), (1, 2)}"
  by (auto simp: edges_def split: if_splits)

theorem detach_recursively_terminates_witness:
  "\<exists>net. detach_recursively 3 1 demo_line = Some (None, net) \<and> subscribers (net 0) = [] \<and>
    subscribers (net 1) = []"
  using detach_recursively_terminates [OF demo_line_ok, of 3 1]
  by (auto simp: demo_line_edges)

section \<open>Publishing\<close>

text \<open>
  C13. \<open>push_meta\<close> puts a meta into the in-queue of every subscriber, once per subscription,
  behind what is there, and signals as often; it changes nothing else of any node. Its hooker
  calls are those of the subscribers' arriving hookers, in the order of the subscriptions, each
  with the length of the in-queue at that moment, as an unsigned int. \<open>nullptr\<close> is dropped without a call.
\<close>

theorem push_meta_delivers:
  "snd (push_meta u (Some m) net) w = (net w)\<lparr>
     in_queue := (in_queue (net w))\<lparr>tsq_q := tsq_q (in_queue (net w)) @
       replicate (count_list (subscribers (net u)) w) (Some m)\<rparr>,
     in_queue_semaphore := (in_queue_semaphore (net w))\<lparr>sem_count :=
       sem_count (in_queue_semaphore (net w)) + int (count_list (subscribers (net u)) w)\<rparr>\<rparr> \<and>
   fst (push_meta u (Some m) net) = (let vs = subscribers (net u) in
     concat (map (\<lambda>i. invoke_meta_arriving_hooker (hookers (net (vs ! i))) (node_name (net (vs ! i)))
       (uint32_of_size (length (tsq_q (in_queue (net (vs ! i)))) + count_list (take (Suc i) vs) (vs ! i))) m)
       [0..<length vs])) \<and>
   push_meta u None net = ([], net)"
  unfolding push_meta_def push_to_Some push_to_calls push_to_None
  by (simp add: after_pushes_def Let_def)

end
