(* ===== verification/DataSource.thy ===== *)
theory DataSource
  imports Meta Complex_Main
begin

text \<open>
  Frame sources (\<open>nodes/source/\<close>): the abstract class \<open>vp_data_source\<close> with
  \<open>get_frame_meta\<close>, and the image source that reads one file over and over. OpenCV and the
  file system are parameters: \<open>opencv\<close> bundles \<open>imread\<close>, \<open>resize\<close> and \<open>Mat::clone\<close>, each
  of which may allocate pixel buffers, and \<open>exists\<close> says whether a path exists. The resize
  ratio, a \<open>float\<close> that is only compared and handed on, is a rational number. Objects live
  in a heap of metas.
\<close>

record opencv =
  cv_imread :: "string \<Rightarrow> memory \<Rightarrow> cv_mat \<times> memory"
  cv_resize :: "rat \<Rightarrow> cv_mat \<Rightarrow> memory \<Rightarrow> cv_mat \<times> memory"
  cv_clone :: "cv_mat \<Rightarrow> memory \<Rightarrow> cv_mat \<times> memory"

section \<open>State\<close>

record vp_data_source =
  ds_channel_index :: int
  ds_is_opened :: bool
  ds_frame_index :: int
  ds_video_width :: int
  ds_video_height :: int
  ds_fps :: int
  ds_resize_ratio :: rat
  ds_cache_frame :: "cv_mat option"

record vp_image_data_source = vp_data_source +
  file_path :: string
  interval :: int
  cycle :: bool
  from_file :: bool

definition vp_data_source_ctor :: "int \<Rightarrow> rat \<Rightarrow> vp_data_source result" where
  "vp_data_source_ctor channel ratio =
     (if 0 < ratio \<and> ratio \<le> 1
      then Inr \<lparr>ds_channel_index = channel, ds_is_opened = False, ds_frame_index = -1,
        ds_video_width = -1, ds_video_height = -1, ds_fps = -1, ds_resize_ratio = ratio,
        ds_cache_frame = None\<rparr>
      else Inl (assertion_failed ''resize_ratio > 0 && resize_ratio <= 1.0f''))"

definition vp_image_data_source_ctor ::
    "int \<Rightarrow> string \<Rightarrow> int \<Rightarrow> rat \<Rightarrow> bool \<Rightarrow> vp_image_data_source result" where
  "vp_image_data_source_ctor channel path every ratio cyc =
     bind_result (vp_data_source_ctor channel ratio) (\<lambda>base.
       if 1 \<le> every \<and> every \<le> 60
       then Inr (vp_data_source.extend (base\<lparr>ds_is_opened := False\<rparr>)
              (vp_image_data_source.fields path every cyc True))
       else Inl (assertion_failed ''interval >= 1 && interval <= 60''))"

definition is_open :: "'a vp_data_source_scheme \<Rightarrow> bool" where
  "is_open s = ds_is_opened s"

definition get_channel_index :: "'a vp_data_source_scheme \<Rightarrow> int" where
  "get_channel_index s = ds_channel_index s"

definition get_frame_index :: "'a vp_data_source_scheme \<Rightarrow> int" where
  "get_frame_index s = ds_frame_index s"

definition get_video_width :: "'a vp_data_source_scheme \<Rightarrow> int" where
  "get_video_width s = ds_video_width s"

definition get_video_height :: "'a vp_data_source_scheme \<Rightarrow> int" where
  "get_video_height s = ds_video_height s"

definition get_fps :: "'a vp_data_source_scheme \<Rightarrow> int" where
  "get_fps s = ds_fps s"

section \<open>The image source\<close>

definition image_open ::
    "(string \<Rightarrow> bool) \<Rightarrow> vp_image_data_source \<Rightarrow> bool \<times> vp_image_data_source" where
  "image_open exists s =
     (if ds_is_opened s then (True, s)
      else if \<not> exists (file_path s) then (False, s)
      else (True, s\<lparr>ds_is_opened := True\<rparr>))"

definition image_close :: "vp_image_data_source \<Rightarrow> vp_image_data_source" where
  "image_close s = s\<lparr>ds_is_opened := False\<rparr>"

text \<open>\<open>read(frame)\<close>: \<open>None\<close> is the result \<open>false\<close>, which leaves the argument alone.\<close>

definition image_read ::
    "opencv \<Rightarrow> vp_image_data_source \<Rightarrow> memory \<Rightarrow> cv_mat option \<times> vp_image_data_source \<times> memory" where
  "image_read cv s mem =
     (if \<not> ds_is_opened s then (None, s, mem)
      else case cv_imread cv (file_path s) mem of (img, mem1) \<Rightarrow>
        (let s1 = s\<lparr>ds_cache_frame := Some img\<rparr> in
         if mat_empty img then (None, s1, mem1)
         else case cv_clone cv img mem1 of (copy, mem2) \<Rightarrow> (Some copy, s1, mem2)))"

definition get_info :: "vp_image_data_source \<Rightarrow> string" where
  "get_info s = file_path s"

section \<open>Getting a frame\<close>

text \<open>
  \<open>get_frame_meta\<close> calls the virtual \<open>read\<close>, resizes or copies the frame, counts it and wraps
  it in a new frame meta. \<open>None\<close> is the \<open>nullptr\<close> of a failed read.
\<close>

definition get_frame_meta ::
    "('a vp_data_source_scheme \<Rightarrow> memory \<Rightarrow> cv_mat option \<times> 'a vp_data_source_scheme \<times> memory)
      \<Rightarrow> opencv \<Rightarrow> int \<Rightarrow> 'a vp_data_source_scheme \<Rightarrow> memory
      \<Rightarrow> (vp_frame_meta option \<times> 'a vp_data_source_scheme \<times> memory) result" where
  "get_frame_meta read cv now s mem = (case read s mem of
      (None, s1, mem1) \<Rightarrow> Inr (None, s1, mem1)
    | (Some img, s1, mem1) \<Rightarrow>
        (case (if ds_resize_ratio s1 \<noteq> 1 then cv_resize cv (ds_resize_ratio s1) img mem1
               else cv_clone cv img mem1) of
          (img2, mem2) \<Rightarrow>
            (let s2 = s1\<lparr>ds_frame_index := ds_frame_index s1 + 1,
                         ds_video_width := mat_cols img2, ds_video_height := mat_rows img2\<rparr> in
             bind_result
               (vp_frame_meta_ctor now img2 (ds_frame_index s2) (ds_channel_index s2)
                  (ds_video_width s2) (ds_video_height s2) (ds_fps s2))
               (\<lambda>m. Inr (Some m, s2, mem2)))))"

abbreviation image_get_frame_meta where
  "image_get_frame_meta cv \<equiv> get_frame_meta (image_read cv) cv"

text \<open>A run of \<open>n\<close> reads: the metas in order, up to the first failure.\<close>

fun image_frames ::
    "opencv \<Rightarrow> int \<Rightarrow> nat \<Rightarrow> vp_image_data_source \<Rightarrow> memory
      \<Rightarrow> (vp_frame_meta list \<times> vp_image_data_source \<times> memory) result" where
  "image_frames cv now 0 s mem = Inr ([], s, mem)"
| "image_frames cv now (Suc n) s mem =
     bind_result (image_get_frame_meta cv now s mem) (\<lambda>(r, s1, mem1). case r of
        None \<Rightarrow> Inr ([], s1, mem1)
      | Some m \<Rightarrow> bind_result (image_frames cv now n s1 mem1) (\<lambda>(ms, s2, mem2).
          Inr (m # ms, s2, mem2)))"

lemma get_frame_meta_Some:
  assumes "get_frame_meta read cv now s mem = Inr (Some m, s', mem')"
  obtains img s1 mem1 where "read s mem = (Some img, s1, mem1)"
    and "frame_index m = ds_frame_index s1 + 1" and "ds_frame_index s' = ds_frame_index s1 + 1"
    and "channel_index m = ds_channel_index s1" and "meta_type m = FRAME"
    and "original_width m = mat_cols (frame m)" and "original_height m = mat_rows (frame m)"
    and "\<not> mat_empty (frame m)" and "ds_channel_index s' = ds_channel_index s1"
    and "fps m = ds_fps s1"
  using assms
  by (fastforce simp: get_frame_meta_def vp_frame_meta_ctor_def vp_meta_ctor_def Let_def
      vp_meta.defs vp_frame_meta.defs bind_result_Inr_iff
    split: prod.splits option.splits if_splits)

lemma image_read_source:
  "image_read cv s mem = (r, s1, mem1) \<Longrightarrow>
    ds_frame_index s1 = ds_frame_index s \<and> ds_channel_index s1 = ds_channel_index s"
  by (auto simp: image_read_def Let_def split: if_splits prod.splits)

lemma image_get_frame_meta_Some:
  assumes "image_get_frame_meta cv now s mem = Inr (Some m, s', mem')"
  shows "frame_index m = ds_frame_index s + 1" and "ds_frame_index s' = ds_frame_index s + 1"
    and "channel_index m = ds_channel_index s" and "ds_channel_index s' = ds_channel_index s"
  using get_frame_meta_Some [OF assms] image_read_source by metis+

lemma image_frames_indices:
  "image_frames cv now n s mem = Inr (ms, s', mem') \<Longrightarrow>
    length ms \<le> n \<and> (\<forall>i < length ms. frame_index (ms ! i) = ds_frame_index s + 1 + int i \<and>
      channel_index (ms ! i) = ds_channel_index s)"
proof (induction n arbitrary: s mem ms)
  case 0
  then show ?case by simp
next
  case (Suc n)
  then obtain r s1 mem1 where r: "image_get_frame_meta cv now s mem = Inr (r, s1, mem1)"
    by (auto simp: bind_result_Inr_iff)
  show ?case
  proof (cases r)
    case None
    with r Suc.prems show ?thesis by simp
  next
    case (Some m)
    with r Suc.prems obtain ms2 where
      ms2: "image_frames cv now n s1 mem1 = Inr (ms2, s', mem')" and ms: "ms = m # ms2"
      by (auto simp: bind_result_Inr_iff)
    note h = image_get_frame_meta_Some [OF r [unfolded Some]]
    from Suc.IH [OF ms2] h ms show ?thesis
      by (auto simp: nth_Cons split: nat.split)
  qed
qed

lemma closed_source_reads_nothing:
  "\<not> ds_is_opened s \<Longrightarrow> image_get_frame_meta cv now s mem = Inr (None, s, mem)"
  by (simp add: get_frame_meta_def image_read_def)

end
