(* ===== verification/PyCaller.thy ===== *)
theory PyCaller
  imports Excepts
begin

text \<open>
  \<open>PythonMethod::process\<close> (\<open>utils/pybind_py_caller.h\<close>): calling the user's script on a
  frame. Importing the module, looking the function up and running it is Python's; the
  parameter \<open>call\<close> gives its outcome and its effect on the world, where the frame it was
  handed may have been changed in place. \<open>py_raises\<close> is a Python exception at any of these
  points (\<open>error_already_set\<close>), \<open>py_other\<close> a result that is no frame meta.
\<close>

datatype py_outcome =
    py_raises string
  | py_none
  | py_frame nat
  | py_other

definition process ::
    "(nat \<Rightarrow> 'w \<Rightarrow> py_outcome \<times> 'w) \<Rightarrow> nat \<Rightarrow> 'w \<Rightarrow> nat result \<times> 'w" where
  "process call meta w = (case call meta w of
      (py_raises e, w') \<Rightarrow> (Inr meta, w')
    | (py_none, w') \<Rightarrow> (Inr meta, w')
    | (py_frame r, w') \<Rightarrow> (Inr r, w')
    | (py_other, w') \<Rightarrow> (Inl (py_cast_error ''cast to vp_frame_meta''), w'))"

lemma process_world: "snd (process call m w) = snd (call m w)"
  by (auto simp: process_def split: prod.split py_outcome.split)

lemma process_fails_iff: "fst (process call m w) = Inl e \<longleftrightarrow>
    fst (call m w) = py_other \<and> e = py_cast_error ''cast to vp_frame_meta''"
  by (auto simp: process_def split: prod.split py_outcome.split)

end
