(* ===== verification/PyInterp.thy ===== *)
theory PyInterp
  imports PyCaller
begin

text \<open>
  The life of the Python interpreter (\<open>PythonMethod\<close> of \<open>utils/pybind_py_caller.h\<close>). Each source
  node owns a \<open>PythonMethod\<close>, whose member \<open>guard_\<close> is the interpreter of the whole process: its
  constructor starts the interpreter and gives the global lock back, its destructor takes the lock
  and ends the interpreter, after the node has joined its threads. In between the handle thread
  of the node calls the script under the lock.
\<close>

section \<open>What pybind11 provides\<close>

text \<open>
  The parameter: \<open>scoped_interpreter\<close> (\<open>emb_init\<close>, \<open>emb_final\<close>), \<open>gil_scoped_acquire\<close>
  (\<open>emb_acquire\<close> with what its destructor \<open>emb_drop\<close> has to restore), \<open>gil_scoped_release\<close>
  (\<open>emb_yield\<close>, \<open>emb_resume\<close>) and \<open>sys.path.append\<close>, on a state that tells whether an interpreter
  runs and which thread holds the lock. \<open>None\<close> blocks.
\<close>

datatype py_thread = Owner nat | Handler nat

record ('p, 'g) embedding =
  emb_running :: "'p \<Rightarrow> bool"
  emb_holder :: "'p \<Rightarrow> py_thread option"
  emb_init :: "py_thread \<Rightarrow> 'p \<Rightarrow> 'p result"
  emb_final :: "py_thread \<Rightarrow> 'p \<Rightarrow> 'p"
  emb_acquire :: "py_thread \<Rightarrow> 'p \<Rightarrow> ('g \<times> 'p) option"
  emb_drop :: "py_thread \<Rightarrow> 'g \<Rightarrow> 'p \<Rightarrow> 'p"
  emb_yield :: "py_thread \<Rightarrow> 'p \<Rightarrow> 'p"
  emb_resume :: "py_thread \<Rightarrow> 'p \<Rightarrow> 'p option"
  emb_append :: "string \<Rightarrow> 'p \<Rightarrow> 'p"

text \<open>
  Its documented behaviour. A second interpreter cannot be started, the lock belongs to the thread
  that started the interpreter, a thread may take it again while it holds it, and the end of a
  scope restores what was before.
\<close>

definition already_running :: vp_exception where
  "already_running = std_runtime_error ''The interpreter is already running''"

definition holds :: "('p, 'g) embedding \<Rightarrow> py_thread option \<Rightarrow> 'p \<Rightarrow> bool" where
  "holds emb h p \<longleftrightarrow> emb_running emb p \<and> emb_holder emb p = h"

definition restores :: "('p, 'g) embedding \<Rightarrow> py_thread \<Rightarrow> 'g \<Rightarrow> py_thread option \<Rightarrow> bool" where
  "restores emb t g h \<longleftrightarrow> (\<forall>p. holds emb (Some t) p \<longrightarrow> holds emb h (emb_drop emb t g p))"

definition embedding_ok :: "('p, 'g) embedding \<Rightarrow> bool" where
  "embedding_ok emb \<longleftrightarrow>
     (\<forall>t p. emb_running emb p \<longrightarrow> emb_init emb t p = Inl already_running) \<and>
     (\<forall>t p. \<not> emb_running emb p \<longrightarrow> (\<exists>q. emb_init emb t p = Inr q \<and> holds emb (Some t) q)) \<and>
     (\<forall>t p. \<not> emb_running emb (emb_final emb t p)) \<and>
     (\<forall>t p u. holds emb (Some u) p \<and> u \<noteq> t \<longrightarrow> emb_acquire emb t p = None \<and> emb_resume emb t p = None) \<and>
     (\<forall>t p h. holds emb h p \<and> (h = None \<or> h = Some t) \<longrightarrow>
       (\<exists>g q. emb_acquire emb t p = Some (g, q) \<and> holds emb (Some t) q \<and> restores emb t g h)) \<and>
     (\<forall>t p. holds emb (Some t) p \<longrightarrow> holds emb None (emb_yield emb t p)) \<and>
     (\<forall>t p. holds emb None p \<longrightarrow> (\<exists>q. emb_resume emb t p = Some q \<and> holds emb (Some t) q)) \<and>
     (\<forall>d p h. holds emb h p \<longrightarrow> holds emb h (emb_append emb d p))"

section \<open>The constructor, the destructor and the call\<close>

text \<open>
  \<open>PythonMethod::PythonMethod\<close> in thread \<open>t\<close>, without interleaving: \<open>guard_\<close>, the scope of
  \<open>ensure\<close> with the path, \<open>release_gil_\<close>.
\<close>

definition python_method_ctor ::
    "('p, 'g) embedding \<Rightarrow> string \<Rightarrow> py_thread \<Rightarrow> 'p \<Rightarrow> 'p result option" where
  "python_method_ctor emb project t p = (case emb_init emb t p of
      Inl e \<Rightarrow> Some (Inl e)
    | Inr p1 \<Rightarrow> (case emb_acquire emb t p1 of
        None \<Rightarrow> None
      | Some (g, p2) \<Rightarrow>
          Some (Inr (emb_yield emb t (emb_drop emb t g (emb_append emb project p2))))))"

text \<open>
  The same by statements, with the destructor: the program counter of an object, and that of the
  one thread that calls it, with the call and its outcome.
\<close>

datatype 'g method_pc =
    MNone | MGuard | MEnsure 'g | MPath 'g | MEnsured | MLive | MTaken | MGone | MThrown vp_exception

datatype 'g call_pc = CIdle | CLocked 'g nat | CCalled 'g "nat result"

record ('p, 'g, 'w) py_process =
  interp :: 'p
  objects :: "nat \<Rightarrow> 'g method_pc"
  calls_of :: "nat \<Rightarrow> 'g call_pc"
  results :: "(nat \<times> nat result) list"
  py_world :: 'w

definition method_run ::
    "('p, 'g) embedding \<Rightarrow> string \<Rightarrow> (nat \<Rightarrow> nat) \<Rightarrow> nat \<Rightarrow> ('p, 'g, 'w) py_process
      \<Rightarrow> ('p, 'g, 'w) py_process option" where
  "method_run emb project own i s = (let t = Owner (own i); p = interp s;
     goto = (\<lambda>x q. s\<lparr>interp := q, objects := (objects s)(i := x)\<rparr>)
   in case objects s i of
      MNone \<Rightarrow> Some (case emb_init emb t p of Inl e \<Rightarrow> goto (MThrown e) p | Inr q \<Rightarrow> goto MGuard q)
    | MGuard \<Rightarrow> map_option (\<lambda>(g, q). goto (MEnsure g) q) (emb_acquire emb t p)
    | MEnsure g \<Rightarrow> Some (goto (MPath g) (emb_append emb project p))
    | MPath g \<Rightarrow> Some (goto MEnsured (emb_drop emb t g p))
    | MEnsured \<Rightarrow> Some (goto MLive (emb_yield emb t p))
    | MLive \<Rightarrow> if calls_of s i = CIdle then map_option (goto MTaken) (emb_resume emb t p) else None
    | MTaken \<Rightarrow> Some (goto MGone (emb_final emb t p))
    | MGone \<Rightarrow> None
    | MThrown e \<Rightarrow> None)"

text \<open>
  \<open>process\<close> on the meta \<open>m\<close>, in the handle thread of the node; it is called while the object
  exists only. The lock is given back when the block is left, by an exception as well.
\<close>

definition call_run ::
    "('p, 'g) embedding \<Rightarrow> (nat \<Rightarrow> 'w \<Rightarrow> py_outcome \<times> 'w) \<Rightarrow> nat \<Rightarrow> nat \<Rightarrow> ('p, 'g, 'w) py_process
      \<Rightarrow> ('p, 'g, 'w) py_process option" where
  "call_run emb call i m s = (case calls_of s i of
      CIdle \<Rightarrow> if objects s i = MLive
        then map_option (\<lambda>(g, q). s\<lparr>interp := q, calls_of := (calls_of s)(i := CLocked g m)\<rparr>)
          (emb_acquire emb (Handler i) (interp s))
        else None
    | CLocked g meta \<Rightarrow> (case process call meta (py_world s) of
          (r, w) \<Rightarrow> Some (s\<lparr>py_world := w, calls_of := (calls_of s)(i := CCalled g r)\<rparr>))
    | CCalled g r \<Rightarrow> Some (s\<lparr>interp := emb_drop emb (Handler i) g (interp s),
          calls_of := (calls_of s)(i := CIdle), results := results s @ [(i, r)]\<rparr>))"

text \<open>The objects of a process, and the threads that call them, in any order.\<close>

definition py_start :: "'p \<Rightarrow> 'w \<Rightarrow> ('p, 'g, 'w) py_process" where
  "py_start p w = \<lparr>interp = p, objects = (\<lambda>i. MNone), calls_of = (\<lambda>i. CIdle), results = [],
     py_world = w\<rparr>"

inductive py_reach for emb project own call where
  start: "\<not> emb_running emb p \<Longrightarrow> py_reach emb project own call (py_start p w)"
| object: "py_reach emb project own call s \<Longrightarrow> method_run emb project own i s = Some t \<Longrightarrow>
    py_reach emb project own call t"
| call: "py_reach emb project own call s \<Longrightarrow> call_run emb call i m s = Some t \<Longrightarrow>
    py_reach emb project own call t"

section \<open>One interpreter, and a lock nobody waits for\<close>

definition active :: "'g method_pc \<Rightarrow> bool" where
  "active x \<longleftrightarrow> (case x of MNone \<Rightarrow> False | MGone \<Rightarrow> False | MThrown e \<Rightarrow> False | _ \<Rightarrow> True)"

lemma active_simps [simp]:
  "\<not> active MNone" "\<not> active MGone" "\<not> active (MThrown e)" "active MGuard" "active (MEnsure g)"
  "active (MPath g)" "active MEnsured" "active MLive" "active MTaken"
  by (simp_all add: active_def)

text \<open>Who holds the lock, by the places of the object and of its caller.\<close>

fun lock_inv :: "('p, 'g) embedding \<Rightarrow> py_thread \<Rightarrow> py_thread \<Rightarrow> 'p \<Rightarrow> 'g method_pc \<Rightarrow> 'g call_pc \<Rightarrow> bool" where
  "lock_inv emb t h p MGuard CIdle \<longleftrightarrow> holds emb (Some t) p"
| "lock_inv emb t h p (MEnsure g) CIdle \<longleftrightarrow> holds emb (Some t) p \<and> restores emb t g (Some t)"
| "lock_inv emb t h p (MPath g) CIdle \<longleftrightarrow> holds emb (Some t) p \<and> restores emb t g (Some t)"
| "lock_inv emb t h p MEnsured CIdle \<longleftrightarrow> holds emb (Some t) p"
| "lock_inv emb t h p MTaken CIdle \<longleftrightarrow> holds emb (Some t) p"
| "lock_inv emb t h p MLive CIdle \<longleftrightarrow> holds emb None p"
| "lock_inv emb t h p MLive (CLocked g m) \<longleftrightarrow> holds emb (Some h) p \<and> restores emb h g None"
| "lock_inv emb t h p MLive (CCalled g r) \<longleftrightarrow> holds emb (Some h) p \<and> restores emb h g None"
| "lock_inv emb t h p x y \<longleftrightarrow> \<not> active x \<and> y = CIdle"

definition py_inv :: "('p, 'g) embedding \<Rightarrow> (nat \<Rightarrow> nat) \<Rightarrow> ('p, 'g, 'w) py_process \<Rightarrow> bool" where
  "py_inv emb own s \<longleftrightarrow>
     (\<forall>i. lock_inv emb (Owner (own i)) (Handler i) (interp s) (objects s i) (calls_of s i)) \<and>
     (\<forall>i j. active (objects s i) \<and> active (objects s j) \<longrightarrow> i = j) \<and>
     (emb_running emb (interp s) \<longrightarrow> (\<exists>i. active (objects s i)))"

lemma lock_inv_inactive [simp]: "\<not> active x \<Longrightarrow> lock_inv emb t h p x y \<longleftrightarrow> y = CIdle"
  by (cases x; cases y) simp_all

lemma lock_inv_active: "lock_inv emb t h p x y \<Longrightarrow> active x \<Longrightarrow> emb_running emb p"
  by (cases x; cases y) (simp_all add: holds_def)

lemma embedding_simps:
  assumes "embedding_ok emb"
  shows "emb_running emb p \<Longrightarrow> emb_init emb t p = Inl already_running"
    "\<not> emb_running emb p \<Longrightarrow> \<exists>q. emb_init emb t p = Inr q \<and> holds emb (Some t) q"
    "\<not> emb_running emb (emb_final emb t p)"
    "holds emb (Some t) p \<Longrightarrow> \<exists>g q. emb_acquire emb t p = Some (g, q) \<and> holds emb (Some t) q \<and>
      restores emb t g (Some t)"
    "holds emb None p \<Longrightarrow> \<exists>g q. emb_acquire emb t p = Some (g, q) \<and> holds emb (Some t) q \<and>
      restores emb t g None"
    "holds emb (Some t) p \<Longrightarrow> holds emb None (emb_yield emb t p)"
    "holds emb None p \<Longrightarrow> \<exists>q. emb_resume emb t p = Some q \<and> holds emb (Some t) q"
    "holds emb h p \<Longrightarrow> holds emb h (emb_append emb d p)"
  using assms by (simp_all add: embedding_ok_def)

lemma py_inv_change:
  assumes "py_inv emb own s" and "active (objects s i) \<or> \<not> emb_running emb (interp s)"
    and "interp t = q" and "objects t = (objects s)(i := x)" and "calls_of t = (calls_of s)(i := y)"
    and "lock_inv emb (Owner (own i)) (Handler i) q x y" and "active x \<or> \<not> emb_running emb q"
  shows "py_inv emb own t"
proof -
  have lock: "lock_inv emb (Owner (own j)) (Handler j) (interp s) (objects s j) (calls_of s j)" for j
    using assms(1) by (simp add: py_inv_def)
  have other: "\<not> active (objects s j)" if "j \<noteq> i" for j
    using assms(1,2) that lock_inv_active [OF lock [of j]] by (auto simp: py_inv_def)
  then have "calls_of s j = CIdle" if "j \<noteq> i" for j
    using lock [of j] that by simp
  with other show ?thesis using assms(3-7) by (auto simp: py_inv_def)
qed

lemma py_inv_method:
  assumes "embedding_ok emb" and "method_run emb project own i s = Some t" and "py_inv emb own s"
  shows "py_inv emb own t"
proof -
  note emb = embedding_simps [OF assms(1)]
  have lock: "lock_inv emb (Owner (own i)) (Handler i) (interp s) (objects s i) (calls_of s i)"
    using assms(3) by (simp add: py_inv_def)
  then have idle: "objects s i \<noteq> MLive \<Longrightarrow> calls_of s i = CIdle"
    by (cases "objects s i"; cases "calls_of s i") simp_all
  note change = py_inv_change [OF assms(3), of i t _ _ CIdle]
  show ?thesis
  proof (cases "objects s i")
    case MNone
    show ?thesis
    proof (cases "emb_running emb (interp s)")
      case True
      then have "t = s\<lparr>interp := interp s, objects := (objects s)(i := MThrown already_running)\<rparr>"
        using assms(2) MNone emb(1) [OF True] by (simp add: method_run_def Let_def)
      moreover obtain j where "active (objects s j)" "j \<noteq> i"
        using assms(3) True MNone unfolding py_inv_def by (metis active_simps(1))
      ultimately show ?thesis using assms(3) MNone idle by (auto simp: py_inv_def)
    next
      case False
      then obtain q where "emb_init emb (Owner (own i)) (interp s) = Inr q" "holds emb (Some (Owner (own i))) q"
        using emb(2) by blast
      then show ?thesis using assms(2) MNone False idle
        by (intro change) (auto simp: method_run_def Let_def)
    qed
  next
    case MGuard
    with idle lock obtain g q where "emb_acquire emb (Owner (own i)) (interp s) = Some (g, q)"
      "holds emb (Some (Owner (own i))) q" "restores emb (Owner (own i)) g (Some (Owner (own i)))"
      using emb(4) [of "Owner (own i)" "interp s"] by auto
    then show ?thesis using assms(2) MGuard idle
      by (intro change) (auto simp: method_run_def Let_def)
  next
    case (MEnsure g)
    then show ?thesis using assms(2) idle lock emb(8)
      by (intro change) (auto simp: method_run_def Let_def)
  next
    case (MPath g)
    then show ?thesis using assms(2) idle lock
      by (intro change) (auto simp: method_run_def Let_def restores_def)
  next
    case MEnsured
    then show ?thesis using assms(2) idle lock emb(6)
      by (intro change) (auto simp: method_run_def Let_def)
  next
    case MLive
    with assms(2) have "calls_of s i = CIdle" by (auto simp: method_run_def Let_def split: if_splits)
    moreover with lock MLive obtain q where "emb_resume emb (Owner (own i)) (interp s) = Some q"
      "holds emb (Some (Owner (own i))) q"
      using emb(7) [of "interp s" "Owner (own i)"] by auto
    ultimately show ?thesis using assms(2) MLive
      by (intro change) (auto simp: method_run_def Let_def)
  next
    case MTaken
    then show ?thesis using assms(2) idle emb(3)
      by (intro change) (auto simp: method_run_def Let_def)
  qed (use assms(2) in \<open>simp_all add: method_run_def\<close>)
qed

lemma py_inv_call:
  assumes "embedding_ok emb" and "call_run emb call i m s = Some t" and "py_inv emb own s"
  shows "py_inv emb own t"
proof -
  note emb = embedding_simps [OF assms(1)]
  have lock: "lock_inv emb (Owner (own i)) (Handler i) (interp s) (objects s i) (calls_of s i)"
    using assms(3) by (simp add: py_inv_def)
  then have live: "calls_of s i \<noteq> CIdle \<Longrightarrow> objects s i = MLive"
    by (cases "objects s i"; cases "calls_of s i") simp_all
  note change = py_inv_change [OF assms(3), of i t _ MLive]
  show ?thesis
  proof (cases "calls_of s i")
    case CIdle
    with assms(2) have "objects s i = MLive" by (auto simp: call_run_def split: if_splits)
    moreover with lock CIdle obtain g q where "emb_acquire emb (Handler i) (interp s) = Some (g, q)"
      "holds emb (Some (Handler i)) q" "restores emb (Handler i) g None"
      using emb(5) [of "interp s" "Handler i"] by auto
    ultimately show ?thesis using assms(2) CIdle
      by (intro change) (auto simp: call_run_def fun_upd_idem)
  next
    case (CLocked g meta)
    moreover obtain r w where "process call meta (py_world s) = (r, w)" by fastforce
    ultimately show ?thesis using assms(2) lock live
      by (intro change [of _ "CCalled g r"]) (auto simp: call_run_def fun_upd_idem)
  next
    case (CCalled g r)
    then show ?thesis using assms(2) lock live
      by (intro change) (auto simp: call_run_def fun_upd_idem restores_def)
  qed
qed

lemma py_inv_reach:
  assumes "embedding_ok emb"
  shows "py_reach emb project own call s \<Longrightarrow> py_inv emb own s"
proof (induction rule: py_reach.induct)
  case (start p w)
  then show ?case by (simp add: py_inv_def py_start_def)
qed (auto intro: py_inv_method [OF assms] py_inv_call [OF assms])

text \<open>Nobody waits for the lock: what has begun can go on.\<close>

lemma method_not_blocked:
  assumes "embedding_ok emb" and "py_inv emb own s" and "active (objects s i)" and "calls_of s i = CIdle"
  shows "method_run emb project own i s \<noteq> None"
proof -
  note emb = embedding_simps [OF assms(1)]
  have "lock_inv emb (Owner (own i)) (Handler i) (interp s) (objects s i) (calls_of s i)"
    using assms(2) by (simp add: py_inv_def)
  note lock = this [unfolded assms(4)]
  show ?thesis
    using assms(3,4) lock emb(4) [of "Owner (own i)" "interp s"] emb(7) [of "interp s" "Owner (own i)"]
    by (cases "objects s i") (auto simp: method_run_def Let_def)
qed

lemma call_not_blocked:
  assumes "embedding_ok emb" and "py_inv emb own s" and "objects s i = MLive"
  shows "call_run emb call i m s \<noteq> None"
proof -
  have "lock_inv emb (Owner (own i)) (Handler i) (interp s) (objects s i) (calls_of s i)"
    using assms(2) by (simp add: py_inv_def)
  note lock = this [unfolded assms(3)]
  show ?thesis
    using assms(3) lock embedding_simps(5) [OF assms(1), of "interp s" "Handler i"]
    by (cases "calls_of s i") (auto simp: call_run_def split: prod.split)
qed

text \<open>The constructor by statements is the constructor.\<close>

lemma python_method_ctor_runs:
  assumes "python_method_ctor emb project (Owner (own i)) (interp s) = Some (Inr q)" and "objects s i = MNone"
  shows "((\<lambda>t. Option.bind t (method_run emb project own i)) ^^ 5) (Some s) =
    Some (s\<lparr>interp := q, objects := (objects s)(i := MLive)\<rparr>)"
  using assms
  by (auto simp: python_method_ctor_def method_run_def numeral_eq_Suc split: sum.splits option.splits)

lemma python_method_ctor_ok:
  assumes "embedding_ok emb"
  shows "emb_running emb p \<Longrightarrow> python_method_ctor emb project t p = Some (Inl already_running)"
    and "\<not> emb_running emb p \<Longrightarrow> \<exists>q. python_method_ctor emb project t p = Some (Inr q) \<and> holds emb None q"
proof -
  note emb = embedding_simps [OF assms]
  show "emb_running emb p \<Longrightarrow> python_method_ctor emb project t p = Some (Inl already_running)"
    by (simp add: python_method_ctor_def emb(1))
  assume "\<not> emb_running emb p"
  then obtain p1 where p1: "emb_init emb t p = Inr p1" "holds emb (Some t) p1" using emb(2) by blast
  then obtain g p2 where p2: "emb_acquire emb t p1 = Some (g, p2)" "holds emb (Some t) p2"
    "restores emb t g (Some t)"
    using emb(4) by blast
  then have "holds emb None (emb_yield emb t (emb_drop emb t g (emb_append emb project p2)))"
    using emb(6,8) by (simp add: restores_def)
  with p1 p2 show "\<exists>q. python_method_ctor emb project t p = Some (Inr q) \<and> holds emb None q"
    by (simp add: python_method_ctor_def)
qed

end
