(* ===== verification/SrcNode.thy ===== *)
theory SrcNode
  imports NodeInv DataSource PyInterp
begin

text \<open>
  The source node \<open>vp_src_node\<close>: a node whose handle thread takes frames from a data source
  instead of the in-queue, waits at the gate before each of them, hands each to the Python
  script and signals the dispatch thread afterwards. The thread's statements are the program
  counters of \<open>src_pc\<close>; the dispatch thread and \<open>deinitialized\<close> are the ones of \<open>vp_node\<close>.
  The owner opens and closes the gate (\<open>start\<close>, \<open>stop\<close>) and at last runs the destructor,
  which closes the data source, opens the gate, calls \<open>vp_node::deinitialized\<close>, gives up the
  caller of the Python script and runs \<open>~vp_node\<close>, which calls \<open>deinitialized\<close> again. Nothing
  flows into a source node (\<open>attach_to\<close> refuses it), so there are no upstream steps.
\<close>

section \<open>The data source as a virtual class\<close>

text \<open>
  The four virtual calls the node makes. Frames live in the world \<open>'w\<close>, which the Python
  script may change too; a frame meta is named by its address.
\<close>

record ('d, 'w) source_ops =
  so_is_open :: "'d \<Rightarrow> bool"
  so_open :: "'d \<Rightarrow> bool \<times> 'd"
  so_close :: "'d \<Rightarrow> 'd"
  so_get_frame_meta :: "'d \<Rightarrow> 'w \<Rightarrow> (nat option \<times> 'd \<times> 'w) result"

text \<open>The image source in a world of frame metas, each new one at the next free address.\<close>

record frame_world =
  fw_memory :: memory
  fw_metas :: "vp_frame_meta list"

definition image_source_ops ::
    "(string \<Rightarrow> bool) \<Rightarrow> opencv \<Rightarrow> int \<Rightarrow> (vp_image_data_source, frame_world) source_ops" where
  "image_source_ops exists cv now = \<lparr>
     so_is_open = is_open,
     so_open = image_open exists,
     so_close = image_close,
     so_get_frame_meta = (\<lambda>d w.
       bind_result (image_get_frame_meta cv now d (fw_memory w)) (\<lambda>(r, d', mem). case r of
           None \<Rightarrow> Inr (None, d', w\<lparr>fw_memory := mem\<rparr>)
         | Some m \<Rightarrow> Inr (Some (length (fw_metas w)), d',
             w\<lparr>fw_memory := mem, fw_metas := fw_metas w @ [m]\<rparr>)))\<rparr>"

section \<open>State and construction\<close>

datatype src_pc =
    SStart | SOpen | STop | STopOpen | SKnock | SAlive | SGet
  | SPush nat | SHandle nat | SSignal | SSleep
  | SDeadPush | SDeadSignal | SDone | SCrash vp_exception

text \<open>
  The destructor: not begun, after \<open>close\<close>, inside \<open>vp_node::deinitialized\<close> (whose own program
  counter is \<open>cpc\<close>), and at each statement of the second \<open>vp_node::deinitialized\<close>, which
  \<open>~vp_node\<close> runs. \<open>py_call\<close> tells whether the node still has the caller of its script.
\<close>

datatype dtor_pc = XIdle | XGate | XBase | XClear | XPush | XSignal | XJoin | XDone

record ('h, 'w, 'd) src_sys = "('h, 'w, src_pc) node_sys" +
  gate :: vp_gate
  source :: "'d option"
  processed :: "nat list"
  py_call :: bool
  xpc :: dtor_pc

definition src_init :: "'h vp_node \<Rightarrow> 'd \<Rightarrow> 'w \<Rightarrow> ('h, 'w, 'd) src_sys" where
  "src_init n d w = node_sys.extend (node_sys_init n SStart w)
     \<lparr>gate = vp_gate_new, source = Some d, processed = [], py_call = True, xpc = XIdle\<rparr>"

text \<open>
  The constructor: the data source is always the image \<open>TEST.png\<close> at full size; the node then
  starts the Python interpreter of the process; the resize ratio is only checked.
\<close>

definition vp_src_node_ctor ::
    "('p, 'g) embedding \<Rightarrow> string \<Rightarrow> py_thread \<Rightarrow> string \<Rightarrow> int \<Rightarrow> rat \<Rightarrow> 'w \<Rightarrow> 'p
      \<Rightarrow> (('h, 'w, vp_image_data_source) src_sys \<times> 'p) result option" where
  "vp_src_node_ctor emb project t name channel ratio w p =
     (case vp_image_data_source_ctor channel ''TEST.png'' 1 1 True of
        Inl e \<Rightarrow> Some (Inl e)
      | Inr d \<Rightarrow> map_option (\<lambda>r. bind_result r (\<lambda>q.
          if 0 < ratio \<and> ratio \<le> 1
          then Inr (src_init ((vp_node_ctor name)\<lparr>node_type := SRC\<rparr>) d w, q)
          else Inl (assertion_failed ''resize_ratio > 0 && resize_ratio <= 1.0f'')))
        (python_method_ctor emb project t p))"

lemma image_data_source_test:
  "\<exists>d. vp_image_data_source_ctor channel ''TEST.png'' 1 1 True = Inr d"
  by (simp add: vp_image_data_source_ctor_def vp_data_source_ctor_def)

section \<open>The handle thread\<close>

text \<open>
  \<open>handle_frame_meta\<close> calls the script and assigns the result to its by-value parameter:
  only what the script changed in place survives the call. \<open>Inl\<close> is an exception that
  leaves the thread function (\<open>SCrash\<close>).
\<close>

definition src_handle_frame_meta ::
    "(nat \<Rightarrow> 'w \<Rightarrow> py_outcome \<times> 'w) \<Rightarrow> nat \<Rightarrow> 'w \<Rightarrow> unit result \<times> 'w" where
  "src_handle_frame_meta call meta w = (case process call meta w of
      (Inl e, w') \<Rightarrow> (Inl e, w')
    | (Inr result, w') \<Rightarrow> (Inr (), w'))"

definition src_handle_run ::
    "('d, 'w) source_ops \<Rightarrow> (nat \<Rightarrow> 'w \<Rightarrow> py_outcome \<times> 'w)
      \<Rightarrow> ('h, 'w, 'd) src_sys \<Rightarrow> ('h, 'w, 'd) src_sys option" where
  "src_handle_run ops call s = (case source s of
      None \<Rightarrow> if hpc s = SStart then Some (s\<lparr>hpc := SDone\<rparr>) else None
    | Some d \<Rightarrow> (case hpc s of
        SStart \<Rightarrow> Some (s\<lparr>hpc := if so_is_open ops d then STop else SOpen\<rparr>)
      | SOpen \<Rightarrow> (case so_open ops d of
            (ok, d') \<Rightarrow> Some (s\<lparr>source := Some d', hpc := if ok then STop else SDone\<rparr>))
      | STop \<Rightarrow> Some (s\<lparr>hpc := if alive (nd s) then STopOpen else SDeadPush\<rparr>)
      | STopOpen \<Rightarrow> Some (s\<lparr>hpc := if so_is_open ops d then SKnock else SDeadPush\<rparr>)
      | SKnock \<Rightarrow> map_option (\<lambda>g. s\<lparr>gate := g, hpc := SAlive\<rparr>) (gate_knock (gate s))
      | SAlive \<Rightarrow> Some (s\<lparr>hpc := if alive (nd s) then SGet else SDeadPush\<rparr>)
      | SGet \<Rightarrow> Some (case so_get_frame_meta ops d (world s) of
            Inl e \<Rightarrow> s\<lparr>hpc := SCrash e\<rparr>
          | Inr (None, d', w) \<Rightarrow> s\<lparr>source := Some d', world := w, hpc := SDeadPush\<rparr>
          | Inr (Some m, d', w) \<Rightarrow> s\<lparr>source := Some d', world := w, hpc := SPush m\<rparr>)
      | SPush m \<Rightarrow> Some (s\<lparr>nd := (nd s)\<lparr>out_queue := Push (Some m) (out_queue (nd s))\<rparr>,
            emitted := emitted s @ [m], hpc := SHandle m\<rparr>)
      | SHandle m \<Rightarrow> Some (case src_handle_frame_meta call m (world s) of
            (Inl e, w) \<Rightarrow> s\<lparr>world := w, hpc := SCrash e\<rparr>
          | (Inr u, w) \<Rightarrow> s\<lparr>world := w, processed := processed s @ [m], hpc := SSignal\<rparr>)
      | SSignal \<Rightarrow> Some (s\<lparr>nd := (nd s)\<lparr>out_queue_semaphore :=
            sem_signal (out_queue_semaphore (nd s))\<rparr>, hpc := SSleep\<rparr>)
      | SSleep \<Rightarrow> Some (s\<lparr>hpc := STop\<rparr>)
      | SDeadPush \<Rightarrow> Some (s\<lparr>nd := (nd s)\<lparr>out_queue := Push None (out_queue (nd s))\<rparr>,
            hpc := SDeadSignal\<rparr>)
      | SDeadSignal \<Rightarrow> Some (s\<lparr>nd := (nd s)\<lparr>out_queue_semaphore :=
            sem_signal (out_queue_semaphore (nd s))\<rparr>, hpc := SDone\<rparr>)
      | SDone \<Rightarrow> None
      | SCrash e \<Rightarrow> None))"

section \<open>The owner\<close>

definition src_start :: "('h, 'w, 'd) src_sys \<Rightarrow> ('h, 'w, 'd) src_sys" where
  "src_start s = s\<lparr>gate := gate_open (gate s)\<rparr>"

definition src_stop :: "('h, 'w, 'd) src_sys \<Rightarrow> ('h, 'w, 'd) src_sys" where
  "src_stop s = s\<lparr>gate := gate_close (gate s)\<rparr>"

text \<open>
  \<open>speak\<close> makes a control meta at the address \<open>addr\<close> and pushes it to the subscribers of
  node \<open>u\<close>, past the node's own queues; \<open>now\<close> and \<open>now'\<close> are the two clock readings.
\<close>

definition src_speak ::
    "int \<Rightarrow> int \<Rightarrow> int \<Rightarrow> nat \<Rightarrow> nat \<Rightarrow> 'h network \<Rightarrow> vp_control_meta \<times> 'h calls \<times> 'h network" where
  "src_speak now now' channel addr u net =
     (vp_control_meta_ctor now now' SPEAK channel [], push_meta u (Some addr) net)"

text \<open>
  \<open>~vp_src_node\<close>, \<open>vp_src_node::deinitialized\<close> and \<open>~vp_node\<close>, one statement at a time. Once
  the first \<open>vp_node::deinitialized\<close> has returned, the destructor gives up the script's caller
  (whose own destructor is \<open>method_run\<close> of \<open>PyInterp\<close>). In the second call both threads have been
  joined, so that neither is \<open>joinable()\<close> and nothing is waited for.
\<close>

definition src_destroy ::
    "('d, 'w) source_ops \<Rightarrow> ('h, 'w, 'd) src_sys \<Rightarrow> ('h, 'w, 'd) src_sys option" where
  "src_destroy ops s = (case xpc s of
      XIdle \<Rightarrow> Some (s\<lparr>source := map_option (so_close ops) (source s), xpc := XGate\<rparr>)
    | XGate \<Rightarrow> Some (s\<lparr>gate := gate_open (gate s), xpc := XBase\<rparr>)
    | XBase \<Rightarrow> (if cpc s = CDone then Some (s\<lparr>py_call := False, xpc := XClear\<rparr>)
        else deinitialized (hpc s = SDone) s)
    | XClear \<Rightarrow> Some (s\<lparr>nd := (nd s)\<lparr>alive := False\<rparr>, xpc := XPush\<rparr>)
    | XPush \<Rightarrow> Some (s\<lparr>nd := (nd s)\<lparr>in_queue := Push None (in_queue (nd s))\<rparr>, xpc := XSignal\<rparr>)
    | XSignal \<Rightarrow> Some (s\<lparr>nd := (nd s)\<lparr>in_queue_semaphore :=
        sem_signal (in_queue_semaphore (nd s))\<rparr>, xpc := XJoin\<rparr>)
    | XJoin \<Rightarrow> Some (s\<lparr>xpc := XDone\<rparr>)
    | XDone \<Rightarrow> None)"

section \<open>Interleaving\<close>

inductive src_thread ::
  "('d, 'w) source_ops \<Rightarrow> (nat \<Rightarrow> 'w \<Rightarrow> py_outcome \<times> 'w)
    \<Rightarrow> ('h, 'w, 'd) src_sys \<Rightarrow> ('h, 'w, 'd) src_sys \<Rightarrow> bool"
  for ops call where
  handle: "src_handle_run ops call s = Some t \<Longrightarrow> src_thread ops call s t"
| dispatch: "dispatch_run s = Some t \<Longrightarrow> src_thread ops call s t"

inductive src_step ::
  "('d, 'w) source_ops \<Rightarrow> (nat \<Rightarrow> 'w \<Rightarrow> py_outcome \<times> 'w)
    \<Rightarrow> ('h, 'w, 'd) src_sys \<Rightarrow> ('h, 'w, 'd) src_sys \<Rightarrow> bool"
  for ops call where
  threads: "src_thread ops call s t \<Longrightarrow> src_step ops call s t"
| start: "xpc s = XIdle \<Longrightarrow> src_step ops call s (src_start s)"
| stop: "xpc s = XIdle \<Longrightarrow> src_step ops call s (src_stop s)"
| destroy: "src_destroy ops s = Some t \<Longrightarrow> src_step ops call s t"

inductive src_reach ::
  "('d, 'w) source_ops \<Rightarrow> (nat \<Rightarrow> 'w \<Rightarrow> py_outcome \<times> 'w) \<Rightarrow> ('h, 'w, 'd) src_sys \<Rightarrow> bool"
  for ops call where
  init: "fresh_node n \<Longrightarrow> src_reach ops call (src_init n d w)"
| step: "src_reach ops call s \<Longrightarrow> src_step ops call s t \<Longrightarrow> src_reach ops call t"
| world: "src_reach ops call s \<Longrightarrow> src_reach ops call (s\<lparr>world := w\<rparr>)"

inductive_simps src_thread_iff: "src_thread ops call s t"

inductive_simps src_step_iff: "src_step ops call s t"

text \<open>A run by a list of actions, for concrete schedules: \<open>None\<close> when one is not enabled.\<close>

datatype src_action = AHandle | ADispatch | AStart | AStop | ADestroy

fun src_act ::
    "('d, 'w) source_ops \<Rightarrow> (nat \<Rightarrow> 'w \<Rightarrow> py_outcome \<times> 'w) \<Rightarrow> src_action
      \<Rightarrow> ('h, 'w, 'd) src_sys \<Rightarrow> ('h, 'w, 'd) src_sys option" where
  "src_act ops call AHandle s = src_handle_run ops call s"
| "src_act ops call ADispatch s = dispatch_run s"
| "src_act ops call AStart s = (if xpc s = XIdle then Some (src_start s) else None)"
| "src_act ops call AStop s = (if xpc s = XIdle then Some (src_stop s) else None)"
| "src_act ops call ADestroy s = src_destroy ops s"

fun src_run ::
    "('d, 'w) source_ops \<Rightarrow> (nat \<Rightarrow> 'w \<Rightarrow> py_outcome \<times> 'w) \<Rightarrow> src_action list
      \<Rightarrow> ('h, 'w, 'd) src_sys \<Rightarrow> ('h, 'w, 'd) src_sys option" where
  "src_run ops call [] s = Some s"
| "src_run ops call (a # as) s =
     (case src_act ops call a s of None \<Rightarrow> None | Some t \<Rightarrow> src_run ops call as t)"

lemma src_act_step: "src_act ops call a s = Some t \<Longrightarrow> src_step ops call s t"
  by (cases a) (auto intro: src_step.intros src_thread.intros split: if_splits)

lemma src_run_reach:
  "src_run ops call as s = Some t \<Longrightarrow> src_reach ops call s \<Longrightarrow> src_reach ops call t"
  by (induction as arbitrary: s)
    (auto split: option.splits dest!: src_act_step intro: src_reach.step)

lemma src_init_simps [simp]:
  "nd (src_init n d w) = n" "hpc (src_init n d w) = SStart" "dpc (src_init n d w) = DTop"
  "cpc (src_init n d w) = CRun" "gate (src_init n d w) = vp_gate_new"
  "source (src_init n d w) = Some d" "processed (src_init n d w) = []"
  "py_call (src_init n d w)"
  "xpc (src_init n d w) = XIdle" "emitted (src_init n d w) = []"
  "delivered (src_init n d w) = []" "world (src_init n d w) = w"
  by (simp_all add: src_init_def node_sys_init_def node_sys.defs)

end
