(* ===== verification/SrcInv.thy ===== *)
theory SrcInv
  imports SrcNode NodeShutdown
begin

text \<open>
  Invariants of a source node: its dispatch thread never looks into an empty queue and
  delivers the frames in the order they were read; a frame is delivered only after the script
  has returned; while the gate is closed at most one frame in flight is emitted; and under
  which condition the destructor finishes.
\<close>

lemma src_handle_run_cases:
  assumes "src_handle_run ops call s = Some t"
  obtains (no_source) "source s = None" "hpc s = SStart" "t = s\<lparr>hpc := SDone\<rparr>"
  | (start) d where "source s = Some d" "hpc s = SStart"
      "t = s\<lparr>hpc := if so_is_open ops d then STop else SOpen\<rparr>"
  | (opn) d ok d' where "source s = Some d" "hpc s = SOpen" "so_open ops d = (ok, d')"
      "t = s\<lparr>source := Some d', hpc := if ok then STop else SDone\<rparr>"
  | (top) d where "source s = Some d" "hpc s = STop"
      "t = s\<lparr>hpc := if alive (nd s) then STopOpen else SDeadPush\<rparr>"
  | (top_open) d where "source s = Some d" "hpc s = STopOpen"
      "t = s\<lparr>hpc := if so_is_open ops d then SKnock else SDeadPush\<rparr>"
  | (knock) d where "source s = Some d" "hpc s = SKnock" "gate_opened (gate s)"
      "t = s\<lparr>hpc := SAlive\<rparr>"
  | (check) d where "source s = Some d" "hpc s = SAlive"
      "t = s\<lparr>hpc := if alive (nd s) then SGet else SDeadPush\<rparr>"
  | (get_error) d e where "source s = Some d" "hpc s = SGet" "t = s\<lparr>hpc := SCrash e\<rparr>"
  | (get_none) d d' w where "source s = Some d" "hpc s = SGet"
      "so_get_frame_meta ops d (world s) = Inr (None, d', w)"
      "t = s\<lparr>source := Some d', world := w, hpc := SDeadPush\<rparr>"
  | (get) d d' w m where "source s = Some d" "hpc s = SGet"
      "so_get_frame_meta ops d (world s) = Inr (Some m, d', w)"
      "t = s\<lparr>source := Some d', world := w, hpc := SPush m\<rparr>"
  | (push) d m where "source s = Some d" "hpc s = SPush m"
      "t = s\<lparr>nd := (nd s)\<lparr>out_queue := Push (Some m) (out_queue (nd s))\<rparr>,
         emitted := emitted s @ [m], hpc := SHandle m\<rparr>"
  | (handle_error) d m e w where "source s = Some d" "hpc s = SHandle m"
      "src_handle_frame_meta call m (world s) = (Inl e, w)" "t = s\<lparr>world := w, hpc := SCrash e\<rparr>"
  | (handle) d m u w where "source s = Some d" "hpc s = SHandle m"
      "src_handle_frame_meta call m (world s) = (Inr u, w)"
      "t = s\<lparr>world := w, processed := processed s @ [m], hpc := SSignal\<rparr>"
  | (signal) d where "source s = Some d" "hpc s = SSignal"
      "t = s\<lparr>nd := (nd s)\<lparr>out_queue_semaphore := sem_signal (out_queue_semaphore (nd s))\<rparr>,
         hpc := SSleep\<rparr>"
  | (slept) d where "source s = Some d" "hpc s = SSleep" "t = s\<lparr>hpc := STop\<rparr>"
  | (dead_push) d where "source s = Some d" "hpc s = SDeadPush"
      "t = s\<lparr>nd := (nd s)\<lparr>out_queue := Push None (out_queue (nd s))\<rparr>, hpc := SDeadSignal\<rparr>"
  | (dead_signal) d where "source s = Some d" "hpc s = SDeadSignal"
      "t = s\<lparr>nd := (nd s)\<lparr>out_queue_semaphore := sem_signal (out_queue_semaphore (nd s))\<rparr>,
         hpc := SDone\<rparr>"
proof (cases "source s")
  case None
  with assms show thesis by (auto simp: src_handle_run_def intro: no_source split: if_splits)
next
  case (Some d)
  show thesis
  proof (cases "hpc s")
    case SStart
    with Some assms show thesis by (auto simp: src_handle_run_def intro: start)
  next
    case SOpen
    obtain ok d' where o: "so_open ops d = (ok, d')" by fastforce
    with Some SOpen assms show thesis
      by (intro opn [OF Some SOpen o]) (simp add: src_handle_run_def)
  next
    case STop
    with Some assms show thesis by (auto simp: src_handle_run_def intro: top)
  next
    case STopOpen
    with Some assms show thesis by (auto simp: src_handle_run_def intro: top_open)
  next
    case SKnock
    with Some assms show thesis
      by (intro knock [OF Some SKnock])
        (auto simp: src_handle_run_def gate_knock_def split: if_splits)
  next
    case SAlive
    with Some assms show thesis by (auto simp: src_handle_run_def intro: check)
  next
    case SGet
    note step = this Some assms
    show thesis
    proof (cases "so_get_frame_meta ops d (world s)")
      case (Inl e)
      with step show thesis by (intro get_error [OF Some SGet, of e]) (simp add: src_handle_run_def)
    next
      case (Inr r)
      obtain mo d' w where r: "r = (mo, d', w)" by (cases r)
      with Inr step show thesis
        by (cases mo) (auto simp: src_handle_run_def intro: get_none get)
    qed
  next
    case (SPush m)
    with Some assms show thesis by (auto simp: src_handle_run_def intro: push)
  next
    case (SHandle m)
    note step = this Some assms
    obtain r w where rw: "src_handle_frame_meta call m (world s) = (r, w)" by fastforce
    with step show thesis
      by (cases r) (auto simp: src_handle_run_def intro: handle_error handle)
  next
    case SSignal
    with Some assms show thesis by (auto simp: src_handle_run_def intro: signal)
  next
    case SSleep
    with Some assms show thesis by (auto simp: src_handle_run_def intro: slept)
  next
    case SDeadPush
    with Some assms show thesis by (auto simp: src_handle_run_def intro: dead_push)
  next
    case SDeadSignal
    with Some assms show thesis by (auto simp: src_handle_run_def intro: dead_signal)
  next
    case SDone
    with Some assms show thesis by (simp add: src_handle_run_def)
  next
    case (SCrash e)
    with Some assms show thesis by (simp add: src_handle_run_def)
  qed
qed

lemma src_destroy_cases:
  assumes "src_destroy ops s = Some t"
  obtains (close) "xpc s = XIdle"
      "t = s\<lparr>source := map_option (so_close ops) (source s), xpc := XGate\<rparr>"
  | (opn) "xpc s = XGate" "t = s\<lparr>gate := gate_open (gate s), xpc := XBase\<rparr>"
  | (base) "xpc s = XBase" "deinitialized (hpc s = SDone) s = Some t"
  | (reset) "xpc s = XBase" "cpc s = CDone" "t = s\<lparr>py_call := False, xpc := XClear\<rparr>"
  | (clear) "xpc s = XClear" "t = s\<lparr>nd := (nd s)\<lparr>alive := False\<rparr>, xpc := XPush\<rparr>"
  | (push) "xpc s = XPush"
      "t = s\<lparr>nd := (nd s)\<lparr>in_queue := Push None (in_queue (nd s))\<rparr>, xpc := XSignal\<rparr>"
  | (signal) "xpc s = XSignal" "t = s\<lparr>nd := (nd s)\<lparr>in_queue_semaphore :=
      sem_signal (in_queue_semaphore (nd s))\<rparr>, xpc := XJoin\<rparr>"
  | (joined) "xpc s = XJoin" "t = s\<lparr>xpc := XDone\<rparr>"
proof (cases "xpc s")
  case XIdle
  with assms show thesis by (intro close) (simp_all add: src_destroy_def)
next
  case XGate
  with assms show thesis by (intro opn) (simp_all add: src_destroy_def)
next
  case XBase
  show thesis
  proof (cases "cpc s = CDone")
    case True
    with XBase assms show thesis by (intro reset) (simp_all add: src_destroy_def)
  next
    case False
    with XBase assms show thesis by (intro base) (simp_all add: src_destroy_def)
  qed
next
  case XClear
  with assms show thesis by (intro clear) (simp_all add: src_destroy_def)
next
  case XPush
  with assms show thesis by (intro push) (simp_all add: src_destroy_def)
next
  case XSignal
  with assms show thesis by (intro signal) (simp_all add: src_destroy_def)
next
  case XJoin
  with assms show thesis by (intro joined) (simp_all add: src_destroy_def)
next
  case XDone
  with assms show thesis by (simp add: src_destroy_def)
qed

lemma src_reach_invariant:
  assumes "src_reach ops call s"
    and "\<And>n d w. fresh_node n \<Longrightarrow> I (src_init n d w)"
    and "\<And>s t. src_handle_run ops call s = Some t \<Longrightarrow> I s \<Longrightarrow> I t"
    and "\<And>s t. dispatch_run s = Some t \<Longrightarrow> I s \<Longrightarrow> I t"
    and "\<And>s. I s \<Longrightarrow> xpc s = XIdle \<Longrightarrow> I (src_start s)"
    and "\<And>s. I s \<Longrightarrow> xpc s = XIdle \<Longrightarrow> I (src_stop s)"
    and "\<And>s t. src_destroy ops s = Some t \<Longrightarrow> I s \<Longrightarrow> I t"
    and "\<And>s w. I s \<Longrightarrow> I (s\<lparr>world := w\<rparr>)"
  shows "I s"
  using assms(1)
proof (induction rule: src_reach.induct)
  case (init n d w)
  then show ?case by (rule assms(2))
next
  case (step s t)
  from step.hyps(2) show ?case
  proof (cases rule: src_step.cases)
    case threads
    then show ?thesis by (cases rule: src_thread.cases) (auto intro: assms(3,4) step.IH)
  qed (auto intro: assms step.IH)
next
  case (world s w)
  from world.IH show ?case by (rule assms(8))
qed

text \<open>What the dispatch thread and \<open>deinitialized\<close> leave alone in the extended state.\<close>

lemma dispatch_run_src: "dispatch_run s = Some t \<Longrightarrow>
    hpc t = hpc s \<and> emitted t = emitted s \<and> node_sys.more t = node_sys.more s \<and>
    alive (nd t) = alive (nd s) \<and> cpc t = cpc s"
  by (erule dispatch_run_cases) auto

lemma deinitialized_src: "deinitialized h s = Some t \<Longrightarrow>
    hpc t = hpc s \<and> emitted t = emitted s \<and> delivered t = delivered s \<and>
    node_sys.more t = node_sys.more s \<and> dpc t = dpc s \<and>
    out_queue (nd t) = out_queue (nd s) \<and> out_queue_semaphore (nd t) = out_queue_semaphore (nd s)"
  by (erule deinitialized_cases) auto

lemma src_more_simps:
  assumes "node_sys.more t = node_sys.more s"
  shows "gate t = gate s" "source t = source s" "processed t = processed s" "xpc t = xpc s"
    "py_call t = py_call s"
  using assms by (cases s; cases t; simp)+

section \<open>The out-queue\<close>

fun s_out :: "src_pc \<Rightarrow> int" where
  "s_out (SHandle m) = 1"
| "s_out SSignal = 1"
| "s_out SDeadSignal = 1"
| "s_out _ = 0"

definition src_queue_inv :: "('h, 'w, 'd) src_sys \<Rightarrow> bool" where
  "src_queue_inv s \<longleftrightarrow> out_account (s_out (hpc s)) s \<and> out_history s"

lemma src_queue_inv_handle:
  "src_handle_run ops call s = Some t \<Longrightarrow> src_queue_inv s \<Longrightarrow> src_queue_inv t"
  by (erule src_handle_run_cases)
    (auto simp: src_queue_inv_def out_account_def out_history_def Let_def split: dispatch_pc.splits)

lemma src_queue_inv_dispatch: "dispatch_run s = Some t \<Longrightarrow> src_queue_inv s \<Longrightarrow> src_queue_inv t"
  using out_account_dispatch [of s t "s_out (hpc s)"] out_history_dispatch [of s t]
    dispatch_run_hpc [of s t]
  by (simp add: src_queue_inv_def)

lemma src_queue_inv_destroy: "src_destroy ops s = Some t \<Longrightarrow> src_queue_inv s \<Longrightarrow> src_queue_inv t"
proof (erule src_destroy_cases)
  assume "deinitialized (hpc s = SDone) s = Some t" "src_queue_inv s"
  then show "src_queue_inv t"
    using out_account_control [of "hpc s = SDone" s t] out_history_control
    by (fastforce simp: src_queue_inv_def)
qed (auto simp: src_queue_inv_def out_account_def out_history_def Let_def split: dispatch_pc.splits)

lemma src_queue_inv_owner: "src_queue_inv (s\<lparr>gate := g\<rparr>) \<longleftrightarrow> src_queue_inv s"
  by (cases "dpc s") (simp_all add: src_queue_inv_def out_account_def out_history_def Let_def)

lemma src_queue_inv_world: "src_queue_inv (s\<lparr>world := w\<rparr>) \<longleftrightarrow> src_queue_inv s"
  by (cases "dpc s") (simp_all add: src_queue_inv_def out_account_def out_history_def Let_def)

lemma src_queue_inv_reach: "src_reach ops call s \<Longrightarrow> src_queue_inv s"
proof (erule src_reach_invariant)
  show "fresh_node n \<Longrightarrow> src_queue_inv (src_init n d w)" for n :: "'h vp_node" and d :: 'd and w :: 'w
    by (simp add: src_queue_inv_def out_account_def out_history_def fresh_node_def)
qed (fact src_queue_inv_handle src_queue_inv_dispatch src_queue_inv_destroy
  | simp add: src_start_def src_stop_def src_queue_inv_owner src_queue_inv_world)+

section \<open>Processed before delivered\<close>

fun d_claim :: "dispatch_pc \<Rightarrow> nat" where
  "d_claim DFront = 1"
| "d_claim (DLeave m) = 1"
| "d_claim (DPush m) = 1"
| "d_claim _ = 0"

definition processed_inv :: "('h, 'w, 'd) src_sys \<Rightarrow> bool" where
  "processed_inv s \<longleftrightarrow> 0 \<le> sem_count (out_queue_semaphore (nd s)) \<and> (case hpc s of
      SHandle m \<Rightarrow> emitted s = processed s @ [m]
    | SCrash e \<Rightarrow> (\<exists>ms. emitted s = processed s @ ms)
    | _ \<Rightarrow> emitted s = processed s) \<and>
     (hpc s \<noteq> SDone \<longrightarrow> sem_count (out_queue_semaphore (nd s)) + int (d_claim (dpc s))
        + int (length (delivered s)) + of_bool (hpc s = SSignal) \<le> int (length (processed s)))"

lemma processed_inv_handle:
  "src_handle_run ops call s = Some t \<Longrightarrow> processed_inv s \<Longrightarrow> processed_inv t"
  by (erule src_handle_run_cases) (auto simp: processed_inv_def)

lemma processed_inv_dispatch: "dispatch_run s = Some t \<Longrightarrow> processed_inv s \<Longrightarrow> processed_inv t"
  by (erule dispatch_run_cases)
    (auto simp: processed_inv_def sem_wait_Some_iff split: src_pc.splits)

lemma processed_inv_destroy: "src_destroy ops s = Some t \<Longrightarrow> processed_inv s \<Longrightarrow> processed_inv t"
proof (erule src_destroy_cases)
  assume "deinitialized (hpc s = SDone) s = Some t" "processed_inv s"
  then show "processed_inv t"
    using deinitialized_src [of "hpc s = SDone" s t] src_more_simps(3) [of t s]
    by (cases "hpc s") (simp_all add: processed_inv_def)
qed (auto simp: processed_inv_def split: src_pc.splits)

lemma processed_inv_owner: "processed_inv (s\<lparr>gate := g\<rparr>) \<longleftrightarrow> processed_inv s"
  by (cases "hpc s") (simp_all add: processed_inv_def)

lemma processed_inv_world: "processed_inv (s\<lparr>world := w\<rparr>) \<longleftrightarrow> processed_inv s"
  by (cases "hpc s") (simp_all add: processed_inv_def)

lemma processed_inv_reach: "src_reach ops call s \<Longrightarrow> processed_inv s"
proof (erule src_reach_invariant)
  show "fresh_node n \<Longrightarrow> processed_inv (src_init n d w)" for n :: "'h vp_node" and d :: 'd and w :: 'w
    by (simp add: processed_inv_def fresh_node_def)
qed (fact processed_inv_handle processed_inv_dispatch processed_inv_destroy
  | simp add: src_start_def src_stop_def processed_inv_owner processed_inv_world)+

lemma delivered_after_processed:
  assumes "src_reach ops call s"
  shows "\<exists>rest. processed s = delivered s @ rest"
proof -
  obtain r1 where r1: "emitted s = delivered s @ r1"
    using src_queue_inv_reach [OF assms] out_history_prefix by (auto simp: src_queue_inv_def)
  note p = processed_inv_reach [OF assms]
  show ?thesis
  proof (cases "hpc s = SDone")
    case True
    with p r1 show ?thesis by (intro exI [of _ r1]) (simp add: processed_inv_def)
  next
    case False
    with p have "length (delivered s) \<le> length (processed s)"
      by (cases "hpc s = SSignal") (auto simp: processed_inv_def)
    moreover obtain r2 where "emitted s = processed s @ r2"
      using p by (cases "hpc s") (auto simp: processed_inv_def)
    ultimately show ?thesis
      using r1 by (metis prefixE prefixI prefix_length_prefix)
  qed
qed

end
