(* ===== verification/SrcShutdown.thy ===== *)
theory SrcShutdown
  imports SrcInv
begin

text \<open>
  Pausing and destroying a source node. With the gate closed at most the frame in flight is
  emitted. The destructor finishes when \<open>alive\<close> is cleared while the handle thread is still
  in its loop; when the handle thread has left earlier, after a failed \<open>open\<close> or because it
  saw the data source closed, the dispatch thread waits forever and so does the destructor.
\<close>

section \<open>Pausing\<close>

definition in_flight :: "src_pc \<Rightarrow> nat" where
  "in_flight pc = (case pc of SAlive \<Rightarrow> 1 | SGet \<Rightarrow> 1 | SPush m \<Rightarrow> 1 | _ \<Rightarrow> 0)"

lemma paused_handle:
  "src_handle_run ops call s = Some t \<Longrightarrow> \<not> gate_opened (gate s) \<Longrightarrow>
    \<not> gate_opened (gate t) \<and>
    (\<exists>ms. emitted t = emitted s @ ms \<and> length ms + in_flight (hpc t) \<le> in_flight (hpc s))"
  by (erule src_handle_run_cases) (auto simp: in_flight_def)

lemma paused_thread:
  assumes "src_thread ops call s t" and "\<not> gate_opened (gate s)"
  shows "\<not> gate_opened (gate t) \<and>
    (\<exists>ms. emitted t = emitted s @ ms \<and> length ms + in_flight (hpc t) \<le> in_flight (hpc s))"
  using assms(1)
proof (cases rule: src_thread.cases)
  case handle
  then show ?thesis using assms(2) by (rule paused_handle)
next
  case dispatch
  then show ?thesis
    using assms(2) dispatch_run_src [of s t] src_more_simps(1) [of t s] by simp
qed

lemma paused_run:
  assumes "(src_thread ops call ^^ k) s t" and "\<not> gate_opened (gate s)"
  shows "\<not> gate_opened (gate t) \<and>
    (\<exists>ms. emitted t = emitted s @ ms \<and> length ms + in_flight (hpc t) \<le> in_flight (hpc s))"
  using assms(1)
proof (induction k arbitrary: t)
  case 0
  then show ?case using assms(2) by simp
next
  case (Suc k)
  then obtain u where u: "(src_thread ops call ^^ k) s u" and ut: "src_thread ops call u t" by auto
  from Suc.IH [OF u] obtain ms where ms: "\<not> gate_opened (gate u)" "emitted u = emitted s @ ms"
    "length ms + in_flight (hpc u) \<le> in_flight (hpc s)" by blast
  from paused_thread [OF ut ms(1)] obtain ms' where "\<not> gate_opened (gate t)"
    "emitted t = emitted u @ ms'" "length ms' + in_flight (hpc t) \<le> in_flight (hpc u)" by blast
  with ms show ?case by (intro conjI exI [of _ "ms @ ms'"]) auto
qed

section \<open>The order of the destructor\<close>

fun past_gate :: "dtor_pc \<Rightarrow> bool" where
  "past_gate XIdle = False"
| "past_gate XGate = False"
| "past_gate _ = True"

fun past_base :: "dtor_pc \<Rightarrow> bool" where
  "past_base XIdle = False"
| "past_base XGate = False"
| "past_base XBase = False"
| "past_base _ = True"

definition src_order :: "('h, 'w, 'd) src_sys \<Rightarrow> bool" where
  "src_order s \<longleftrightarrow> (alive (nd s) \<longleftrightarrow> cpc s = CRun) \<and>
     (cpc s \<noteq> CRun \<longrightarrow> past_gate (xpc s)) \<and> (past_gate (xpc s) \<longrightarrow> gate_opened (gate s)) \<and>
     (past_base (xpc s) \<longrightarrow> cpc s = CDone) \<and> (\<not> py_call s \<longrightarrow> past_base (xpc s)) \<and>
     (dpc s = DDone \<longrightarrow> \<not> alive (nd s)) \<and> source s \<noteq> None \<and>
     (cpc s \<in> {CJoinDispatch, CDone} \<longrightarrow> hpc s = SDone) \<and> (cpc s = CDone \<longrightarrow> dpc s = DDone)"

lemma src_order_handle:
  "src_handle_run ops call s = Some t \<Longrightarrow> src_order s \<Longrightarrow> src_order t"
  by (erule src_handle_run_cases) (auto simp: src_order_def)

lemma src_order_dispatch: "dispatch_run s = Some t \<Longrightarrow> src_order s \<Longrightarrow> src_order t"
  by (erule dispatch_run_cases) (auto simp: src_order_def)

lemma src_order_destroy: "src_destroy ops s = Some t \<Longrightarrow> src_order s \<Longrightarrow> src_order t"
proof (erule src_destroy_cases)
  assume "xpc s = XBase" "deinitialized (hpc s = SDone) s = Some t" "src_order s"
  then show "src_order t" by (elim deinitialized_cases) (auto simp: src_order_def)
qed (auto simp: src_order_def)

lemma src_order_owner:
  "src_order s \<Longrightarrow> xpc s = XIdle \<Longrightarrow> src_order (src_start s)"
  "src_order s \<Longrightarrow> xpc s = XIdle \<Longrightarrow> src_order (src_stop s)"
  by (auto simp: src_order_def src_start_def src_stop_def)

lemma src_order_world: "src_order s \<Longrightarrow> src_order (s\<lparr>world := w\<rparr>)"
  by (auto simp: src_order_def)

lemma src_order_reach: "src_reach ops call s \<Longrightarrow> src_order s"
proof (erule src_reach_invariant)
  show "fresh_node n \<Longrightarrow> src_order (src_init n d w)" for n :: "'h vp_node" and d :: 'd and w :: 'w
    by (simp add: src_order_def fresh_node_def)
qed (fact src_order_handle src_order_dispatch src_order_destroy
  src_order_owner src_order_world)+

text \<open>The script's caller outlives both threads.\<close>

lemma py_call_kept:
  assumes "src_reach ops call s" and "\<not> py_call s"
  shows "hpc s = SDone \<and> dpc s = DDone"
  using src_order_reach [OF assms(1)] assms(2) by (auto simp: src_order_def)

section \<open>The destructor finishes\<close>

text \<open>A move of the node's own threads or of the destructor.\<close>

definition src_move ::
    "('d, 'w) source_ops \<Rightarrow> (nat \<Rightarrow> 'w \<Rightarrow> py_outcome \<times> 'w)
      \<Rightarrow> ('h, 'w, 'd) src_sys \<Rightarrow> ('h, 'w, 'd) src_sys \<Rightarrow> bool" where
  "src_move ops call s t \<longleftrightarrow> src_thread ops call s t \<or> src_destroy ops s = Some t"

definition destroyed :: "('h, 'w, 'd) src_sys \<Rightarrow> bool" where
  "destroyed s \<longleftrightarrow> hpc s = SDone \<and> dpc s = DDone \<and> cpc s = CDone \<and> xpc s = XDone"

definition crashed :: "('h, 'w, 'd) src_sys \<Rightarrow> bool" where
  "crashed s \<longleftrightarrow> (\<exists>e. hpc s = SCrash e)"

definition in_loop :: "src_pc \<Rightarrow> bool" where
  "in_loop pc \<longleftrightarrow> pc \<notin> {SStart, SOpen, SDone}"

definition flag_due :: "('h, 'w, 'd) src_sys \<Rightarrow> bool" where
  "flag_due s \<longleftrightarrow> \<not> alive (nd s) \<and> hpc s \<notin> {SStart, SOpen} \<and>
     0 \<le> sem_count (out_queue_semaphore (nd s)) \<and>
     (hpc s = SDone \<and> dpc s = DWait \<longrightarrow> 0 < sem_count (out_queue_semaphore (nd s)))"

lemma src_move_cases:
  assumes "src_move ops call s t"
  obtains "src_handle_run ops call s = Some t" | "dispatch_run s = Some t"
  | "src_destroy ops s = Some t"
  using assms by (auto simp: src_move_def src_thread_iff)

lemma src_move_reach: "src_move ops call s t \<Longrightarrow> src_reach ops call s \<Longrightarrow> src_reach ops call t"
  by (auto simp: src_move_def intro: src_reach.step src_step.intros)

lemma flag_due_handle: "src_handle_run ops call s = Some t \<Longrightarrow> flag_due s \<Longrightarrow> flag_due t"
  by (erule src_handle_run_cases) (auto simp: flag_due_def)

lemma flag_due_dispatch: "dispatch_run s = Some t \<Longrightarrow> flag_due s \<Longrightarrow> flag_due t"
  by (erule dispatch_run_cases) (auto simp: flag_due_def sem_wait_Some_iff)

lemma flag_due_destroy:
  "src_destroy ops s = Some t \<Longrightarrow> flag_due s \<Longrightarrow> src_order s \<Longrightarrow> flag_due t"
proof (erule src_destroy_cases)
  assume "deinitialized (hpc s = SDone) s = Some t" "flag_due s"
  then show "flag_due t" by (elim deinitialized_cases) (auto simp: flag_due_def)
qed (auto simp: flag_due_def)

fun s_steps :: "src_pc \<Rightarrow> nat" where
  "s_steps SDone = 0"
| "s_steps (SCrash e) = 0"
| "s_steps SDeadSignal = 1"
| "s_steps SDeadPush = 2"
| "s_steps STop = 3"
| "s_steps SSleep = 4"
| "s_steps SSignal = 5"
| "s_steps (SHandle m) = 6"
| "s_steps (SPush m) = 7"
| "s_steps SGet = 8"
| "s_steps SAlive = 3"
| "s_steps SKnock = 4"
| "s_steps STopOpen = 5"
| "s_steps SOpen = 4"
| "s_steps SStart = 5"

fun x_steps :: "dtor_pc \<Rightarrow> nat" where
  "x_steps XClear = 4"
| "x_steps XPush = 3"
| "x_steps XSignal = 2"
| "x_steps XJoin = 1"
| "x_steps XDone = 0"
| "x_steps _ = 5"

definition src_steps_left :: "('h, 'w, 'd) src_sys \<Rightarrow> nat" where
  "src_steps_left s = s_steps (hpc s) + d_steps (dpc s) + c_steps (cpc s) + x_steps (xpc s)"

lemma src_steps_left_move:
  assumes "src_move ops call s t" and "\<not> alive (nd s)" and "src_order s"
  shows "src_steps_left t < src_steps_left s"
  using assms(1)
proof (cases rule: src_move_cases)
  case 1
  then show ?thesis
    using assms(2,3)
    by (cases rule: src_handle_run_cases) (auto simp: src_steps_left_def src_order_def)
next
  case 2
  then show ?thesis
    using assms(2) by (cases rule: dispatch_run_cases) (auto simp: src_steps_left_def)
next
  case 3
  from assms(2,3) have begun: "past_gate (xpc s)" by (auto simp: src_order_def)
  from 3 show ?thesis
  proof (cases rule: src_destroy_cases)
    case base
    from base(2) show ?thesis by (cases rule: deinitialized_cases) (auto simp: src_steps_left_def)
  qed (use begun in \<open>auto simp: src_steps_left_def\<close>)
qed

lemma src_steps_left_bound: "src_steps_left s \<le> 24"
proof -
  have "s_steps (hpc s) \<le> 8" by (cases "hpc s") auto
  moreover have "d_steps (dpc s) \<le> 6" by (cases "dpc s") auto
  moreover have "c_steps (cpc s) \<le> 5" by (cases "cpc s") auto
  moreover have "x_steps (xpc s) \<le> 5" by (cases "xpc s") auto
  ultimately show ?thesis unfolding src_steps_left_def by linarith
qed

lemma src_handle_enabled:
  assumes "src_order s" and "\<not> alive (nd s)" and "hpc s \<noteq> SDone" and "\<not> crashed s"
  shows "\<exists>t. src_handle_run ops call s = Some t"
proof -
  from assms(1,2) have g: "gate_opened (gate s)" and "source s \<noteq> None"
    by (auto simp: src_order_def)
  then obtain d where "source s = Some d" by blast
  with g assms(3,4) show ?thesis
    by (cases "hpc s") (auto simp: src_handle_run_def gate_knock_def crashed_def split: prod.split)
qed

lemma src_progress:
  assumes "src_reach ops call s" and "flag_due s" and "\<not> crashed s" and "\<not> destroyed s"
  shows "\<exists>t. src_move ops call s t"
proof -
  note ord = src_order_reach [OF assms(1)]
  have dead: "\<not> alive (nd s)" using assms(2) by (simp add: flag_due_def)
  with ord have x: "past_gate (xpc s)" by (auto simp: src_order_def)
  show ?thesis
  proof (cases "hpc s = SDone")
    case False
    from src_handle_enabled [OF ord dead this assms(3)] obtain t
      where "src_handle_run ops call s = Some t" by blast
    then show ?thesis by (auto simp: src_move_def intro: src_thread.handle)
  next
    case h: True
    show ?thesis
    proof (cases "dpc s = DDone")
      case False
      have "\<forall>e. dpc s \<noteq> DCrash e"
        using src_queue_inv_reach [OF assms(1)] by (simp add: src_queue_inv_def out_account_def)
      with False h assms(2) have "\<exists>t. dispatch_run s = Some t"
        by (cases "dpc s") (auto simp: dispatch_run_def sem_wait_def flag_due_def)
      then show ?thesis by (auto simp: src_move_def intro: src_thread.dispatch)
    next
      case True
      with h x dead ord assms(4) obtain t where "src_destroy ops s = Some t"
        by (cases "xpc s"; cases "cpc s")
          (auto simp: src_destroy_def deinitialized_def destroyed_def src_order_def)
      then show ?thesis by (auto simp: src_move_def)
    qed
  qed
qed

lemma src_moves_bound:
  assumes "src_reach ops call s" and "flag_due s" and "(src_move ops call ^^ k) s t"
  shows "src_reach ops call t \<and> flag_due t \<and> k + src_steps_left t \<le> src_steps_left s"
  using assms(3)
proof (induction k arbitrary: t)
  case 0
  then show ?case using assms(1,2) by simp
next
  case (Suc k)
  then obtain u where "(src_move ops call ^^ k) s u" and ut: "src_move ops call u t" by auto
  with Suc.IH have u: "src_reach ops call u" "flag_due u"
    "k + src_steps_left u \<le> src_steps_left s" by blast+
  note ord = src_order_reach [OF u(1)]
  have "flag_due t" using ut
    by (cases rule: src_move_cases)
      (use u(2) ord in \<open>auto intro: flag_due_handle flag_due_dispatch flag_due_destroy\<close>)
  moreover have "src_steps_left t < src_steps_left u"
    using src_steps_left_move [OF ut _ ord] u(2) by (simp add: flag_due_def)
  ultimately show ?case using u(3) src_move_reach [OF ut u(1)] by simp
qed

lemma in_loop_flag_due:
  assumes "src_reach ops call s" and "\<not> alive (nd s)" and "in_loop (hpc s)"
  shows "flag_due s"
  using assms src_queue_inv_reach [OF assms(1)]
  by (auto simp: flag_due_def in_loop_def src_queue_inv_def out_account_def)

section \<open>The destructor that never finishes\<close>

text \<open>
  In these states the destructor waits for the dispatch thread, and the dispatch thread for
  a signal that nobody will send.
\<close>

definition join_deadlock :: "('h, 'w, 'd) src_sys \<Rightarrow> bool" where
  "join_deadlock s \<longleftrightarrow> hpc s = SDone \<and> dpc s = DWait \<and> cpc s = CJoinDispatch \<and> xpc s = XBase \<and>
     sem_count (out_queue_semaphore (nd s)) \<le> 0"

lemma join_deadlock_stuck: "join_deadlock s \<Longrightarrow> \<not> src_step ops call s t"
  by (auto simp: join_deadlock_def src_step_iff src_thread_iff src_handle_run_def
      dispatch_run_def src_destroy_def deinitialized_def sem_wait_def split: option.splits)

abbreviation destroy_to_join :: "src_action list" where
  "destroy_to_join \<equiv> [ADestroy, ADestroy, ADestroy, ADestroy]"

lemmas src_run_defs = src_handle_run_def dispatch_run_def src_destroy_def deinitialized_def
  src_start_def src_stop_def

lemma open_failure_deadlock:
  fixes n :: "'h vp_node" and ops :: "('d, 'w) source_ops"
  assumes "fresh_node n" and "\<not> so_is_open ops d" and "\<not> fst (so_open ops d)"
  shows "\<exists>s :: ('h, 'w, 'd) src_sys. src_reach ops call s \<and> delivered s = [] \<and> join_deadlock s"
proof -
  let ?as = "[AHandle, AHandle, ADispatch, ADestroy, ADestroy] @ destroy_to_join"
  obtain d' where o: "so_open ops d = (False, d')" using assms(3) by (cases "so_open ops d") auto
  obtain t where t: "src_run ops call ?as (src_init n d w) = Some t"
    and "delivered t = [] \<and> join_deadlock t"
    using assms o by (auto simp: src_run_defs fresh_node_def join_deadlock_def)
  moreover from t have "src_reach ops call t"
    using src_reach.init [OF assms(1)] by (rule src_run_reach)
  ultimately show ?thesis by blast
qed

lemma close_race_deadlock:
  fixes n :: "'h vp_node" and ops :: "('d, 'w) source_ops"
  assumes "fresh_node n" and "so_is_open ops d" and "\<not> so_is_open ops (so_close ops d)"
  shows "\<exists>s :: ('h, 'w, 'd) src_sys. src_reach ops call s \<and> join_deadlock s"
proof -
  let ?as = "[AHandle, ADestroy, AHandle, AHandle, AHandle, AHandle,
    ADispatch, ADispatch, ADispatch, ADispatch, ADestroy] @ destroy_to_join"
  obtain t where t: "src_run ops call ?as (src_init n d w) = Some t" and "join_deadlock t"
    using assms by (auto simp: src_run_defs fresh_node_def join_deadlock_def sem_wait_def
      sem_signal_def Front_def Push_def)
  moreover from t have "src_reach ops call t"
    using src_reach.init [OF assms(1)] by (rule src_run_reach)
  ultimately show ?thesis by blast
qed

end
