(* ===== verification/SourceProperties.thy ===== *)
theory SourceProperties
  imports SrcShutdown
begin

text \<open>
  The source node and its data source: the properties C14 to C19 of the development. The
  witnesses run the node of the repository, an image source, with a small stand-in for OpenCV.
\<close>

section \<open>A concrete run\<close>

definition demo_image :: cv_mat where
  "demo_image = \<lparr>mat_rows = 1, mat_cols = 1, mat_channels = 1, mat_step0 = 1, mat_step1 = 1,
     mat_buffer = 0, mat_offset = 0\<rparr>"

definition demo_cv :: opencv where
  "demo_cv = \<lparr>cv_imread = (\<lambda>path mem. (demo_image, mem(0 \<mapsto> [7]))),
     cv_resize = (\<lambda>ratio m mem. (m, mem)),
     cv_clone = (\<lambda>m mem. (m\<lparr>mat_buffer := 1\<rparr>, mem(1 \<mapsto> [7])))\<rparr>"

definition demo_ops :: "(vp_image_data_source, frame_world) source_ops" where
  "demo_ops = image_source_ops (\<lambda>path. True) demo_cv 0"

definition demo_call :: "nat \<Rightarrow> frame_world \<Rightarrow> py_outcome \<times> frame_world" where
  "demo_call m w = (py_none, w)"

definition demo_source :: vp_image_data_source where
  "demo_source = projr (vp_image_data_source_ctor 0 ''TEST.png'' 1 1 True)"

definition src_demo_start :: "(unit, frame_world, vp_image_data_source) src_sys" where
  "src_demo_start = src_init ((vp_node_ctor ''source'')\<lparr>node_type := SRC\<rparr>) demo_source
     \<lparr>fw_memory = Map.empty, fw_metas = []\<rparr>"

definition src_demo_schedule :: "src_action list" where
  "src_demo_schedule = [AHandle, AHandle, AStart, AHandle, AHandle, AHandle, AHandle, AHandle,
     AHandle, AHandle, AHandle, ADispatch, ADispatch, ADispatch, ADispatch, ADispatch]"

definition src_demo_state :: "(unit, frame_world, vp_image_data_source) src_sys" where
  "src_demo_state = the (src_run demo_ops demo_call src_demo_schedule src_demo_start)"

lemmas src_demo_defs = src_demo_start_def src_demo_schedule_def demo_ops_def demo_call_def
  demo_source_def demo_cv_def demo_image_def vp_image_data_source_ctor_def vp_data_source_ctor_def
  image_source_ops_def image_open_def image_read_def get_frame_meta_def vp_frame_meta_ctor_def
  is_open_def mat_empty_def src_handle_frame_meta_def process_def vp_data_source.defs
  vp_image_data_source.defs vp_node_ctor_def ts_queue_new_def vp_semaphore_new_def
  src_init_def node_sys_init_def node_sys.defs src_run_defs
  gate_knock_def gate_open_def vp_gate_new_def Push_def Front_def Size_def sem_wait_def
  sem_signal_def invoke_defs call_hooker_def no_hookers_def Let_def

lemma src_demo_run_exists:
  "\<exists>s. src_run demo_ops demo_call src_demo_schedule src_demo_start = Some s \<and>
    processed s = [0] \<and> delivered s = [0] \<and> hpc s = SSleep \<and> dpc s = DPop \<and> cpc s = CRun \<and>
    xpc s = XIdle \<and> alive (nd s) \<and> gate_opened (gate s)"
  by (simp add: src_demo_defs)

lemma src_demo_run:
  "src_run demo_ops demo_call src_demo_schedule src_demo_start = Some src_demo_state"
  "processed src_demo_state = [0]" "delivered src_demo_state = [0]" "hpc src_demo_state = SSleep"
  "dpc src_demo_state = DPop" "xpc src_demo_state = XIdle" "cpc src_demo_state = CRun"
  "alive (nd src_demo_state)" "gate_opened (gate src_demo_state)"
  using src_demo_run_exists by (auto simp: src_demo_state_def)

lemma src_demo_start_reach: "src_reach demo_ops demo_call src_demo_start"
  unfolding src_demo_start_def
  by (rule src_reach.init) (simp add: fresh_node_def vp_node_ctor_def ts_queue_new_def vp_semaphore_new_def)

lemma src_demo_reach: "src_reach demo_ops demo_call src_demo_state"
  by (rule src_run_reach [OF src_demo_run(1) src_demo_start_reach])

section \<open>Frames\<close>

text \<open>
  C14. A frame is processed before it is delivered: the frames a source node has handed to its
  subscribers are a prefix of those the Python script has finished with, in the same order,
  although the frame enters the out-queue before the script runs; and the dispatch thread never
  finds the queue empty.
\<close>

theorem processed_before_delivered:
  assumes "src_reach ops call s"
  shows "(\<exists>rest. processed s = delivered s @ rest) \<and> dpc s \<noteq> DCrash e"
  using delivered_after_processed [OF assms] src_queue_inv_reach [OF assms]
  by (simp add: src_queue_inv_def out_account_def)

theorem processed_before_delivered_witness:
  "\<exists>rest. processed src_demo_state = delivered src_demo_state @ rest"
  using processed_before_delivered [OF src_demo_reach] by blast

text \<open>
  C15. Stopping the node: while the gate stays closed the threads of a source node emit at most
  one more frame, however long they run, and none when the handle thread was not past the gate;
  in particular nothing is emitted before \<open>start\<close>.
\<close>

theorem stopped_node_emits_at_most_one:
  assumes "(src_thread ops call ^^ k) s t" and "\<not> gate_opened (gate s)"
  shows "\<exists>ms. emitted t = emitted s @ ms \<and> length ms \<le> in_flight (hpc s) \<and> length ms \<le> 1"
proof -
  have "in_flight (hpc s) \<le> 1" by (simp add: in_flight_def split: src_pc.split)
  then show ?thesis using paused_run [OF assms] by fastforce
qed

theorem stopped_node_emits_at_most_one_witness:
  "\<exists>t. src_thread demo_ops demo_call src_demo_start t \<and> emitted t = []"
proof -
  obtain t where t: "src_thread demo_ops demo_call src_demo_start t"
    by (auto simp: src_thread_iff src_demo_defs)
  then have "(src_thread demo_ops demo_call ^^ 1) src_demo_start t" by (simp add: eq_OO)
  from stopped_node_emits_at_most_one [OF this] have "emitted t = []"
    by (simp add: src_demo_start_def vp_gate_new_def in_flight_def)
  with t show ?thesis by blast
qed

section \<open>Destruction\<close>

text \<open>
  C16. The destructor of a source node, \<open>~vp_node\<close> included, returns when it clears \<open>alive\<close>
  while the handle thread is in its loop, or on its way out of it: the destructor and the two
  threads take at most 24 more steps, under every schedule, and until all three have returned
  one of them can go on, unless an exception of the source or of the Python call has ended the
  handle thread. The caller of the Python script is given up only after both threads have
  returned.
\<close>

theorem destructor_returns:
  assumes "src_reach ops call s" and "\<not> alive (nd s)" and "in_loop (hpc s)"
    and "(src_move ops call ^^ k) s t"
  shows "k \<le> 24 \<and> (destroyed t \<or> crashed t \<or> (\<exists>u. src_move ops call t u)) \<and>
    (py_call t \<or> hpc t = SDone \<and> dpc t = DDone)"
proof -
  have "flag_due s" using assms(1-3) by (rule in_loop_flag_due)
  from src_moves_bound [OF assms(1) this assms(4)] src_steps_left_bound [of s]
  show ?thesis using src_progress [of ops call t] py_call_kept [of ops call t] by auto
qed

definition src_dying_state :: "(unit, frame_world, vp_image_data_source) src_sys" where
  "src_dying_state = the (src_run demo_ops demo_call [ADestroy, ADestroy, ADestroy] src_demo_state)"

lemma src_dying_run:
  "src_run demo_ops demo_call [ADestroy, ADestroy, ADestroy] src_demo_state = Some src_dying_state"
  "\<not> alive (nd src_dying_state)" "hpc src_dying_state = SSleep"
  by (simp_all add: src_dying_state_def src_run_defs src_demo_run)

lemma src_dying_reach: "src_reach demo_ops demo_call src_dying_state"
  by (rule src_run_reach [OF src_dying_run(1) src_demo_reach])

theorem destructor_returns_witness:
  "\<exists>u. src_move demo_ops demo_call src_dying_state u"
  using destructor_returns [OF src_dying_reach, where k = 0 and t = src_dying_state] src_dying_run
  by (simp add: in_loop_def destroyed_def crashed_def)

text \<open>
  C17. When the data source cannot be opened, which for the image source is a missing file, the
  destructor may never return: \<open>handle_run\<close> leaves without the dead flag for the dispatch
  thread, which waits at its semaphore while the destructor waits to join it, and no thread of
  the program can take another step.
\<close>

theorem open_failure_blocks_destructor:
  fixes n :: "'h vp_node" and ops :: "('d, 'w) source_ops"
  assumes "fresh_node n" and "\<not> so_is_open ops d" and "\<not> fst (so_open ops d)"
  shows "\<exists>s :: ('h, 'w, 'd) src_sys. src_reach ops call s \<and> delivered s = [] \<and>
    \<not> destroyed s \<and> cpc s = CJoinDispatch \<and> (\<forall>t. \<not> src_step ops call s t)"
proof -
  obtain s :: "('h, 'w, 'd) src_sys" where s: "src_reach ops call s" "delivered s = []" "join_deadlock s"
    using open_failure_deadlock [OF assms] by blast
  then show ?thesis using join_deadlock_stuck [OF s(3)]
    by (intro exI [of _ s]) (auto simp: join_deadlock_def destroyed_def)
qed

theorem open_failure_blocks_destructor_witness:
  "\<exists>s :: (unit, frame_world, vp_image_data_source) src_sys.
    src_reach (image_source_ops (\<lambda>path. False) demo_cv 0) demo_call s \<and>
    (\<forall>t. \<not> src_step (image_source_ops (\<lambda>path. False) demo_cv 0) demo_call s t)"
proof -
  let ?ops = "image_source_ops (\<lambda>path. False) demo_cv 0"
  have "\<not> so_is_open ?ops demo_source" "\<not> fst (so_open ?ops demo_source)"
    by (simp_all add: src_demo_defs)
  from open_failure_blocks_destructor
    [OF fresh_vp_node_ctor [of "''source''", where 'a = unit] this, of demo_call]
  show ?thesis by blast
qed

text \<open>
  C18. Nor may it return when the handle thread leaves its loop because the destructor has closed
  the data source, before it has cleared \<open>alive\<close>: the dispatch thread takes the dead flag for an
  entry to skip, leaves it in the queue, finds \<open>alive\<close> still set and waits for a signal that
  nobody will send.
\<close>

theorem close_race_blocks_destructor:
  fixes n :: "'h vp_node" and ops :: "('d, 'w) source_ops"
  assumes "fresh_node n" and "so_is_open ops d" and "\<not> so_is_open ops (so_close ops d)"
  shows "\<exists>s :: ('h, 'w, 'd) src_sys. src_reach ops call s \<and> \<not> destroyed s \<and>
    cpc s = CJoinDispatch \<and> (\<forall>t. \<not> src_step ops call s t)"
proof -
  obtain s :: "('h, 'w, 'd) src_sys" where s: "src_reach ops call s" "join_deadlock s"
    using close_race_deadlock [OF assms] by blast
  then show ?thesis using join_deadlock_stuck [OF s(2)]
    by (intro exI [of _ s]) (auto simp: join_deadlock_def destroyed_def)
qed

theorem close_race_blocks_destructor_witness:
  "\<exists>s :: (unit, frame_world, vp_image_data_source) src_sys.
    src_reach demo_ops demo_call s \<and> (\<forall>t. \<not> src_step demo_ops demo_call s t)"
proof -
  let ?d = "demo_source\<lparr>ds_is_opened := True\<rparr>"
  have "so_is_open demo_ops ?d" "\<not> so_is_open demo_ops (so_close demo_ops ?d)"
    by (simp_all add: src_demo_defs image_close_def)
  from close_race_blocks_destructor
    [OF fresh_vp_node_ctor [of "''source''", where 'a = unit] this, of demo_call]
  show ?thesis by blast
qed

section \<open>The data source\<close>

text \<open>
  The frames an image source yields are numbered consecutively and carry its channel: the
  \<open>i\<close>th of a run of successful \<open>get_frame_meta\<close> calls has the index of the source plus one plus
  \<open>i\<close>.
\<close>

lemma frame_indices_consecutive:
  assumes "image_frames cv now n s mem = Inr (ms, s', mem')" and "i < length ms"
  shows "frame_index (ms ! i) = ds_frame_index s + 1 + int i \<and>
    channel_index (ms ! i) = ds_channel_index s \<and> length ms \<le> n"
  using image_frames_indices [OF assms(1)] assms(2) by simp

section \<open>The Python interpreter\<close>

text \<open>An interpreter as documented: whether it runs and the thread that holds the lock.\<close>

definition demo_embedding :: "(bool \<times> py_thread option, py_thread option) embedding" where
  "demo_embedding = \<lparr>emb_running = fst, emb_holder = snd,
     emb_init = (\<lambda>t p. if fst p then Inl already_running else Inr (True, Some t)),
     emb_final = (\<lambda>t p. (False, None)),
     emb_acquire = (\<lambda>t p. if snd p = None \<or> snd p = Some t then Some (snd p, (fst p, Some t)) else None),
     emb_drop = (\<lambda>t g p. (fst p, g)),
     emb_yield = (\<lambda>t p. (fst p, None)),
     emb_resume = (\<lambda>t p. if snd p = None then Some (fst p, Some t) else None),
     emb_append = (\<lambda>d p. p)\<rparr>"

lemma demo_embedding_ok: "embedding_ok demo_embedding"
  by (auto simp: embedding_ok_def demo_embedding_def holds_def restores_def)

definition demo_process :: "(bool \<times> py_thread option, py_thread option, unit) py_process" where
  "demo_process = \<lparr>interp = (True, Some (Handler 0)), objects = (\<lambda>i. MNone)(0 := MLive),
     calls_of = (\<lambda>i. CIdle)(0 := CLocked None 7), results = [], py_world = ()\<rparr>"

lemma demo_process_reach:
  "py_reach demo_embedding ''project'' (\<lambda>i. 0) (\<lambda>m w. (py_none, w)) demo_process"
proof -
  let ?reach = "py_reach demo_embedding ''project'' (\<lambda>i. 0) (\<lambda>m w. (py_none, w))"
  let ?at = "\<lambda>x h. \<lparr>interp = (True, h), objects = (\<lambda>i. MNone)(0 := x), calls_of = (\<lambda>i. CIdle),
    results = [], py_world = ()\<rparr>"
  have "?reach (py_start (False, None) ())" by (rule py_reach.start) (simp add: demo_embedding_def)
  then have "?reach (?at MGuard (Some (Owner 0)))"
    by (rule py_reach.object [of _ _ _ _ _ 0]) (simp add: method_run_def demo_embedding_def py_start_def Let_def)
  then have "?reach (?at (MEnsure (Some (Owner 0))) (Some (Owner 0)))"
    by (rule py_reach.object [of _ _ _ _ _ 0]) (simp add: method_run_def demo_embedding_def Let_def)
  then have "?reach (?at (MPath (Some (Owner 0))) (Some (Owner 0)))"
    by (rule py_reach.object [of _ _ _ _ _ 0]) (simp add: method_run_def demo_embedding_def Let_def)
  then have "?reach (?at MEnsured (Some (Owner 0)))"
    by (rule py_reach.object [of _ _ _ _ _ 0]) (simp add: method_run_def demo_embedding_def Let_def)
  then have "?reach (?at MLive None)"
    by (rule py_reach.object [of _ _ _ _ _ 0]) (simp add: method_run_def demo_embedding_def Let_def)
  then show ?thesis
    by (rule py_reach.call [of _ _ _ _ _ 0 7])
      (simp add: call_run_def demo_embedding_def demo_process_def)
qed

text \<open>
  C19. A process has one source node at a time: every source node starts the Python interpreter,
  so that while a first one exists, with whatever its threads and other owners are doing, the
  constructor of a second one throws, for every name, channel and ratio. For the same reason
  nobody ever waits for the lock of the interpreter: the statements of the constructor and the
  destructor (once the threads have been joined) and each call of the script can go on at once.
\<close>

theorem one_source_node:
  assumes "embedding_ok emb" and "py_reach emb project own call s" and "active (objects s i)"
  shows "vp_src_node_ctor emb project t name channel ratio w (interp s) = Some (Inl already_running) \<and>
    (\<forall>j. active (objects s j) \<longrightarrow> j = i) \<and>
    (calls_of s i = CIdle \<longrightarrow> method_run emb project own i s \<noteq> None) \<and>
    (objects s i = MLive \<longrightarrow> call_run emb call i m s \<noteq> None)"
proof -
  have inv: "py_inv emb own s" using assms(1,2) by (rule py_inv_reach)
  then have "lock_inv emb (Owner (own i)) (Handler i) (interp s) (objects s i) (calls_of s i)"
    by (simp add: py_inv_def)
  from lock_inv_active [OF this assms(3)] have "vp_src_node_ctor emb project t name channel ratio w (interp s) = Some (Inl already_running)"
    using python_method_ctor_ok(1) [OF assms(1)] image_data_source_test [of channel]
    by (auto simp: vp_src_node_ctor_def)
  then show ?thesis
    using inv assms(3) method_not_blocked [OF assms(1) inv assms(3)] call_not_blocked [OF assms(1) inv]
    by (auto simp: py_inv_def)
qed

theorem one_source_node_witness:
  "vp_src_node_ctor demo_embedding ''project'' (Owner 0) ''second'' 1 1 () (interp demo_process) =
     Some (Inl already_running) \<and>
   call_run demo_embedding (\<lambda>m w. (py_none, w)) 0 7 demo_process \<noteq> None"
proof
  note once = one_source_node [OF demo_embedding_ok demo_process_reach, of 0]
  show "vp_src_node_ctor demo_embedding ''project'' (Owner 0) ''second'' 1 1 () (interp demo_process) =
      Some (Inl already_running)"
    by (rule once [THEN conjunct1]) (simp add: demo_process_def)
  show "call_run demo_embedding (\<lambda>m w. (py_none, w)) 0 7 demo_process \<noteq> None"
    by (rule once [THEN conjunct2, THEN conjunct2, THEN conjunct2, rule_format])
      (simp_all add: demo_process_def)
qed

end
