(* ===== verification/Pipeline.thy ===== *)
theory Pipeline
  imports NodeShutdown SrcShutdown
begin

text \<open>
  A whole pipeline: any number of source nodes and of other nodes, running together. The dispatch
  thread of a node performs \<open>push_meta\<close> in the steps of the code: it takes the lock of the
  subscriber list, and for each subscriber puts the meta into the in-queue, calls the arriving
  hooker and signals, one after the other, while all other threads go on. The owner of a source
  node may \<open>speak\<close>, which pushes a control meta under the same lock. The metas are shared: one
  world, that every handler may change. The node graph is the one the nodes were attached to
  before; attaching and detaching a running node is not part of this model.
\<close>

section \<open>State and steps\<close>

datatype publisher = SrcPub nat | NodePub nat

text \<open>
  Where a publisher is inside \<open>push_meta\<close>: whether the meta was spoken, the meta, the subscriber
  being served, if any, and those that remain.
\<close>

datatype push_pc =
    PIdle
  | PNext bool nat "nat list"
  | PHook bool nat nat "nat list"
  | PSignal bool nat nat "nat list"

record ('h, 'w, 'd) pipeline =
  srcs :: "nat \<Rightarrow> ('h, 'w, 'd) src_sys"
  mids :: "nat \<Rightarrow> ('h, 'w, handle_pc) node_sys"
  pushing :: "publisher \<Rightarrow> push_pc"
  metas :: 'w

fun pub_subs :: "('h, 'w, 'd) pipeline \<Rightarrow> publisher \<Rightarrow> nat list" where
  "pub_subs P (SrcPub k) = subscribers (nd (srcs P k))"
| "pub_subs P (NodePub i) = subscribers (nd (mids P i))"

fun pub_dpc :: "('h, 'w, 'd) pipeline \<Rightarrow> publisher \<Rightarrow> dispatch_pc" where
  "pub_dpc P (SrcPub k) = dpc (srcs P k)"
| "pub_dpc P (NodePub i) = dpc (mids P i)"

fun pub_delivered :: "('h, 'w, 'd) pipeline \<Rightarrow> publisher \<Rightarrow> nat list" where
  "pub_delivered P (SrcPub k) = delivered (srcs P k)"
| "pub_delivered P (NodePub i) = delivered (mids P i)"

text \<open>
  The actions of a node that stay inside it: all but the call of \<open>push_meta\<close>, and the steps of
  upstream threads, which the publishers take.
\<close>

definition own_act ::
    "'w methods \<Rightarrow> node_action \<Rightarrow> ('h, 'w, handle_pc) node_sys
      \<Rightarrow> ('h, 'w, handle_pc) node_sys option" where
  "own_act vm a s = (case a of
      NHandle \<Rightarrow> handle_run vm s
    | NDispatch \<Rightarrow> (case dpc s of DPush m \<Rightarrow> None | _ \<Rightarrow> dispatch_run s)
    | NControl \<Rightarrow> deinitialized (hpc s = HDone) s
    | _ \<Rightarrow> None)"

definition src_own_act ::
    "('d, 'w) source_ops \<Rightarrow> (nat \<Rightarrow> 'w \<Rightarrow> py_outcome \<times> 'w) \<Rightarrow> src_action
      \<Rightarrow> ('h, 'w, 'd) src_sys \<Rightarrow> ('h, 'w, 'd) src_sys option" where
  "src_own_act ops call a s = (case (a, dpc s) of
      (ADispatch, DPush m) \<Rightarrow> None
    | _ \<Rightarrow> src_act ops call a s)"

text \<open>The three statements of \<open>meta_flow\<close> in the subscriber.\<close>

definition flow_pushed :: "nat \<Rightarrow> ('h, 'w, handle_pc) node_sys \<Rightarrow> ('h, 'w, handle_pc) node_sys" where
  "flow_pushed m s = s\<lparr>nd := (nd s)\<lparr>in_queue := Push (Some m) (in_queue (nd s))\<rparr>,
     flows := add_mset m (flows s), arrived := arrived s @ [m]\<rparr>"

definition flow_hooked :: "nat \<Rightarrow> ('h, 'w, handle_pc) node_sys \<Rightarrow> ('h, 'w, handle_pc) node_sys" where
  "flow_hooked m s = s\<lparr>hook_log := hook_log s @
     invoke_meta_arriving_hooker (hookers (nd s)) (node_name (nd s)) (Size (in_queue (nd s))) m,
     flows := flows s - {#m#}, signalling := Suc (signalling s)\<rparr>"

definition flow_signalled :: "('h, 'w, handle_pc) node_sys \<Rightarrow> ('h, 'w, handle_pc) node_sys" where
  "flow_signalled s = s\<lparr>nd := (nd s)\<lparr>in_queue_semaphore := sem_signal (in_queue_semaphore (nd s))\<rparr>,
     signalling := signalling s - 1\<rparr>"

definition set_push :: "publisher \<Rightarrow> push_pc \<Rightarrow> ('h, 'w, 'd) pipeline \<Rightarrow> ('h, 'w, 'd) pipeline" where
  "set_push p x P = P\<lparr>pushing := (pushing P)(p := x)\<rparr>"

definition set_mid :: "nat \<Rightarrow> ('h, 'w, handle_pc) node_sys \<Rightarrow> ('h, 'w, 'd) pipeline \<Rightarrow> ('h, 'w, 'd) pipeline" where
  "set_mid v s P = P\<lparr>mids := (mids P)(v := s)\<rparr>"

definition set_src :: "nat \<Rightarrow> ('h, 'w, 'd) src_sys \<Rightarrow> ('h, 'w, 'd) pipeline \<Rightarrow> ('h, 'w, 'd) pipeline" where
  "set_src k s P = P\<lparr>srcs := (srcs P)(k := s)\<rparr>"

text \<open>\<open>dispatch_run\<close> goes on after its call of \<open>push_meta\<close>.\<close>

fun dispatched :: "publisher \<Rightarrow> ('h, 'w, 'd) pipeline \<Rightarrow> ('h, 'w, 'd) pipeline option" where
  "dispatched (SrcPub k) P = map_option (\<lambda>t. set_src k t P) (dispatch_run (srcs P k))"
| "dispatched (NodePub i) P = map_option (\<lambda>t. set_mid i t P) (dispatch_run (mids P i))"

text \<open>One statement of \<open>push_meta\<close>, called by the dispatch thread of \<open>p\<close> or by \<open>speak\<close>.\<close>

definition push_act :: "publisher \<Rightarrow> ('h, 'w, 'd) pipeline \<Rightarrow> ('h, 'w, 'd) pipeline option" where
  "push_act p P = (case pushing P p of
      PIdle \<Rightarrow> (case pub_dpc P p of
          DPush m \<Rightarrow> Some (set_push p (PNext False m (pub_subs P p)) P)
        | _ \<Rightarrow> None)
    | PNext b m (v # vs) \<Rightarrow> Some (set_push p (PHook b m v vs) (set_mid v (flow_pushed m (mids P v)) P))
    | PHook b m v vs \<Rightarrow> Some (set_push p (PSignal b m v vs) (set_mid v (flow_hooked m (mids P v)) P))
    | PSignal b m v vs \<Rightarrow> Some (set_push p (PNext b m vs) (set_mid v (flow_signalled (mids P v)) P))
    | PNext True m [] \<Rightarrow> Some (set_push p PIdle P)
    | PNext False m [] \<Rightarrow> map_option (set_push p PIdle) (dispatched p P))"

text \<open>
  \<open>vm i\<close> are the handlers of node \<open>i\<close>; \<open>ctl\<close> says which addresses are control metas, the only
  ones that \<open>speak\<close> makes. A thread reads and writes the shared world.
\<close>

datatype pipe_action =
    AtNode nat node_action
  | AtSource nat src_action
  | Pushing publisher
  | Speaking nat nat

fun pipe_act ::
  "('d, 'w) source_ops \<Rightarrow> (nat \<Rightarrow> 'w \<Rightarrow> py_outcome \<times> 'w) \<Rightarrow> (nat \<Rightarrow> 'w methods) \<Rightarrow> (nat \<Rightarrow> bool)
    \<Rightarrow> pipe_action \<Rightarrow> ('h, 'w, 'd) pipeline \<Rightarrow> ('h, 'w, 'd) pipeline option" where
  "pipe_act ops call vm ctl (AtNode i a) P =
     map_option (\<lambda>t. (set_mid i t P)\<lparr>metas := world t\<rparr>)
       (own_act (vm i) a ((mids P i)\<lparr>world := metas P\<rparr>))"
| "pipe_act ops call vm ctl (AtSource k a) P =
     map_option (\<lambda>t. (set_src k t P)\<lparr>metas := world t\<rparr>)
       (src_own_act ops call a ((srcs P k)\<lparr>world := metas P\<rparr>))"
| "pipe_act ops call vm ctl (Pushing p) P = push_act p P"
| "pipe_act ops call vm ctl (Speaking k m) P =
     (if pushing P (SrcPub k) = PIdle \<and> ctl m
      then Some (set_push (SrcPub k) (PNext True m (pub_subs P (SrcPub k))) P) else None)"

definition pipe_init ::
    "(nat \<Rightarrow> 'h vp_node) \<Rightarrow> (nat \<Rightarrow> 'd) \<Rightarrow> (nat \<Rightarrow> 'h vp_node) \<Rightarrow> 'w \<Rightarrow> ('h, 'w, 'd) pipeline" where
  "pipe_init sn ds n w = \<lparr>srcs = (\<lambda>k. src_init (sn k) (ds k) w),
     mids = (\<lambda>i. node_sys_init (n i) HTop w), pushing = (\<lambda>p. PIdle), metas = w\<rparr>"

inductive pipe_reach ::
  "('d, 'w) source_ops \<Rightarrow> (nat \<Rightarrow> 'w \<Rightarrow> py_outcome \<times> 'w) \<Rightarrow> (nat \<Rightarrow> 'w methods) \<Rightarrow> (nat \<Rightarrow> bool)
    \<Rightarrow> ('h, 'w, 'd) pipeline \<Rightarrow> bool"
  for ops call vm ctl where
  init: "(\<And>k. fresh_node (sn k)) \<Longrightarrow> (\<And>i. fresh_node (n i)) \<Longrightarrow>
    pipe_reach ops call vm ctl (pipe_init sn ds n w)"
| step: "pipe_reach ops call vm ctl P \<Longrightarrow> pipe_act ops call vm ctl a P = Some Q \<Longrightarrow>
    pipe_reach ops call vm ctl Q"

fun pipe_run ::
  "('d, 'w) source_ops \<Rightarrow> (nat \<Rightarrow> 'w \<Rightarrow> py_outcome \<times> 'w) \<Rightarrow> (nat \<Rightarrow> 'w methods) \<Rightarrow> (nat \<Rightarrow> bool)
    \<Rightarrow> pipe_action list \<Rightarrow> ('h, 'w, 'd) pipeline \<Rightarrow> ('h, 'w, 'd) pipeline option" where
  "pipe_run ops call vm ctl [] P = Some P"
| "pipe_run ops call vm ctl (a # as) P = (case pipe_act ops call vm ctl a P of
      None \<Rightarrow> None | Some Q \<Rightarrow> pipe_run ops call vm ctl as Q)"

lemma pipe_run_reach:
  "pipe_run ops call vm ctl as P = Some Q \<Longrightarrow> pipe_reach ops call vm ctl P \<Longrightarrow>
    pipe_reach ops call vm ctl Q"
  by (induction as arbitrary: P) (auto split: option.splits intro: pipe_reach.step)

lemma pipe_run_append:
  "pipe_run ops call vm ctl (as @ bs) P =
    Option.bind (pipe_run ops call vm ctl as P) (pipe_run ops call vm ctl bs)"
  by (induction as arbitrary: P) (auto split: option.split)

lemma set_simps [simp]:
  "srcs (set_push p x P) = srcs P" "mids (set_push p x P) = mids P" "metas (set_push p x P) = metas P"
  "pushing (set_push p x P) = (pushing P)(p := x)"
  "srcs (set_mid v s P) = srcs P" "mids (set_mid v s P) = (mids P)(v := s)"
  "metas (set_mid v s P) = metas P" "pushing (set_mid v s P) = pushing P"
  "srcs (set_src k r P) = (srcs P)(k := r)" "mids (set_src k r P) = mids P"
  "metas (set_src k r P) = metas P" "pushing (set_src k r P) = pushing P"
  by (simp_all add: set_push_def set_mid_def set_src_def)

lemma flow_simps [simp]:
  "nd (flow_pushed m s) = (nd s)\<lparr>in_queue := Push (Some m) (in_queue (nd s))\<rparr>"
  "nd (flow_hooked m s) = nd s"
  "nd (flow_signalled s) = (nd s)\<lparr>in_queue_semaphore := sem_signal (in_queue_semaphore (nd s))\<rparr>"
  "flows (flow_pushed m s) = add_mset m (flows s)" "flows (flow_hooked m s) = flows s - {#m#}"
  "flows (flow_signalled s) = flows s" "signalling (flow_pushed m s) = signalling s"
  "signalling (flow_hooked m s) = Suc (signalling s)"
  "signalling (flow_signalled s) = signalling s - 1"
  "arrived (flow_pushed m s) = arrived s @ [m]" "arrived (flow_hooked m s) = arrived s"
  "arrived (flow_signalled s) = arrived s"
  "delivered (flow_pushed m s) = delivered s" "delivered (flow_hooked m s) = delivered s"
  "delivered (flow_signalled s) = delivered s"
  "dpc (flow_pushed m s) = dpc s" "dpc (flow_hooked m s) = dpc s" "dpc (flow_signalled s) = dpc s"
  by (simp_all add: flow_pushed_def flow_hooked_def flow_signalled_def)

text \<open>The statements of \<open>push_meta\<close>, one case each.\<close>

lemma push_act_cases:
  assumes "push_act p P = Some Q"
  obtains (start) m where "pushing P p = PIdle" "pub_dpc P p = DPush m"
      "Q = set_push p (PNext False m (pub_subs P p)) P"
  | (flow_push) b m v vs where "pushing P p = PNext b m (v # vs)"
      "Q = set_push p (PHook b m v vs) (set_mid v (flow_pushed m (mids P v)) P)"
  | (flow_hook) b m v vs where "pushing P p = PHook b m v vs"
      "Q = set_push p (PSignal b m v vs) (set_mid v (flow_hooked m (mids P v)) P)"
  | (flow_signal) b m v vs where "pushing P p = PSignal b m v vs"
      "Q = set_push p (PNext b m vs) (set_mid v (flow_signalled (mids P v)) P)"
  | (spoken) m where "pushing P p = PNext True m []" "Q = set_push p PIdle P"
  | (pushed) m R where "pushing P p = PNext False m []" "dispatched p P = Some R"
      "Q = set_push p PIdle R"
  using assms
  by (auto simp: push_act_def split: push_pc.splits dispatch_pc.splits list.splits bool.splits)

section \<open>What the steps leave alone\<close>

lemma handle_run_keeps: "handle_run vm s = Some t \<Longrightarrow>
    subscribers (nd t) = subscribers (nd s) \<and> arrived t = arrived s \<and> delivered t = delivered s \<and>
    dpc t = dpc s \<and> flows t = flows s \<and> signalling t = signalling s"
  by (erule handle_run_cases) auto

lemma deinitialized_keeps: "deinitialized h s = Some t \<Longrightarrow>
    subscribers (nd t) = subscribers (nd s) \<and> arrived t = arrived s \<and> delivered t = delivered s \<and>
    dpc t = dpc s \<and> flows t = flows s \<and> signalling t = signalling s"
  by (erule deinitialized_cases) auto

lemma dispatch_run_keeps: "dispatch_run s = Some t \<Longrightarrow>
    subscribers (nd t) = subscribers (nd s) \<and> arrived t = arrived s \<and> flows t = flows s \<and>
    signalling t = signalling s \<and> ((\<forall>m. dpc s \<noteq> DPush m) \<longrightarrow> delivered t = delivered s)"
  by (erule dispatch_run_cases) auto

lemma src_handle_run_keeps: "src_handle_run ops call s = Some t \<Longrightarrow>
    subscribers (nd t) = subscribers (nd s) \<and> delivered t = delivered s \<and> dpc t = dpc s"
  by (erule src_handle_run_cases) auto

lemma src_destroy_keeps: "src_destroy ops s = Some t \<Longrightarrow>
    subscribers (nd t) = subscribers (nd s) \<and> delivered t = delivered s \<and> dpc t = dpc s"
  by (erule src_destroy_cases) (auto dest: deinitialized_keeps)

lemma own_act_keeps: "own_act vm a s = Some t \<Longrightarrow>
    subscribers (nd t) = subscribers (nd s) \<and> arrived t = arrived s \<and> delivered t = delivered s \<and>
    flows t = flows s \<and> signalling t = signalling s \<and> (dpc s = DPush m \<longrightarrow> dpc t = DPush m)"
  by (auto simp: own_act_def split: node_action.splits dispatch_pc.splits
    dest: handle_run_keeps deinitialized_keeps dispatch_run_keeps)

lemma src_own_act_keeps: "src_own_act ops call a s = Some t \<Longrightarrow>
    subscribers (nd t) = subscribers (nd s) \<and> delivered t = delivered s \<and>
    (dpc s = DPush m \<longrightarrow> dpc t = DPush m)"
  by (auto simp: src_own_act_def src_start_def src_stop_def
    split: src_action.splits dispatch_pc.splits if_splits
    dest: src_handle_run_keeps src_destroy_keeps dispatch_run_keeps)

lemma own_act_step: "own_act vm a s = Some t \<Longrightarrow> node_step vm s t"
  by (auto simp: own_act_def node_step_def node_thread_iff
    split: node_action.splits dispatch_pc.splits)

lemma src_own_act_step: "src_own_act ops call a s = Some t \<Longrightarrow> src_step ops call s t"
  by (rule src_act_step [of ops call a])
    (auto simp: src_own_act_def split: src_action.splits dispatch_pc.splits)

end
