(* ===== verification/PipelineInv.thy ===== *)
theory PipelineInv
  imports Pipeline
begin

text \<open>
  Invariants of a whole pipeline. Each node of it runs as \<open>NodeThreads\<close> says, each source as
  \<open>SrcNode\<close> says, so that all their invariants hold in the pipeline. Along an edge of the graph
  the frames arrive in the order in which they were delivered, and along a chain of edges the
  history of the last node and what is under way add up to the history of the source.
\<close>

section \<open>The push loop\<close>

fun push_well :: "nat list \<Rightarrow> dispatch_pc \<Rightarrow> (nat \<Rightarrow> bool) \<Rightarrow> push_pc \<Rightarrow> bool" where
  "push_well subs pc ctl PIdle \<longleftrightarrow> True"
| "push_well subs pc ctl (PNext b m vs) \<longleftrightarrow>
     (\<exists>us. subs = us @ vs) \<and> (if b then ctl m else pc = DPush m)"
| "push_well subs pc ctl (PHook b m v vs) \<longleftrightarrow>
     (\<exists>us. subs = us @ v # vs) \<and> (if b then ctl m else pc = DPush m)"
| "push_well subs pc ctl (PSignal b m v vs) \<longleftrightarrow>
     (\<exists>us. subs = us @ v # vs) \<and> (if b then ctl m else pc = DPush m)"

definition push_inv :: "(nat \<Rightarrow> bool) \<Rightarrow> ('h, 'w, 'd) pipeline \<Rightarrow> bool" where
  "push_inv ctl P \<longleftrightarrow> (\<forall>p. push_well (pub_subs P p) (pub_dpc P p) ctl (pushing P p))"

text \<open>The publishers that have put \<open>m\<close> into the in-queue of \<open>v\<close> and not yet called the hooker.\<close>

fun hooking :: "nat \<Rightarrow> nat \<Rightarrow> push_pc \<Rightarrow> bool" where
  "hooking m v (PHook b m' v' vs) \<longleftrightarrow> m' = m \<and> v' = v"
| "hooking m v x \<longleftrightarrow> False"

fun to_signal :: "nat \<Rightarrow> push_pc \<Rightarrow> bool" where
  "to_signal v (PSignal b m v' vs) \<longleftrightarrow> v' = v"
| "to_signal v x \<longleftrightarrow> False"

definition counted :: "('a \<Rightarrow> bool) \<Rightarrow> nat \<Rightarrow> ('p \<Rightarrow> 'a) \<Rightarrow> bool" where
  "counted R n f \<longleftrightarrow> finite {p. R (f p)} \<and> card {p. R (f p)} = n"

definition flow_inv :: "('h, 'w, 'd) pipeline \<Rightarrow> bool" where
  "flow_inv P \<longleftrightarrow> (\<forall>m v. counted (hooking m v) (count (flows (mids P v)) m) (pushing P)) \<and>
     (\<forall>v. counted (to_signal v) (signalling (mids P v)) (pushing P))"

lemma counted_pos: "counted R n f \<Longrightarrow> R (f p) \<Longrightarrow> 0 < n"
  by (auto simp: counted_def card_gt_0_iff)

lemma counted_none: "counted R n f \<Longrightarrow> (\<And>p. \<not> R (f p)) \<Longrightarrow> n = 0"
  by (simp add: counted_def)

lemma counted_update:
  assumes "counted R n f" and "k + of_bool (R (f p)) = n + of_bool (R x)"
  shows "counted R k (f(p := x))"
proof -
  have set: "{q. R ((f(p := x)) q)} = (if R x then insert p else id) ({q. R (f q)} - {p})"
    by auto
  have "n = card ({q. R (f q)} - {p}) + of_bool (R (f p))"
    using assms(1) card.remove [of "{q. R (f q)}" p]
    by (cases "R (f p)") (simp_all add: counted_def)
  then show ?thesis
    using assms unfolding counted_def set by (auto simp: counted_def card.insert_remove)
qed

lemma dispatched_keeps:
  assumes "dispatched p P = Some R"
  shows "pushing R = pushing P \<and> flows (mids R v) = flows (mids P v) \<and>
    signalling (mids R v) = signalling (mids P v) \<and> arrived (mids R v) = arrived (mids P v) \<and>
    pub_subs R q = pub_subs P q \<and> (q \<noteq> p \<longrightarrow> pub_dpc R q = pub_dpc P q \<and>
    pub_delivered R q = pub_delivered P q)"
  using assms
  by (cases p; cases q) (auto dest!: dispatch_run_keeps)

lemma flow_invI:
  assumes "flow_inv P" and "pushing Q = (pushing P)(p := x)"
    and "\<And>m v. count (flows (mids Q v)) m + of_bool (hooking m v (pushing P p))
      = count (flows (mids P v)) m + of_bool (hooking m v x)"
    and "\<And>v. signalling (mids Q v) + of_bool (to_signal v (pushing P p))
      = signalling (mids P v) + of_bool (to_signal v x)"
  shows "flow_inv Q"
  unfolding flow_inv_def assms(2)
proof (intro conjI allI)
  fix m v
  show "counted (hooking m v) (count (flows (mids Q v)) m) ((pushing P)(p := x))"
    using assms(1) assms(3) [of v m] by (auto simp: flow_inv_def intro: counted_update)
  show "counted (to_signal v) (signalling (mids Q v)) ((pushing P)(p := x))"
    using assms(1) assms(4) [of v] by (auto simp: flow_inv_def intro: counted_update)
qed

lemma flow_inv_hook: "flow_inv P \<Longrightarrow> pushing P p = PHook b m v vs \<Longrightarrow> m \<in># flows (mids P v)"
  using counted_pos [of "hooking m v" "count (flows (mids P v)) m" "pushing P" p]
  by (auto simp: flow_inv_def)

lemma flow_inv_signal: "flow_inv P \<Longrightarrow> pushing P p = PSignal b m v vs \<Longrightarrow> 0 < signalling (mids P v)"
  using counted_pos [of "to_signal v" "signalling (mids P v)" "pushing P" p]
  by (auto simp: flow_inv_def)

lemma flow_inv_push:
  assumes "push_act p P = Some Q" and "flow_inv P"
  shows "flow_inv Q"
  using assms(1)
proof (cases rule: push_act_cases)
  case (start m)
  then show ?thesis by (intro flow_invI [OF assms(2), of _ p]) auto
next
  case (flow_push b m v vs)
  then show ?thesis by (intro flow_invI [OF assms(2), of _ p]) auto
next
  case (flow_hook b m v vs)
  then show ?thesis using flow_inv_hook [OF assms(2)]
    by (intro flow_invI [OF assms(2), of _ p]) (auto dest!: multi_member_split)
next
  case (flow_signal b m v vs)
  then show ?thesis using flow_inv_signal [OF assms(2)]
    by (intro flow_invI [OF assms(2), of _ p]) auto
next
  case (spoken m)
  then show ?thesis by (intro flow_invI [OF assms(2), of _ p]) auto
next
  case (pushed m R)
  then show ?thesis using dispatched_keeps [OF pushed(2)]
    by (intro flow_invI [OF assms(2), of _ p]) auto
qed

section \<open>The actions of a pipeline\<close>

lemma pipe_act_cases:
  assumes "pipe_act ops call vm ctl a P = Some Q"
  obtains (node) i b t where "own_act (vm i) b ((mids P i)\<lparr>world := metas P\<rparr>) = Some t"
      "Q = (set_mid i t P)\<lparr>metas := world t\<rparr>"
  | (src) k b t where "src_own_act ops call b ((srcs P k)\<lparr>world := metas P\<rparr>) = Some t"
      "Q = (set_src k t P)\<lparr>metas := world t\<rparr>"
  | (push) p where "push_act p P = Some Q"
  | (speak) k m where "pushing P (SrcPub k) = PIdle" "ctl m"
      "Q = set_push (SrcPub k) (PNext True m (pub_subs P (SrcPub k))) P"
  using assms by (cases a) (auto split: if_splits)

lemma own_act_pipe:
  assumes "own_act vm a (s\<lparr>world := w\<rparr>) = Some t"
  shows "subscribers (nd t) = subscribers (nd s)" "arrived t = arrived s"
    "delivered t = delivered s" "flows t = flows s" "signalling t = signalling s"
    "dpc s = DPush m \<Longrightarrow> dpc t = DPush m"
  using own_act_keeps [OF assms, of m] by simp_all

lemma src_own_act_pipe:
  assumes "src_own_act ops call a (s\<lparr>world := w\<rparr>) = Some t"
  shows "subscribers (nd t) = subscribers (nd s)" "delivered t = delivered s"
    "dpc s = DPush m \<Longrightarrow> dpc t = DPush m"
  using src_own_act_keeps [OF assms, of m] by simp_all

lemma flow_inv_step:
  assumes "pipe_act ops call vm ctl a P = Some Q" and "flow_inv P"
  shows "flow_inv Q"
  using assms(1)
proof (cases rule: pipe_act_cases)
  case (node i b t)
  then show ?thesis using assms(2) by (auto simp: flow_inv_def own_act_pipe [OF node(1)])
next
  case (speak k m)
  then show ?thesis by (intro flow_invI [OF assms(2), of _ "SrcPub k"]) auto
next
  case (push p)
  then show ?thesis using assms(2) by (rule flow_inv_push)
qed (use assms(2) in \<open>auto simp: flow_inv_def\<close>)

lemma flow_inv_reach: "pipe_reach ops call vm ctl P \<Longrightarrow> flow_inv P"
proof (induction rule: pipe_reach.induct)
  case (init sn n ds w)
  show ?case by (simp add: flow_inv_def counted_def pipe_init_def node_sys_init_def)
next
  case (step P a Q)
  show ?case by (rule flow_inv_step [OF step.hyps(2) step.IH])
qed

section \<open>Every node of a pipeline runs as it does alone\<close>

lemma node_reach_upstream: "node_reach vm s \<Longrightarrow> upstream s t \<Longrightarrow> node_reach vm t"
  by (auto simp: node_step_def intro: node_reach.step)

lemma node_reach_world: "node_reach vm s \<Longrightarrow> node_reach vm (s\<lparr>world := w\<rparr>)"
  using node_reach_upstream upstream.world by metis

lemma node_reach_flow:
  assumes "node_reach vm s"
  shows "node_reach vm (flow_pushed m s)"
    and "m \<in># flows s \<Longrightarrow> node_reach vm (flow_hooked m s)"
    and "0 < signalling s \<Longrightarrow> node_reach vm (flow_signalled s)"
  using node_reach_upstream [OF assms] upstream.flow_push [of s m] upstream.flow_hook [of m s]
    upstream.flow_signal [of s "signalling s - 1"]
  by (simp_all add: flow_pushed_def flow_hooked_def flow_signalled_def)

lemma node_reach_dispatch: "node_reach vm s \<Longrightarrow> dispatch_run s = Some t \<Longrightarrow> node_reach vm t"
  by (erule node_reach.step) (simp add: node_step_def node_thread.dispatch)

lemma src_reach_dispatch:
  "src_reach ops call s \<Longrightarrow> dispatch_run s = Some t \<Longrightarrow> src_reach ops call t"
  by (erule src_reach.step) (simp add: src_step.threads src_thread.dispatch)

lemma dispatched_node: "dispatched p P = Some R \<Longrightarrow> node_reach vm (mids P i) \<Longrightarrow> node_reach vm (mids R i)"
  by (cases p) (auto intro: node_reach_dispatch)

lemma dispatched_src:
  "dispatched p P = Some R \<Longrightarrow> src_reach ops call (srcs P k) \<Longrightarrow> src_reach ops call (srcs R k)"
  by (cases p) (auto intro: src_reach_dispatch)

lemma nodes_step:
  assumes "pipe_act ops call vm ctl a P = Some Q" and "flow_inv P"
    and IH: "\<forall>i. node_reach (vm i) (mids P i)"
  shows "node_reach (vm j) (mids Q j)"
  using assms(1)
proof (cases rule: pipe_act_cases)
  case (node i b t)
  then show ?thesis using IH by (auto intro: node_reach.step node_reach_world own_act_step)
next
  case (push p)
  then show ?thesis
  proof (cases rule: push_act_cases)
    case (pushed m R)
    then show ?thesis using IH by (auto dest: dispatched_node)
  qed (use IH flow_inv_hook [OF assms(2)] flow_inv_signal [OF assms(2)] in
      \<open>auto intro: node_reach_flow\<close>)
qed (use IH in auto)

lemma srcs_step:
  assumes "pipe_act ops call vm ctl a P = Some Q" and IH: "\<forall>k. src_reach ops call (srcs P k)"
  shows "src_reach ops call (srcs Q j)"
  using assms(1)
proof (cases rule: pipe_act_cases)
  case (src k b t)
  then show ?thesis using IH by (auto intro: src_reach.step src_reach.world src_own_act_step)
next
  case (push p)
  then show ?thesis
    by (cases rule: push_act_cases) (use IH in \<open>auto dest: dispatched_src\<close>)
qed (use IH in auto)

lemma pipe_reach_parts:
  "pipe_reach ops call vm ctl P \<Longrightarrow>
    (\<forall>i. node_reach (vm i) (mids P i)) \<and> (\<forall>k. src_reach ops call (srcs P k))"
proof (induction rule: pipe_reach.induct)
  case (init sn n ds w)
  then show ?case by (auto simp: pipe_init_def intro: node_reach.start src_reach.init)
next
  case (step P a Q)
  then show ?case
    using nodes_step [OF step.hyps(2) flow_inv_reach [OF step.hyps(1)]] srcs_step [OF step.hyps(2)]
    by blast
qed

lemmas pipe_reach_node = pipe_reach_parts [THEN conjunct1, rule_format]
  and pipe_reach_src = pipe_reach_parts [THEN conjunct2, rule_format]

section \<open>Where the publishers are\<close>

lemma pub_simps [simp]:
  "pub_subs (set_push p x P) q = pub_subs P q" "pub_dpc (set_push p x P) q = pub_dpc P q"
  "pub_delivered (set_push p x P) q = pub_delivered P q"
  by (cases q; simp)+

lemma pub_mid:
  assumes "subscribers (nd s) = subscribers (nd (mids P v))"
    and "delivered s = delivered (mids P v)" and "dpc s = dpc (mids P v)"
  shows "pub_subs (set_mid v s P) q = pub_subs P q" "pub_dpc (set_mid v s P) q = pub_dpc P q"
    "pub_delivered (set_mid v s P) q = pub_delivered P q"
  using assms by (cases q; auto)+

lemma pub_flow [simp]:
  "pub_subs (set_mid v (flow_pushed m (mids P v)) P) q = pub_subs P q"
  "pub_dpc (set_mid v (flow_pushed m (mids P v)) P) q = pub_dpc P q"
  "pub_delivered (set_mid v (flow_pushed m (mids P v)) P) q = pub_delivered P q"
  "pub_subs (set_mid v (flow_hooked m (mids P v)) P) q = pub_subs P q"
  "pub_dpc (set_mid v (flow_hooked m (mids P v)) P) q = pub_dpc P q"
  "pub_delivered (set_mid v (flow_hooked m (mids P v)) P) q = pub_delivered P q"
  "pub_subs (set_mid v (flow_signalled (mids P v)) P) q = pub_subs P q"
  "pub_dpc (set_mid v (flow_signalled (mids P v)) P) q = pub_dpc P q"
  "pub_delivered (set_mid v (flow_signalled (mids P v)) P) q = pub_delivered P q"
  by (simp_all add: pub_mid)

text \<open>What the threads of the nodes leave alone: all that the publishers and the edges rest on.\<close>

lemma own_steps_keep:
  assumes "own_act vm a ((mids P i)\<lparr>world := metas P\<rparr>) = Some t \<and> Q = (set_mid i t P)\<lparr>metas := w\<rparr> \<or>
    src_own_act ops call b ((srcs P k)\<lparr>world := metas P\<rparr>) = Some u \<and> Q = (set_src k u P)\<lparr>metas := w\<rparr>"
  shows "pub_subs Q q = pub_subs P q" "pub_delivered Q q = pub_delivered P q"
    "arrived (mids Q v) = arrived (mids P v)" "pushing Q = pushing P"
    "pub_dpc P q = DPush m \<Longrightarrow> pub_dpc Q q = DPush m"
  using assms by (cases q; auto dest: own_act_pipe src_own_act_pipe)+

lemma push_inv_push:
  assumes "push_act p P = Some Q" and "push_inv ctl P"
  shows "push_inv ctl Q"
  unfolding push_inv_def
proof
  fix q
  have P: "push_well (pub_subs P q) (pub_dpc P q) ctl (pushing P q)" for q
    using assms(2) by (simp add: push_inv_def)
  from assms(1) show "push_well (pub_subs Q q) (pub_dpc Q q) ctl (pushing Q q)"
  proof (cases rule: push_act_cases)
    case (pushed m R)
    then show ?thesis using P [of q] dispatched_keeps [OF pushed(2)] by simp
  qed (use P [of q] P [of p] in \<open>auto simp: fun_upd_def\<close>)
qed

lemma push_well_DPush:
  assumes "push_well subs pc ctl x" and "\<And>m. pc = DPush m \<Longrightarrow> pc' = DPush m"
  shows "push_well subs pc' ctl x"
  using assms by (cases x) (auto split: if_splits)

lemma push_inv_step:
  assumes "pipe_act ops call vm ctl a P = Some Q" and "push_inv ctl P"
  shows "push_inv ctl Q"
  using assms(1)
proof (cases rule: pipe_act_cases)
  case (node i b t)
  with assms(2) show ?thesis
    using own_steps_keep [of "vm i" b P i t Q "world t"]
    by (auto simp: push_inv_def intro: push_well_DPush)
next
  case (src k b t)
  with assms(2) show ?thesis
    using own_steps_keep [of _ _ P _ _ Q "world t" ops call b k t]
    by (auto simp: push_inv_def intro: push_well_DPush)
next
  case (push p)
  then show ?thesis using assms(2) by (rule push_inv_push)
next
  case (speak k m)
  with assms(2) show ?thesis by (auto simp: push_inv_def)
qed

lemma push_inv_reach: "pipe_reach ops call vm ctl P \<Longrightarrow> push_inv ctl P"
proof (induction rule: pipe_reach.induct)
  case (init sn n ds w)
  show ?case by (simp add: push_inv_def pipe_init_def)
next
  case (step P a Q)
  show ?case by (rule push_inv_step [OF step.hyps(2) step.IH])
qed

section \<open>An edge of the graph is a channel\<close>

text \<open>
  \<open>v\<close> has one pre node, attached once. \<open>served\<close> is the meta that the publisher is pushing and
  that \<open>v\<close> already has, although the publisher has not finished with it.
\<close>

definition sole :: "('h, 'w, 'd) pipeline \<Rightarrow> publisher \<Rightarrow> nat \<Rightarrow> bool" where
  "sole P p v \<longleftrightarrow> count_list (pub_subs P p) v = 1 \<and> (\<forall>q. q \<noteq> p \<longrightarrow> v \<notin> set (pub_subs P q))"

fun served_by :: "push_pc \<Rightarrow> nat \<Rightarrow> nat list" where
  "served_by (PNext False m vs) v = (if v \<in> set vs then [] else [m])"
| "served_by (PHook False m u vs) v = (if v \<in> set vs then [] else [m])"
| "served_by (PSignal False m u vs) v = (if v \<in> set vs then [] else [m])"
| "served_by x v = []"

abbreviation served :: "('h, 'w, 'd) pipeline \<Rightarrow> publisher \<Rightarrow> nat \<Rightarrow> nat list" where
  "served P p v \<equiv> served_by (pushing P p) v"

definition channel :: "(nat \<Rightarrow> vp_meta_type) \<Rightarrow> publisher \<Rightarrow> nat \<Rightarrow> ('h, 'w, 'd) pipeline \<Rightarrow> bool" where
  "channel ty p v P \<longleftrightarrow> frames ty (arrived (mids P v)) = frames ty (pub_delivered P p @ served P p v)"

lemma sole_mem: "sole P p v \<Longrightarrow> v \<in> set (pub_subs P q) \<longleftrightarrow> q = p"
  using count_list_0_iff [of "pub_subs P q" v] by (cases "q = p") (simp_all add: sole_def)

lemma sole_rest:
  assumes "sole P p v" and "pub_subs P p = us @ v # vs"
  shows "v \<notin> set vs"
  using assms by (auto simp: sole_def count_list_0_iff)

lemma dispatched_push:
  assumes "dispatched p P = Some R" and "pub_dpc P p = DPush m"
  shows "pub_delivered R p = pub_delivered P p @ [m]"
  using assms by (cases p) (auto simp: dispatch_run_def)

lemma channel_push:
  assumes "push_act p P = Some Q" and "push_inv ctl P" and "sole P r v"
    and ctl: "\<forall>m. ctl m \<longrightarrow> ty m = CONTROL" and "channel ty r v P"
  shows "channel ty r v Q"
proof -
  have well: "push_well (pub_subs P p) (pub_dpc P p) ctl (pushing P p)"
    using assms(2) by (simp add: push_inv_def)
  note sole = sole_mem [OF assms(3)] sole_rest [OF assms(3)]
  from assms(1) show ?thesis
  proof (cases rule: push_act_cases)
    case (start m)
    then show ?thesis using assms(5) sole(1) [of p] by (auto simp: channel_def)
  next
    case (flow_push b m u vs)
    then obtain us where us: "pub_subs P p = us @ u # vs" and b: "b \<Longrightarrow> ty m = CONTROL"
      using well ctl by auto
    show ?thesis
    proof (cases "u = v")
      case True
      then have "p = r" using sole(1) [of p] us by simp
      moreover from this True us have "v \<notin> set vs" using sole(2) [of us vs] by simp
      ultimately show ?thesis
        using assms(5) flow_push True b by (cases b) (simp_all add: channel_def)
    next
      case False
      then show ?thesis using assms(5) flow_push by (cases b) (simp_all add: channel_def)
    qed
  next
    case (flow_hook b m u vs)
    then show ?thesis using assms(5) by (cases b) (auto simp: channel_def)
  next
    case (flow_signal b m u vs)
    then show ?thesis using assms(5) by (cases b) (auto simp: channel_def)
  next
    case (spoken m)
    then show ?thesis using assms(5) by (auto simp: channel_def)
  next
    case (pushed m R)
    then have "pub_delivered R p = pub_delivered P p @ [m]"
      using well dispatched_push [OF pushed(2)] by simp
    with pushed show ?thesis using assms(5) dispatched_keeps [OF pushed(2)]
      by (cases "p = r") (auto simp: channel_def)
  qed
qed

lemma channel_step:
  assumes "pipe_act ops call vm ctl a P = Some Q" and "push_inv ctl P" and "sole P r v"
    and "\<forall>m. ctl m \<longrightarrow> ty m = CONTROL" and "channel ty r v P"
  shows "channel ty r v Q"
  using assms(1)
proof (cases rule: pipe_act_cases)
  case (node i b t)
  with assms(5) show ?thesis
    using own_steps_keep [of "vm i" b P i t Q "world t"] by (simp add: channel_def)
next
  case (src k b t)
  with assms(5) show ?thesis
    using own_steps_keep [of _ _ P _ _ Q "world t" ops call b k t] by (simp add: channel_def)
next
  case (push p)
  then show ?thesis using channel_push [OF push assms(2-5)] by simp
next
  case (speak k m)
  with assms(5) show ?thesis by (auto simp: channel_def)
qed

lemma subs_step:
  assumes "pipe_act ops call vm ctl a P = Some Q"
  shows "pub_subs Q = pub_subs P"
proof
  fix q
  show "pub_subs Q q = pub_subs P q"
    using assms
  proof (cases rule: pipe_act_cases)
    case (node i b t)
    then show ?thesis using own_steps_keep [of "vm i" b P i t Q "world t"] by simp
  next
    case (src k b t)
    then show ?thesis using own_steps_keep [of _ _ P _ _ Q "world t" ops call b k t] by simp
  next
    case (push p)
    then show ?thesis by (cases rule: push_act_cases) (auto dest: dispatched_keeps)
  qed simp
qed

lemma subs_run: "pipe_run ops call vm ctl as P = Some Q \<Longrightarrow> pub_subs Q = pub_subs P"
  by (induction as arbitrary: P) (auto split: option.splits dest!: subs_step)

lemma channel_reach:
  assumes "pipe_reach ops call vm ctl P" and ctl: "\<forall>m. ctl m \<longrightarrow> ty m = CONTROL"
  shows "sole P r v \<Longrightarrow> channel ty r v P"
  using assms(1)
proof (induction rule: pipe_reach.induct)
  case (init sn n ds w)
  show ?case
    by (cases r) (simp_all add: channel_def pipe_init_def node_sys_init_def)
next
  case (step P a Q)
  then have "sole P r v" using subs_step [OF step.hyps(2)] by (simp add: sole_def)
  with step show ?case
    by (intro channel_step [OF step.hyps(2) push_inv_reach [OF step.hyps(1)] _ ctl]) auto
qed

end
