(* ===== verification/PipelineFlow.thy ===== *)
theory PipelineFlow
  imports PipelineInv
begin

text \<open>
  The flow of the frames along a chain of nodes: what the last node has delivered and what is
  under way on the chain, in order, is what the source has delivered; nothing is delivered that
  the script has not processed; and when no thread can move, nothing is left but frames waiting
  for their batch to fill.
\<close>

section \<open>Accounting along a chain\<close>

fun chain :: "('h, 'w, 'd) pipeline \<Rightarrow> publisher \<Rightarrow> nat list \<Rightarrow> bool" where
  "chain P p [] \<longleftrightarrow> True"
| "chain P p (v # vs) \<longleftrightarrow> sole P p v \<and> chain P (NodePub v) vs"

text \<open>
  The frames inside a node, the oldest first, and those on the chain behind a node; the frame a
  node is pushing has left it as soon as the next node on the chain has it.
\<close>

definition inside :: "(nat \<Rightarrow> vp_meta_type) \<Rightarrow> ('h, 'w, handle_pc) node_sys \<Rightarrow> nat list" where
  "inside ty s = out_pending s @ held s @ frames ty (in_hand s) @
     frames ty (somes (tsq_q (in_queue (nd s))))"

fun under_way :: "(nat \<Rightarrow> vp_meta_type) \<Rightarrow> ('h, 'w, 'd) pipeline \<Rightarrow> nat \<Rightarrow> nat list \<Rightarrow> nat list" where
  "under_way ty P v [] = inside ty (mids P v)"
| "under_way ty P v (w # ws) =
     under_way ty P w ws @ drop (length (served P (NodePub v) w)) (inside ty (mids P v))"

lemma served_DPush:
  assumes "push_inv ctl P" and "served P p v \<noteq> []"
  shows "\<exists>m. served P p v = [m] \<and> pub_dpc P p = DPush m"
proof -
  have "push_well (pub_subs P p) (pub_dpc P p) ctl (pushing P p)"
    using assms(1) by (simp add: push_inv_def)
  with assms(2) show ?thesis
    by (cases "(pushing P p, v)" rule: served_by.cases) (simp_all split: if_splits)
qed

lemma out_pending_pushing:
  "out_history s \<Longrightarrow> dpc s = DPush m \<Longrightarrow> \<exists>q. out_pending s = m # q"
  by (auto simp: out_history_def out_pending_def Let_def)

lemma node_frames:
  assumes "typed_methods ty vm" and "node_reach vm s"
  shows "frames ty (delivered s) = delivered s" "\<forall>m \<in> set (inside ty s). ty m = FRAME"
proof -
  have "subseq (delivered s @ inside ty s) (frames ty (arrived s))"
    using frames_kept_in_order [OF assms] by (simp add: inside_def)
  then have "ty m = FRAME" if "m \<in> set (delivered s @ inside ty s)" for m
    using list_emb_set [OF _ that] by (metis (mono_tags, lifting) mem_Collect_eq set_filter)
  then show "frames ty (delivered s) = delivered s" "\<forall>m \<in> set (inside ty s). ty m = FRAME"
    by (auto simp: filter_id_conv)
qed

lemma served_inside:
  assumes "push_inv ctl P" and "node_reach vm (mids P v)"
  shows "\<exists>rest. inside ty (mids P v) = served P (NodePub v) w @ rest"
proof (cases "served P (NodePub v) w = []")
  case False
  then obtain m where m: "served P (NodePub v) w = [m]" "dpc (mids P v) = DPush m"
    using served_DPush [OF assms(1) False] by auto
  then show ?thesis
    using out_pending_pushing [OF out_history_reach [OF assms(2)] m(2)] by (auto simp: inside_def)
qed simp

lemma served_frames:
  assumes "push_inv ctl P" and "typed_methods ty vm" and "node_reach vm (mids P v)"
  obtains rest where "inside ty (mids P v) = served P (NodePub v) w @ rest"
    and "frames ty (delivered (mids P v) @ served P (NodePub v) w) =
      delivered (mids P v) @ served P (NodePub v) w"
proof -
  obtain rest where rest: "inside ty (mids P v) = served P (NodePub v) w @ rest"
    using served_inside [OF assms(1,3)] by blast
  then have "frames ty (served P (NodePub v) w) = served P (NodePub v) w"
    using node_frames(2) [OF assms(2,3)] by (simp add: filter_id_conv)
  with rest show thesis using node_frames(1) [OF assms(2,3)] that by simp
qed

text \<open>
  Whatever the control handlers return, the frames on the chain are some of those the publisher
  has delivered, in the same order; if they never return \<open>nullptr\<close>, they are all of them.
\<close>

lemma chain_order:
  assumes "pipe_reach ops call vm ctl P" and "\<forall>m. ctl m \<longrightarrow> ty m = CONTROL"
  shows "chain P p (v # vs) \<Longrightarrow> \<forall>i \<in> set (v # vs). typed_methods ty (vm i) \<Longrightarrow>
    subseq (delivered (mids P (last (v # vs))) @ under_way ty P v vs)
      (frames ty (pub_delivered P p @ served P p v))"
proof (induction vs arbitrary: p v)
  have order: "subseq (delivered (mids P v) @ inside ty (mids P v))
      (frames ty (pub_delivered P p @ served P p v))"
    if "sole P p v" "typed_methods ty (vm v)" for p v
    using channel_reach [OF assms that(1)] frames_kept_in_order [OF that(2) pipe_reach_node [OF assms(1)]]
    by (simp add: channel_def inside_def)
  {
    case Nil
    then show ?case using order by simp
  next
    case (Cons w ws)
    let ?here = "delivered (mids P v) @ served P (NodePub v) w"
    obtain rest where rest: "inside ty (mids P v) = served P (NodePub v) w @ rest"
      and "frames ty ?here = ?here"
      using served_frames [OF push_inv_reach [OF assms(1)] _ pipe_reach_node [OF assms(1)], of ty v w]
        Cons.prems by auto
    then have "subseq (delivered (mids P (last (w # ws))) @ under_way ty P w ws) ?here"
      using Cons.IH [of "NodePub v" w] Cons.prems by simp
    then have "subseq ((delivered (mids P (last (w # ws))) @ under_way ty P w ws) @ rest) (?here @ rest)"
      by (rule list_emb_append_mono) simp
    moreover have "subseq (?here @ rest) (frames ty (pub_delivered P p @ served P p v))"
      using order [of p v] Cons.prems rest by simp
    ultimately have "subseq ((delivered (mids P (last (w # ws))) @ under_way ty P w ws) @ rest)
        (frames ty (pub_delivered P p @ served P p v))"
      by (rule subseq_order.trans)
    then show ?case using rest by simp
  }
qed

lemma chain_account:
  assumes "pipe_reach ops call vm ctl P" and "\<forall>m. ctl m \<longrightarrow> ty m = CONTROL"
  shows "chain P p (v # vs) \<Longrightarrow> \<forall>i \<in> set (v # vs). typed_methods ty (vm i) \<and> keeps_controls (vm i) \<Longrightarrow>
    frames ty (pub_delivered P p @ served P p v) =
      delivered (mids P (last (v # vs))) @ under_way ty P v vs"
proof (induction vs arbitrary: p v)
  have account: "frames ty (pub_delivered P p @ served P p v) = delivered (mids P v) @ inside ty (mids P v)"
    if "sole P p v" "typed_methods ty (vm v) \<and> keeps_controls (vm v)" for p v
    using channel_reach [OF assms that(1)] that(2)
      frame_account [OF _ _ pipe_reach_node [OF assms(1), of v]]
    by (auto simp: channel_def inside_def)
  {
    case Nil
    then show ?case using account by simp
  next
    case (Cons w ws)
    obtain rest where rest: "inside ty (mids P v) = served P (NodePub v) w @ rest"
      and "frames ty (delivered (mids P v) @ served P (NodePub v) w) =
        delivered (mids P v) @ served P (NodePub v) w"
      using served_frames [OF push_inv_reach [OF assms(1)] _ pipe_reach_node [OF assms(1)], of ty v w]
        Cons.prems by auto
    then have "delivered (mids P v) @ served P (NodePub v) w
        = delivered (mids P (last (w # ws))) @ under_way ty P w ws"
      using Cons.IH [of "NodePub v" w] Cons.prems by simp
    then show ?case using Cons.prems account [of p v] rest by simp
  }
qed

section \<open>Nothing is delivered that was not processed\<close>

lemma pushing_processed:
  assumes "src_reach ops call s" and "dpc s = DPush m"
  shows "\<exists>rest. processed s = delivered s @ m # rest"
proof -
  obtain q where q: "emitted s = delivered s @ m # q"
    using src_queue_inv_reach [OF assms(1)] assms(2)
    by (auto simp: src_queue_inv_def out_history_def Let_def)
  note p = processed_inv_reach [OF assms(1)]
  show ?thesis
  proof (cases "hpc s = SDone")
    case True
    with p q show ?thesis by (intro exI [of _ q]) (simp add: processed_inv_def)
  next
    case False
    with p assms(2) have "length (delivered s @ [m]) \<le> length (processed s)"
      by (cases "hpc s = SSignal") (auto simp: processed_inv_def)
    moreover obtain r where "emitted s = processed s @ r"
      using p by (cases "hpc s") (auto simp: processed_inv_def)
    ultimately obtain r' where "processed s = (delivered s @ [m]) @ r'"
      using q by (metis append.assoc append_Cons append_Nil prefixE prefixI prefix_length_prefix)
    then show ?thesis by (intro exI [of _ r']) simp
  qed
qed

lemma served_processed:
  assumes "push_inv ctl P" and "src_reach ops call (srcs P k)"
  shows "prefix (delivered (srcs P k) @ served P (SrcPub k) v) (processed (srcs P k))"
proof (cases "served P (SrcPub k) v = []")
  case True
  then show ?thesis using delivered_after_processed [OF assms(2)] by (auto simp: prefix_def)
next
  case False
  then obtain m where m: "served P (SrcPub k) v = [m]" "dpc (srcs P k) = DPush m"
    using served_DPush [OF assms(1) False] by auto
  then show ?thesis using pushing_processed [OF assms(2) m(2)] by (auto simp: prefix_def)
qed

lemma prefix_filter: "prefix xs ys \<Longrightarrow> prefix (filter Q xs) (filter Q ys)"
  by (auto simp: prefix_def)

lemma source_frames_processed:
  assumes "pipe_reach ops call vm ctl P"
  shows "prefix (frames ty (delivered (srcs P k) @ served P (SrcPub k) v))
    (frames ty (processed (srcs P k)))"
  using served_processed [OF push_inv_reach [OF assms] pipe_reach_src [OF assms]]
  by (rule prefix_filter)

lemma chain_processed:
  assumes "pipe_reach ops call vm ctl P" and "\<forall>m. ctl m \<longrightarrow> ty m = CONTROL"
    and "chain P (SrcPub k) (v # vs)"
    and "\<forall>i \<in> set (v # vs). typed_methods ty (vm i) \<and> keeps_controls (vm i)"
  shows "prefix (delivered (mids P (last (v # vs))) @ under_way ty P v vs)
    (frames ty (processed (srcs P k)))"
  using source_frames_processed [OF assms(1), of ty k v] chain_account [OF assms] by simp

section \<open>A pipeline at rest\<close>

text \<open>
  Until the dead flag is in the out-queue, its semaphore counts exactly what the dispatch thread
  has not seen. \<open>owed\<close> are the entries the handle thread has not signalled yet.
\<close>

definition out_exact :: "int \<Rightarrow> ('h, 'w, 'p, 'z) node_sys_scheme \<Rightarrow> bool" where
  "out_exact owed s \<longleftrightarrow> None \<notin> set (tsq_q (out_queue (nd s))) \<and>
     sem_count (out_queue_semaphore (nd s)) + owed + d_out (dpc s)
       = int (length (tsq_q (out_queue (nd s))))"

lemma out_exact_dispatch:
  "dispatch_run s = Some t \<Longrightarrow> out_account owed s \<Longrightarrow> out_exact owed s \<Longrightarrow> out_exact owed t"
proof (erule dispatch_run_cases)
  assume "dpc s = DPop" "t = s\<lparr>nd := (nd s)\<lparr>out_queue := Pop (out_queue (nd s))\<rparr>, dpc := DTop\<rparr>"
    "out_account owed s" "out_exact owed s"
  then show "out_exact owed t"
    by (cases "tsq_q (out_queue (nd s))") (auto simp: out_exact_def out_account_def queue_simps)
next
  assume "dpc s = DFront" "Front (out_queue (nd s)) = Inr None" "out_exact owed s"
  then show "out_exact owed t"
    by (cases "tsq_q (out_queue (nd s))") (auto simp: out_exact_def queue_simps)
qed (auto simp: out_exact_def out_account_def sem_wait_Some_iff queue_simps)

lemma out_exact_control:
  "deinitialized d s = Some t \<Longrightarrow> out_exact owed s \<Longrightarrow> out_exact owed t"
  by (erule deinitialized_cases) (auto simp: out_exact_def)

definition node_exact :: "('h, 'w, handle_pc) node_sys \<Rightarrow> bool" where
  "node_exact s \<longleftrightarrow> (hpc s \<notin> {HDeadSignal, HDone} \<longrightarrow> out_exact (h_out (hpc s)) s)"

lemma node_exact_handle: "handle_run vm s = Some t \<Longrightarrow> node_exact s \<Longrightarrow> node_exact t"
  by (erule handle_run_cases) (auto simp: node_exact_def out_exact_def split: if_splits)

lemma node_exact_reach: "node_reach vm s \<Longrightarrow> node_exact s"
proof (induction rule: node_reach.induct)
  case (start n w)
  then show ?case by (simp add: node_exact_def out_exact_def node_sys_init_def fresh_node_def)
next
  case (step s t)
  from step.hyps(2) consider (handle) "handle_run vm s = Some t" | (dispatch) "dispatch_run s = Some t"
    | (control) "deinitialized (hpc s = HDone) s = Some t" | (up) "upstream s t"
    by (auto simp: node_step_def node_thread_iff)
  then show ?case
  proof cases
    case handle
    then show ?thesis using step.IH by (rule node_exact_handle)
  next
    case dispatch
    then show ?thesis
      using step.IH out_account_reach [OF step.hyps(1)] dispatch_run_hpc [OF dispatch]
      by (auto simp: node_exact_def intro: out_exact_dispatch)
  next
    case control
    then show ?thesis using step.IH deinitialized_same [OF control]
      by (auto simp: node_exact_def dest: out_exact_control)
  next
    case up
    then show ?thesis using step.IH by (cases rule: upstreamE) (auto simp: node_exact_def out_exact_def)
  qed
qed

text \<open>A node both of whose threads are blocked holds no frame but those of an incomplete batch.\<close>

lemma blocked_handle:
  assumes "handle_run vm s = None" and "in_account s" and "hpc s \<noteq> HDone"
  shows "hpc s = HWait \<and> sem_count (in_queue_semaphore (nd s)) \<le> 0"
proof (cases "hpc s")
  case HPop
  with assms show ?thesis
    by (cases "cpc s") (auto simp: handle_run_def in_account_def queue_simps split: option.splits)
next
  case (HPush xs)
  with assms show ?thesis by (cases xs) (simp_all add: handle_run_def)
qed (use assms in \<open>auto simp: handle_run_def sem_wait_def split: if_splits\<close>)

lemma blocked_dispatch:
  assumes "dispatch_run s = None" and "out_account owed s" and "dpc s \<noteq> DDone"
  shows "dpc s = DWait \<and> sem_count (out_queue_semaphore (nd s)) = 0"
  using assms
  by (cases "dpc s") (auto simp: dispatch_run_def sem_wait_def out_account_def split: if_splits)

lemma blocked_node:
  assumes "node_reach vm s" and "alive (nd s)" and "handle_run vm s = None"
    and "dispatch_run s = None" and "flows s = {#}" and "signalling s = 0"
  shows "inside ty s = cache s"
proof -
  note inv = shutdown_inv_reach [OF assms(1)] in_account_reach [OF assms(1)]
    out_account_reach [OF assms(1)] node_exact_reach [OF assms(1)]
  have h: "hpc s = HWait" "sem_count (in_queue_semaphore (nd s)) \<le> 0"
    using blocked_handle [OF assms(3) inv(2)] inv(1) assms(2) by (auto simp: shutdown_inv_def)
  moreover have "dpc s = DWait" "sem_count (out_queue_semaphore (nd s)) = 0"
    using blocked_dispatch [OF assms(4) inv(3)] inv(1) assms(2) by (auto simp: shutdown_inv_def)
  moreover have "cpc s = CRun" using inv(1) assms(2) by (simp add: shutdown_inv_def)
  ultimately have "tsq_q (in_queue (nd s)) = []" "tsq_q (out_queue (nd s)) = []"
    using inv(2,4) assms(5,6) by (auto simp: in_account_def node_exact_def out_exact_def)
  with h show ?thesis
    using \<open>dpc s = DWait\<close> by (simp add: inside_def out_pending_def held_def in_hand_def)
qed

text \<open>A stopped source whose dispatch thread is blocked has delivered all it has processed.\<close>

definition src_exact :: "('h, 'w, 'd) src_sys \<Rightarrow> bool" where
  "src_exact s \<longleftrightarrow> (case hpc s of SDeadSignal \<Rightarrow> True | SDone \<Rightarrow> True | SCrash e \<Rightarrow> True
     | pc \<Rightarrow> out_exact (s_out pc) s)"

lemma src_exact_iff:
  "src_exact s \<longleftrightarrow> hpc s \<in> {SDeadSignal, SDone} \<or> (\<exists>e. hpc s = SCrash e) \<or> out_exact (s_out (hpc s)) s"
  by (cases "hpc s") (simp_all add: src_exact_def)

lemma src_exact_handle:
  "src_handle_run ops call s = Some t \<Longrightarrow> source s \<noteq> None \<Longrightarrow> src_exact s \<Longrightarrow> src_exact t"
  by (erule src_handle_run_cases) (auto simp: src_exact_def out_exact_def)

lemma src_exact_dispatch:
  "dispatch_run s = Some t \<Longrightarrow> src_queue_inv s \<Longrightarrow> src_exact s \<Longrightarrow> src_exact t"
  using dispatch_run_hpc [of s t] out_exact_dispatch [of s t "s_out (hpc s)"]
  by (auto simp: src_exact_iff src_queue_inv_def)

lemma src_exact_more:
  assumes "src_exact s" and "out_queue (nd t) = out_queue (nd s)"
    and "out_queue_semaphore (nd t) = out_queue_semaphore (nd s)" and "hpc t = hpc s" and "dpc t = dpc s"
  shows "src_exact t"
  using assms by (simp add: src_exact_iff out_exact_def)

lemma src_exact_destroy: "src_destroy ops s = Some t \<Longrightarrow> src_exact s \<Longrightarrow> src_exact t"
proof (erule src_destroy_cases)
  assume "deinitialized (hpc s = SDone) s = Some t" "src_exact s"
  then show "src_exact t"
    using deinitialized_src [of "hpc s = SDone" s t] out_exact_control [of "hpc s = SDone" s t]
    by (auto simp: src_exact_iff)
qed (auto elim: src_exact_more)

lemma src_exact_reach:
  fixes s :: "('h, 'w, 'd) src_sys"
  assumes "src_reach ops call s"
  shows "src_queue_inv s \<and> src_order s \<and> src_exact s"
  using assms
proof (rule src_reach_invariant)
  show "fresh_node n \<Longrightarrow> src_queue_inv (src_init n d w) \<and> src_order (src_init n d w) \<and>
      src_exact (src_init n d w)" for n :: "'h vp_node" and d :: 'd and w :: 'w
    by (simp add: src_queue_inv_def out_account_def out_history_def src_order_def src_exact_def
      out_exact_def fresh_node_def)
next
  show "src_handle_run ops call s = Some t \<Longrightarrow> src_queue_inv s \<and> src_order s \<and> src_exact s \<Longrightarrow>
      src_queue_inv t \<and> src_order t \<and> src_exact t" for s t :: "('h, 'w, 'd) src_sys"
    using src_queue_inv_handle [of ops call s t] src_order_handle [of ops call s t]
      src_exact_handle [of ops call s t]
    by (auto simp: src_order_def)
next
  show "dispatch_run s = Some t \<Longrightarrow> src_queue_inv s \<and> src_order s \<and> src_exact s \<Longrightarrow>
      src_queue_inv t \<and> src_order t \<and> src_exact t" for s t :: "('h, 'w, 'd) src_sys"
    using src_queue_inv_dispatch src_order_dispatch src_exact_dispatch by blast
next
  show "src_destroy ops s = Some t \<Longrightarrow> src_queue_inv s \<and> src_order s \<and> src_exact s \<Longrightarrow>
      src_queue_inv t \<and> src_order t \<and> src_exact t" for s t :: "('h, 'w, 'd) src_sys"
    using src_queue_inv_destroy src_order_destroy src_exact_destroy by blast
qed (auto simp: src_start_def src_stop_def src_queue_inv_owner src_queue_inv_world src_order_def
  elim: src_exact_more)

lemma blocked_source:
  assumes "src_reach ops call s" and "alive (nd s)" and "hpc s = SKnock" and "dispatch_run s = None"
  shows "processed s = delivered s"
proof -
  have inv: "out_account (s_out (hpc s)) s" "out_history s" "src_order s"
      "out_exact (s_out (hpc s)) s" "processed_inv s"
    using src_exact_reach [OF assms(1)] processed_inv_reach [OF assms(1)] assms(3)
    by (auto simp: src_queue_inv_def src_exact_iff)
  then have "dpc s = DWait" "sem_count (out_queue_semaphore (nd s)) = 0"
    using blocked_dispatch [OF assms(4) inv(1)] assms(2) by (auto simp: src_order_def)
  then show ?thesis
    using inv assms(3)
    by (simp add: out_exact_def out_history_def processed_inv_def)
qed

text \<open>
  A source that has ended, because its data have: the dead flag is the last entry of its out-queue,
  and the semaphore still counts every frame before it.
\<close>

definition out_enough :: "int \<Rightarrow> ('h, 'w, 'p, 'z) node_sys_scheme \<Rightarrow> bool" where
  "out_enough owed s \<longleftrightarrow> None \<notin> set (butlast (tsq_q (out_queue (nd s)))) \<and>
     int (length (somes (tsq_q (out_queue (nd s)))))
       \<le> sem_count (out_queue_semaphore (nd s)) + owed + d_out (dpc s)"

lemma somes_all: "None \<notin> set xs \<Longrightarrow> length (somes xs) = length xs"
  by (induction xs rule: somes.induct) auto

lemma out_enough_dispatch:
  assumes "dispatch_run s = Some t" and "out_account owed s" and "out_history s" and "out_enough owed s"
  shows "out_enough owed t"
  using assms(1)
proof (cases rule: dispatch_run_cases)
  case dead
  then obtain q where "tsq_q (out_queue (nd s)) = None # q"
    by (cases "tsq_q (out_queue (nd s))") (auto simp: queue_simps)
  with dead assms(2,4) show ?thesis by (cases q) (auto simp: out_enough_def out_account_def)
next
  case crash
  then have "tsq_q (out_queue (nd s)) = []" by (cases "tsq_q (out_queue (nd s))") (auto simp: queue_simps)
  with crash assms(2,4) show ?thesis by (auto simp: out_enough_def out_account_def)
next
  case pop
  then obtain m q where "tsq_q (out_queue (nd s)) = Some m # q"
    using assms(3) by (auto simp: out_history_def Let_def)
  with pop assms(4) show ?thesis by (cases q) (auto simp: out_enough_def queue_simps)
qed (use assms(4) in \<open>auto simp: out_enough_def sem_wait_Some_iff\<close>)

lemma out_enough_control: "deinitialized d s = Some t \<Longrightarrow> out_enough owed s \<Longrightarrow> out_enough owed t"
  by (erule deinitialized_cases) (auto simp: out_enough_def)

definition src_ended :: "('h, 'w, 'd) src_sys \<Rightarrow> bool" where
  "src_ended s \<longleftrightarrow> (hpc s = SDeadSignal \<or> hpc s = SDone \<longrightarrow> out_enough (s_out (hpc s)) s)"

lemma out_exact_enough: "out_exact owed s \<Longrightarrow> out_enough owed s"
  by (auto simp: out_exact_def out_enough_def somes_all dest: in_set_butlastD)

lemma src_ended_handle:
  assumes "src_handle_run ops call s = Some t" and "source s \<noteq> None" and "src_exact s" and "src_ended s"
  shows "src_ended t"
  using assms(1)
proof (cases rule: src_handle_run_cases)
  case (opn d ok d')
  then show ?thesis using assms(3) out_exact_enough [of 0 s] by (auto simp: src_ended_def src_exact_def out_enough_def)
next
  case (dead_push d)
  then show ?thesis using assms(3) by (auto simp: src_ended_def src_exact_def out_exact_def out_enough_def somes_all queue_simps)
next
  case (dead_signal d)
  then show ?thesis using assms(4) by (auto simp: src_ended_def out_enough_def)
qed (use assms(2) in \<open>auto simp: src_ended_def\<close>)

lemma src_ended_more:
  assumes "src_ended s" and "out_queue (nd t) = out_queue (nd s)"
    and "out_queue_semaphore (nd t) = out_queue_semaphore (nd s)" and "hpc t = hpc s" and "dpc t = dpc s"
  shows "src_ended t"
  using assms by (simp add: src_ended_def out_enough_def)

lemma src_ended_destroy: "src_destroy ops s = Some t \<Longrightarrow> src_ended s \<Longrightarrow> src_ended t"
proof (erule src_destroy_cases)
  assume "deinitialized (hpc s = SDone) s = Some t" "src_ended s"
  then show "src_ended t"
    using deinitialized_src [of "hpc s = SDone" s t] out_enough_control [of "hpc s = SDone" s t]
    by (auto simp: src_ended_def)
qed (auto elim: src_ended_more)

lemma src_ended_reach: "src_reach ops call s \<Longrightarrow> src_ended s"
proof (induction rule: src_reach.induct)
  case (init n d w)
  show ?case by (simp add: src_ended_def)
next
  case (step s t)
  note inv = src_exact_reach [OF step.hyps(1)]
  from step.hyps(2) consider "src_handle_run ops call s = Some t" | "dispatch_run s = Some t"
    | "t = src_start s" | "t = src_stop s" | "src_destroy ops s = Some t"
    by (auto simp: src_step_iff src_thread_iff)
  then show ?case
  proof cases
    case 1
    then show ?thesis using inv step.IH by (intro src_ended_handle [OF 1]) (auto simp: src_order_def)
  next
    case 2
    then show ?thesis using inv step.IH dispatch_run_hpc [OF 2] out_enough_dispatch [OF 2]
      by (auto simp: src_ended_def src_queue_inv_def)
  next
    case 5
    then show ?thesis using step.IH by (rule src_ended_destroy)
  qed (use step.IH in \<open>auto simp: src_start_def src_stop_def elim: src_ended_more\<close>)
next
  case (world s w)
  then show ?case by (auto elim: src_ended_more)
qed

lemma ended_source:
  assumes "src_reach ops call s" and "alive (nd s)" and "hpc s = SDone" and "dispatch_run s = None"
  shows "processed s = delivered s"
proof -
  have inv: "out_account 0 s" "out_history s" "src_order s" "out_enough 0 s" "processed_inv s"
    using src_exact_reach [OF assms(1)] processed_inv_reach [OF assms(1)] src_ended_reach [OF assms(1)] assms(3)
    by (auto simp: src_queue_inv_def src_ended_def)
  then have "dpc s = DWait" "sem_count (out_queue_semaphore (nd s)) = 0"
    using blocked_dispatch [OF assms(4) inv(1)] assms(2) by (auto simp: src_order_def)
  then show ?thesis
    using inv assms(3) by (simp add: out_enough_def out_history_def processed_inv_def)
qed

section \<open>Nothing is left behind\<close>

text \<open>The threads of a node, or of a source, can do nothing.\<close>

definition node_blocked where
  "node_blocked ops call vm ctl P i \<longleftrightarrow>
     pipe_act ops call vm ctl (AtNode i NHandle) P = None \<and>
     pipe_act ops call vm ctl (AtNode i NDispatch) P = None \<and>
     pipe_act ops call vm ctl (Pushing (NodePub i)) P = None"

definition source_blocked where
  "source_blocked ops call vm ctl P k \<longleftrightarrow>
     pipe_act ops call vm ctl (AtSource k AHandle) P = None \<and>
     pipe_act ops call vm ctl (AtSource k ADispatch) P = None \<and>
     pipe_act ops call vm ctl (Pushing (SrcPub k)) P = None"

lemma push_blocked:
  assumes "push_act p P = None" and "push_inv ctl P"
  shows "pushing P p = PIdle \<and> (\<forall>m. pub_dpc P p \<noteq> DPush m)"
proof -
  have well: "push_well (pub_subs P p) (pub_dpc P p) ctl (pushing P p)"
    using assms(2) by (simp add: push_inv_def)
  show ?thesis
  proof (cases "pushing P p")
    case PIdle
    with assms(1) show ?thesis by (auto simp: push_act_def)
  next
    case (PNext b m vs)
    show ?thesis
    proof (cases "vs = [] \<and> \<not> b")
      case True
      with PNext well have "\<exists>R. dispatched p P = Some R" by (cases p) (auto simp: dispatch_run_def)
      with True PNext assms(1) show ?thesis by (auto simp: push_act_def)
    qed (use PNext assms(1) in \<open>auto simp: push_act_def split: list.splits bool.splits\<close>)
  qed (use assms(1) in \<open>auto simp: push_act_def\<close>)
qed

lemma handle_blocked_world [simp]: "handle_run vm (s\<lparr>world := w\<rparr>) = None \<longleftrightarrow> handle_run vm s = None"
  by (auto simp: handle_run_def split: handle_pc.splits option.splits list.splits)

lemma dispatch_blocked_world [simp]: "dispatch_run (s\<lparr>world := w\<rparr>) = None \<longleftrightarrow> dispatch_run s = None"
  by (auto simp: dispatch_run_def split: dispatch_pc.splits)

lemma node_blocked_inside:
  assumes "pipe_reach ops call vm ctl P" and "node_blocked ops call vm ctl P v"
    and "alive (nd (mids P v))" and "sole P p v" and "pushing P p = PIdle"
  shows "inside ty (mids P v) = cache (mids P v)"
proof -
  have other: "\<not> hooking m v (pushing P q)" "\<not> to_signal v (pushing P q)" for q m
  proof -
    have "push_well (pub_subs P q) (pub_dpc P q) ctl (pushing P q)"
      using push_inv_reach [OF assms(1)] by (simp add: push_inv_def)
    then show "\<not> hooking m v (pushing P q)" "\<not> to_signal v (pushing P q)"
      using sole_mem [OF assms(4), of q] assms(5) by (cases "pushing P q"; auto)+
  qed
  have "count (flows (mids P v)) m = 0" for m
    using flow_inv_reach [OF assms(1)] other(1) [of m]
    by (auto simp: flow_inv_def intro: counted_none [of "hooking m v" _ "pushing P"])
  then have "flows (mids P v) = {#}" by (simp add: multiset_eq_iff)
  moreover have "signalling (mids P v) = 0"
    using flow_inv_reach [OF assms(1)] other(2)
    by (auto simp: flow_inv_def intro: counted_none)
  moreover have "dpc (mids P v) \<noteq> DPush m" for m
    using push_blocked [of "NodePub v" P ctl] push_inv_reach [OF assms(1)] assms(2)
    by (simp add: node_blocked_def)
  ultimately show ?thesis
    using assms(2)
    by (intro blocked_node [OF pipe_reach_node [OF assms(1)] assms(3)])
      (auto simp: node_blocked_def own_act_def split: dispatch_pc.splits)
qed

lemma chain_blocked:
  assumes "pipe_reach ops call vm ctl P"
  shows "chain P p (v # vs) \<Longrightarrow> pushing P p = PIdle \<Longrightarrow>
    \<forall>i \<in> set (v # vs). node_blocked ops call vm ctl P i \<and> alive (nd (mids P i)) \<Longrightarrow>
    under_way ty P v vs = concat (map (\<lambda>i. cache (mids P i)) (rev (v # vs)))"
proof (induction vs arbitrary: p v)
  case Nil
  then show ?case using node_blocked_inside [OF assms, of v p ty] by simp
next
  case (Cons w ws)
  have idle: "pushing P (NodePub v) = PIdle"
    using push_blocked [of "NodePub v" P ctl] push_inv_reach [OF assms] Cons.prems(3)
    by (simp add: node_blocked_def)
  then have "under_way ty P w ws = concat (map (\<lambda>i. cache (mids P i)) (rev (w # ws)))"
    using Cons.IH [of "NodePub v" w] Cons.prems by simp
  then show ?case
    using idle node_blocked_inside [OF assms, of v p ty] Cons.prems by simp
qed

text \<open>
  A handle thread that can do nothing waits at the gate or has come to its end, if no exception of
  the source or of the script has ended it.
\<close>

lemma src_handle_blocked:
  assumes "src_handle_run ops call (s\<lparr>world := w\<rparr>) = None" and "source s \<noteq> None"
    and "\<forall>e. hpc s \<noteq> SCrash e"
  shows "hpc s = SKnock \<or> hpc s = SDone"
  using assms by (cases "hpc s") (auto simp: src_handle_run_def split: prod.splits)

lemma source_at_rest:
  assumes "pipe_reach ops call vm ctl P" and "source_blocked ops call vm ctl P k"
    and "\<forall>e. hpc (srcs P k) \<noteq> SCrash e" and "alive (nd (srcs P k))"
  shows "pushing P (SrcPub k) = PIdle" and "processed (srcs P k) = delivered (srcs P k)"
proof -
  note src = pipe_reach_src [OF assms(1), of k]
  have idle: "pushing P (SrcPub k) = PIdle" "\<And>m. dpc (srcs P k) \<noteq> DPush m"
    using push_blocked [of "SrcPub k" P ctl] push_inv_reach [OF assms(1)] assms(2)
    by (simp_all add: source_blocked_def)
  then have "dispatch_run (srcs P k) = None"
    using assms(2) by (auto simp: source_blocked_def src_own_act_def split: dispatch_pc.splits)
  moreover have "source (srcs P k) \<noteq> None" using src_exact_reach [OF src] by (simp add: src_order_def)
  with assms(2,3) have "hpc (srcs P k) = SKnock \<or> hpc (srcs P k) = SDone"
    by (intro src_handle_blocked) (auto simp: source_blocked_def src_own_act_def)
  ultimately show "processed (srcs P k) = delivered (srcs P k)"
    using blocked_source [OF src assms(4)] ended_source [OF src assms(4)] by blast
  show "pushing P (SrcPub k) = PIdle" by (rule idle)
qed

lemma chain_at_rest:
  assumes "pipe_reach ops call vm ctl P" and "\<forall>m. ctl m \<longrightarrow> ty m = CONTROL"
    and "chain P (SrcPub k) (v # vs)" and "\<forall>i \<in> set (v # vs). typed_methods ty (vm i)"
    and "source_blocked ops call vm ctl P k" and "\<forall>e. hpc (srcs P k) \<noteq> SCrash e"
    and "alive (nd (srcs P k))"
    and "\<forall>i \<in> set (v # vs). node_blocked ops call vm ctl P i \<and> alive (nd (mids P i))"
  shows "subseq (delivered (mids P (last (v # vs))) @ concat (map (\<lambda>i. cache (mids P i)) (rev (v # vs))))
      (frames ty (processed (srcs P k))) \<and>
    ((\<forall>i \<in> set (v # vs). keeps_controls (vm i)) \<longrightarrow>
      frames ty (processed (srcs P k)) = delivered (mids P (last (v # vs))) @
        concat (map (\<lambda>i. cache (mids P i)) (rev (v # vs))))"
  using chain_order [OF assms(1-4)] chain_account [OF assms(1-3)] assms(4)
    source_at_rest [OF assms(1,5-7)]
    chain_blocked [OF assms(1,3) source_at_rest(1) [OF assms(1,5-7)] assms(8)]
  by (simp del: last.simps)

end
