(* ===== verification/Potential.thy ===== *)
theory Potential
  imports Main
begin

text \<open>
  Runs that come to an end: a system whose every action uses up some of a potential runs for a
  bounded number of steps, whatever the order of its actions, and can be run until none of them
  is possible any more.
\<close>

fun run_actions :: "('a \<Rightarrow> 's \<Rightarrow> 's option) \<Rightarrow> 'a list \<Rightarrow> 's \<Rightarrow> 's option" where
  "run_actions act [] s = Some s"
| "run_actions act (a # as) s = Option.bind (act a s) (run_actions act as)"

locale potential =
  fixes act :: "'a \<Rightarrow> 's \<Rightarrow> 's option"
    and among :: "'a set"
    and ok :: "'s \<Rightarrow> bool"
    and pot :: "'s \<Rightarrow> nat"
  assumes ok_act: "ok s \<Longrightarrow> a \<in> among \<Longrightarrow> act a s = Some t \<Longrightarrow> ok t"
    and pot_act: "ok s \<Longrightarrow> a \<in> among \<Longrightarrow> act a s = Some t \<Longrightarrow> pot t < pot s"
begin

lemma run_bound:
  "ok s \<Longrightarrow> set as \<subseteq> among \<Longrightarrow> run_actions act as s = Some t \<Longrightarrow> ok t \<and> length as + pot t \<le> pot s"
proof (induction as arbitrary: s)
  case (Cons a as)
  then obtain u where u: "act a s = Some u" "run_actions act as u = Some t"
    by (cases "act a s") auto
  with Cons ok_act [of s a u] pot_act [of s a u] show ?case by fastforce
qed simp

lemma run_to_rest:
  "ok s \<Longrightarrow> \<exists>as t. set as \<subseteq> among \<and> run_actions act as s = Some t \<and> (\<forall>a\<in>among. act a t = None)"
proof (induction "pot s" arbitrary: s rule: less_induct)
  case less
  show ?case
  proof (cases "\<forall>a\<in>among. act a s = None")
    case True
    then have "set [] \<subseteq> among \<and> run_actions act [] s = Some s \<and> (\<forall>a\<in>among. act a s = None)" by simp
    then show ?thesis by blast
  next
    case False
    then obtain a u where u: "a \<in> among" "act a s = Some u" by auto
    with less ok_act pot_act obtain as t where
      "set as \<subseteq> among" "run_actions act as u = Some t" "\<forall>a\<in>among. act a t = None"
      by blast
    with u have "set (a # as) \<subseteq> among \<and> run_actions act (a # as) s = Some t \<and> (\<forall>a\<in>among. act a t = None)"
      by simp
    then show ?thesis by blast
  qed
qed

end

end
