(* ===== verification/PipelineRest.thy ===== *)
theory PipelineRest
  imports PipelineFlow Potential
begin

text \<open>
  A stopped pipeline comes to rest. While the gates of its sources are closed, the threads of a
  part of the pipeline without cycles take a bounded number of steps, whatever the schedule and
  whatever the handlers do. The potential is a number of steps still to come: each signal of a
  semaphore pays for the way of a meta through its node and to all nodes behind it.
\<close>

section \<open>What a signal is worth\<close>

text \<open>
  The steps behind one signal of the in-queue of node \<open>v\<close>, when there are fewer than \<open>d\<close> nodes
  on every way from it: for each subscriber the three statements of \<open>push_meta\<close> and the steps
  behind its signal. They count twice, once for the meta and once for the dead flag, which the
  handle thread may signal after it.
\<close>

fun signal_steps :: "(publisher \<Rightarrow> nat list) \<Rightarrow> nat \<Rightarrow> nat \<Rightarrow> nat" where
  "signal_steps subs 0 v = 0"
| "signal_steps subs (Suc d) v = 26 + 2 * (\<Sum>u\<leftarrow>subs (NodePub v). 3 + signal_steps subs d u)"

lemma signal_steps_mono:
  "d \<le> e \<Longrightarrow> signal_steps subs d v \<le> signal_steps subs e v"
proof (induction subs d v arbitrary: e rule: signal_steps.induct)
  case (2 subs d v)
  then obtain e' where e: "e = Suc e'" "d \<le> e'" by (cases e) auto
  have "(\<Sum>u\<leftarrow>subs (NodePub v). 3 + signal_steps subs d u) \<le>
      (\<Sum>u\<leftarrow>subs (NodePub v). 3 + signal_steps subs e' u)"
    using 2 e by (intro sum_list_mono) simp
  then show ?case by (simp add: e)
qed simp

text \<open>\<open>depth\<close> ranks the nodes: a node comes before its subscribers.\<close>

definition in_worth :: "(nat \<Rightarrow> nat) \<Rightarrow> (publisher \<Rightarrow> nat list) \<Rightarrow> nat \<Rightarrow> nat" where
  "in_worth depth subs v = signal_steps subs (Suc (depth v)) v"

definition push_worth :: "(nat \<Rightarrow> nat) \<Rightarrow> (publisher \<Rightarrow> nat list) \<Rightarrow> nat list \<Rightarrow> nat" where
  "push_worth depth subs vs = (\<Sum>u\<leftarrow>vs. 3 + in_worth depth subs u)"

lemma push_worth_simps [simp]:
  "push_worth depth subs [] = 0"
  "push_worth depth subs (v # vs) = 3 + in_worth depth subs v + push_worth depth subs vs"
  by (simp_all add: push_worth_def)

lemma in_worth_enough:
  assumes "\<forall>u \<in> set (subs (NodePub v)). depth u < depth v"
  shows "26 + 2 * push_worth depth subs (subs (NodePub v)) \<le> in_worth depth subs v"
proof -
  have "push_worth depth subs (subs (NodePub v)) \<le>
      (\<Sum>u\<leftarrow>subs (NodePub v). 3 + signal_steps subs (depth v) u)"
    unfolding push_worth_def in_worth_def
    using assms by (intro sum_list_mono add_left_mono signal_steps_mono) (simp add: Suc_le_eq)
  then show ?thesis by (simp add: in_worth_def)
qed

section \<open>The potential of a node\<close>

text \<open>The handle thread; \<open>o\<close> is the worth of a signal of the out-queue, \<open>c\<close> the length of the cache.\<close>

fun h_pot :: "nat \<Rightarrow> nat \<Rightarrow> handle_pc \<Rightarrow> nat" where
  "h_pot o_w c HDone = 0"
| "h_pot o_w c HDeadSignal = 1 + o_w"
| "h_pot o_w c HDeadPush = 2 + o_w"
| "h_pot o_w c HTop = 3 + o_w + c * (3 + o_w)"
| "h_pot o_w c HWait = 1 + c * (3 + o_w)"
| "h_pot o_w c HPop = 10 + 2 * o_w + c * (3 + o_w)"
| "h_pot o_w c (HHook m) = 9 + 2 * o_w + c * (3 + o_w)"
| "h_pot o_w c (HHandle m) = 8 + 2 * o_w + c * (3 + o_w)"
| "h_pot o_w c (HPush xs) = 4 + o_w + length xs * (3 + o_w)"
| "h_pot o_w c (HSignal xs) = 5 + 2 * o_w + length xs * (3 + o_w)"
| "h_pot o_w c (HHandled x xs) = 6 + 2 * o_w + length xs * (3 + o_w)"

text \<open>The handle thread of a source whose gate is closed.\<close>

fun s_pot :: "nat \<Rightarrow> src_pc \<Rightarrow> nat" where
  "s_pot o_w SDone = 0"
| "s_pot o_w (SCrash e) = 0"
| "s_pot o_w SKnock = 0"
| "s_pot o_w SDeadSignal = 1 + o_w"
| "s_pot o_w SDeadPush = 2 + o_w"
| "s_pot o_w STopOpen = 3 + o_w"
| "s_pot o_w STop = 4 + o_w"
| "s_pot o_w SOpen = 5 + o_w"
| "s_pot o_w SStart = 6 + o_w"
| "s_pot o_w SSleep = 5 + o_w"
| "s_pot o_w SSignal = 6 + 2 * o_w"
| "s_pot o_w (SHandle m) = 7 + 2 * o_w"
| "s_pot o_w (SPush m) = 8 + 2 * o_w"
| "s_pot o_w SGet = 9 + 2 * o_w"
| "s_pot o_w SAlive = 10 + 2 * o_w"

text \<open>The dispatch thread, with the worth \<open>p\<close> of a call of \<open>push_meta\<close>, and the call under way.\<close>

fun d_pot :: "nat \<Rightarrow> dispatch_pc \<Rightarrow> push_pc \<Rightarrow> nat" where
  "d_pot p DTop x = 2"
| "d_pot p DWait x = 1"
| "d_pot p DFront x = 8 + p"
| "d_pot p (DLeave m) x = 7 + p"
| "d_pot p (DPush m) (PNext False m' vs) = 4"
| "d_pot p (DPush m) (PHook False m' v vs) = 4"
| "d_pot p (DPush m) (PSignal False m' v vs) = 4"
| "d_pot p (DPush m) x = 6 + p"
| "d_pot p DPop x = 3"
| "d_pot p DDone x = 0"
| "d_pot p (DCrash e) x = 0"

fun p_pot :: "(nat \<Rightarrow> nat) \<Rightarrow> (nat list \<Rightarrow> nat) \<Rightarrow> push_pc \<Rightarrow> nat" where
  "p_pot worth pw PIdle = 0"
| "p_pot worth pw (PNext b m vs) = 1 + pw vs"
| "p_pot worth pw (PHook b m v vs) = 3 + worth v + pw vs"
| "p_pot worth pw (PSignal b m v vs) = 2 + worth v + pw vs"

definition sem_pot :: "vp_semaphore \<Rightarrow> nat" where
  "sem_pot s = nat (sem_count s)"

lemma sem_pot_simps [simp]:
  "sem_wait s = Some s' \<Longrightarrow> sem_pot s = Suc (sem_pot s')"
  "sem_pot (sem_signal s) \<le> Suc (sem_pot s)"
  by (auto simp: sem_pot_def sem_wait_Some_iff)

text \<open>
  A node and a source, each with its dispatch thread; \<open>a\<close> is the worth of a signal of the in-queue.
\<close>

definition out_worth :: "nat \<Rightarrow> nat" where
  "out_worth p = 8 + p"

definition out_pot :: "nat \<Rightarrow> push_pc \<Rightarrow> ('h, 'w, 'p, 'z) node_sys_scheme \<Rightarrow> nat" where
  "out_pot p x s = sem_pot (out_queue_semaphore (nd s)) * out_worth p + d_pot p (dpc s) x"

definition node_pot :: "nat \<Rightarrow> nat \<Rightarrow> push_pc \<Rightarrow> ('h, 'w, handle_pc) node_sys \<Rightarrow> nat" where
  "node_pot a p x s = sem_pot (in_queue_semaphore (nd s)) * a +
     h_pot (out_worth p) (length (cache s)) (hpc s) + out_pot p x s"

definition src_pot :: "nat \<Rightarrow> push_pc \<Rightarrow> ('h, 'w, 'd) src_sys \<Rightarrow> nat" where
  "src_pot p x s = s_pot (out_worth p) (hpc s) + out_pot p x s"

lemma sem_paid: "sem_pot s' * w + w = sem_pot s * w" if "sem_wait s = Some s'"
  using that by simp

lemma sem_cost: "sem_pot (sem_signal s) * w \<le> sem_pot s * w + w"
  using mult_le_mono1 [OF sem_pot_simps(2) [of s], of w] by simp

lemma h_pot_handle_meta:
  assumes "hpc s = HHandle m"
  shows "h_pot o_w (length (cache (handle_meta vm m s))) (hpc (handle_meta vm m s)) <
    h_pot o_w (length (cache s)) (hpc s)"
  using assms
  by (auto simp: handle_meta_def Let_def algebra_simps split: vp_meta_type.split prod.split option.split)

lemma node_pot_handle:
  assumes "handle_run vm s = Some t" and "26 + 2 * p \<le> a"
  shows "node_pot a p x t < node_pot a p x s"
  using assms(1)
proof (cases rule: handle_run_cases)
  case (wait sem)
  then show ?thesis using assms(2) sem_paid [OF wait(2), of a]
    by (simp add: node_pot_def out_pot_def out_worth_def)
next
  case (handle m)
  have "nd (handle_meta vm m s) = nd s" "dpc (handle_meta vm m s) = dpc s"
    by (auto simp: handle_meta_def Let_def split: vp_meta_type.split prod.split option.split)
  with handle show ?thesis using h_pot_handle_meta [OF handle(1), of "out_worth p" vm]
    by (simp add: node_pot_def out_pot_def)
next
  case (signal xs)
  then show ?thesis using sem_cost [of "out_queue_semaphore (nd s)" "out_worth p"]
    by (simp add: node_pot_def out_pot_def)
next
  case dead_signal
  then show ?thesis using sem_cost [of "out_queue_semaphore (nd s)" "out_worth p"]
    by (simp add: node_pot_def out_pot_def)
qed (auto simp: node_pot_def out_pot_def algebra_simps)

lemma src_pot_handle:
  assumes "src_handle_run ops call s = Some t" and "\<not> gate_opened (gate s)"
  shows "src_pot p x t < src_pot p x s" and "gate t = gate s"
proof -
  show "gate t = gate s" using assms by (cases rule: src_handle_run_cases) simp_all
  show "src_pot p x t < src_pot p x s"
    using assms sem_cost [of "out_queue_semaphore (nd s)" "out_worth p"]
    by (cases rule: src_handle_run_cases) (simp_all add: src_pot_def out_pot_def)
qed

lemma d_pot_DPush: "d_pot p (DPush m) x < 7 + p"
  by (cases "(p, DPush m, x)" rule: d_pot.cases) simp_all

lemma out_pot_dispatch:
  assumes "dispatch_run s = Some t" and "\<forall>m. dpc s \<noteq> DPush m"
  shows "out_pot p x t < out_pot p x s"
  using assms(1)
proof (cases rule: dispatch_run_cases)
  case (wait sem)
  then show ?thesis using sem_paid [OF wait(2), of "out_worth p"] by (simp add: out_pot_def out_worth_def)
qed (use assms(2) d_pot_DPush in \<open>auto simp: out_pot_def\<close>)

lemma dispatch_keeps_rest:
  "dispatch_run s = Some t \<Longrightarrow>
    in_queue_semaphore (nd t) = in_queue_semaphore (nd s) \<and> cache t = cache s \<and> hpc t = hpc s"
  by (erule dispatch_run_cases) simp_all

lemma dispatch_keeps_gate: "dispatch_run s = Some t \<Longrightarrow> gate t = gate s"
  by (erule dispatch_run_cases) simp_all

section \<open>The potential of a part of a pipeline\<close>

fun pub_pot ::
    "(nat \<Rightarrow> nat) \<Rightarrow> (publisher \<Rightarrow> nat list) \<Rightarrow> ('h, 'w, 'd) pipeline \<Rightarrow> publisher \<Rightarrow> nat" where
  "pub_pot depth subs P (NodePub i) =
     node_pot (in_worth depth subs i) (push_worth depth subs (subs (NodePub i)))
       (pushing P (NodePub i)) (mids P i) +
     p_pot (in_worth depth subs) (push_worth depth subs) (pushing P (NodePub i))"
| "pub_pot depth subs P (SrcPub k) =
     src_pot (push_worth depth subs (subs (SrcPub k))) (pushing P (SrcPub k)) (srcs P k) +
     p_pot (in_worth depth subs) (push_worth depth subs) (pushing P (SrcPub k))"

definition pipe_pot ::
    "(nat \<Rightarrow> nat) \<Rightarrow> (publisher \<Rightarrow> nat list) \<Rightarrow> publisher set \<Rightarrow> ('h, 'w, 'd) pipeline \<Rightarrow> nat" where
  "pipe_pot depth subs A P = (\<Sum>q\<in>A. pub_pot depth subs P q)"

text \<open>The handle and dispatch threads of a part of a pipeline, calls of \<open>push_meta\<close> included.\<close>

definition threads_of :: "publisher set \<Rightarrow> pipe_action set" where
  "threads_of A = Pushing ` A \<union>
     {AtNode i b |i b. NodePub i \<in> A \<and> (b = NHandle \<or> b = NDispatch)} \<union>
     {AtSource k b |k b. SrcPub k \<in> A \<and> (b = AHandle \<or> b = ADispatch)}"

text \<open>
  A part of a pipeline that is closed under subscription, has no cycle and whose sources are
  stopped.
\<close>

definition stopped_part ::
    "(nat \<Rightarrow> nat) \<Rightarrow> (publisher \<Rightarrow> nat list) \<Rightarrow> publisher set \<Rightarrow> ('h, 'w, 'd) pipeline \<Rightarrow> bool" where
  "stopped_part depth subs A P \<longleftrightarrow> finite A \<and> pub_subs P = subs \<and>
     (\<forall>q \<in> A. \<forall>v \<in> set (subs q). NodePub v \<in> A) \<and>
     (\<forall>i. NodePub i \<in> A \<longrightarrow> (\<forall>v \<in> set (subs (NodePub i)). depth v < depth i)) \<and>
     (\<forall>k. SrcPub k \<in> A \<longrightarrow> \<not> gate_opened (gate (srcs P k)))"

lemma sum_change:
  fixes f g :: "'a \<Rightarrow> nat"
  assumes "finite A" and "q \<in> A" and "\<And>r. r \<noteq> q \<Longrightarrow> f r = g r"
  shows "sum f A + g q = sum g A + f q"
proof -
  have "sum f (A - {q}) = sum g (A - {q})" using assms(3) by (intro sum.cong) auto
  then show ?thesis using assms(1,2) by (simp add: sum.remove)
qed

lemma pipe_pot_change:
  assumes "finite A" and "q \<in> A"
    and "\<And>r. r \<noteq> q \<Longrightarrow> pub_pot depth subs Q r = pub_pot depth subs P r"
  shows "pipe_pot depth subs A Q + pub_pot depth subs P q = pipe_pot depth subs A P + pub_pot depth subs Q q"
  using sum_change [OF assms] by (simp add: pipe_pot_def)

lemma pot_world [simp]:
  "node_pot a p x (s\<lparr>world := w\<rparr>) = node_pot a p x s"
  "src_pot p x (r\<lparr>world := w\<rparr>) = src_pot p x r"
  by (simp_all add: node_pot_def src_pot_def out_pot_def)

lemma pub_pot_metas [simp]: "pub_pot depth subs (P\<lparr>metas := w\<rparr>) q = pub_pot depth subs P q"
  by (cases q) simp_all

lemma node_pot_own:
  assumes "own_act vm b s = Some t" and "b = NHandle \<or> b = NDispatch" and "26 + 2 * p \<le> a"
  shows "node_pot a p x t < node_pot a p x s"
proof -
  consider "handle_run vm s = Some t" | "dispatch_run s = Some t" "\<forall>m. dpc s \<noteq> DPush m"
    using assms(1,2) by (auto simp: own_act_def split: dispatch_pc.splits)
  then show ?thesis
  proof cases
    case 1
    then show ?thesis using assms(3) by (rule node_pot_handle)
  next
    case 2
    then show ?thesis using out_pot_dispatch [OF 2] dispatch_keeps_rest [OF 2(1)]
      by (simp add: node_pot_def)
  qed
qed

lemma src_pot_own:
  assumes "src_own_act ops call b s = Some t" and "b = AHandle \<or> b = ADispatch"
    and "\<not> gate_opened (gate s)"
  shows "src_pot p x t < src_pot p x s \<and> gate t = gate s"
proof -
  consider "src_handle_run ops call s = Some t" | "dispatch_run s = Some t" "\<forall>m. dpc s \<noteq> DPush m"
    using assms(1,2) by (auto simp: src_own_act_def split: dispatch_pc.splits)
  then show ?thesis
  proof cases
    case 1
    then show ?thesis using src_pot_handle [OF 1 assms(3)] by simp
  next
    case 2
    from 2(1) have "gate t = gate s" by (rule dispatch_keeps_gate)
    then show ?thesis using out_pot_dispatch [OF 2] dispatch_keeps_rest [OF 2(1)]
      by (simp add: src_pot_def)
  qed
qed

section \<open>Every step of the threads uses up the potential\<close>

lemma pipe_pot_less:
  assumes "finite A" and "q \<in> A"
    and "\<And>r. r \<noteq> q \<Longrightarrow> pub_pot depth subs Q r = pub_pot depth subs P r"
    and "pub_pot depth subs Q q < pub_pot depth subs P q"
  shows "pipe_pot depth subs A Q < pipe_pot depth subs A P"
  using pipe_pot_change [OF assms(1,2), where depth = depth and subs = subs, OF assms(3)] assms(4)
  by simp

lemma pub_pot_mid: "q \<noteq> NodePub v \<Longrightarrow> pub_pot depth subs (set_mid v s P) q = pub_pot depth subs P q"
  by (cases q) simp_all

lemma pub_pot_src: "q \<noteq> SrcPub k \<Longrightarrow> pub_pot depth subs (set_src k s P) q = pub_pot depth subs P q"
  by (cases q) simp_all

lemma pub_pot_push: "q \<noteq> p \<Longrightarrow> pub_pot depth subs (set_push p x P) q = pub_pot depth subs P q"
  by (cases q) simp_all

text \<open>The three statements of \<open>push_meta\<close>: only the signal adds to the potential of the subscriber.\<close>

lemma pub_pot_flow [simp]:
  "pub_pot depth subs (set_mid v (flow_pushed m (mids P v)) P) q = pub_pot depth subs P q"
  "pub_pot depth subs (set_mid v (flow_hooked m (mids P v)) P) q = pub_pot depth subs P q"
  by (cases q; simp add: node_pot_def out_pot_def flow_pushed_def flow_hooked_def)+

lemma pipe_pot_signal:
  assumes "finite A" and "NodePub v \<in> A"
  shows "pipe_pot depth subs A (set_mid v (flow_signalled (mids P v)) P) \<le>
    pipe_pot depth subs A P + in_worth depth subs v"
proof -
  let ?Q = "set_mid v (flow_signalled (mids P v)) P"
  have "pub_pot depth subs ?Q (NodePub v) \<le> pub_pot depth subs P (NodePub v) + in_worth depth subs v"
    using sem_cost [of "in_queue_semaphore (nd (mids P v))" "in_worth depth subs v"]
    by (simp add: node_pot_def out_pot_def flow_signalled_def)
  then show ?thesis
    using pipe_pot_change [OF assms, of depth subs ?Q P] pub_pot_mid by fastforce
qed

text \<open>What the potential counts for the place of a publisher inside \<open>push_meta\<close>.\<close>

abbreviation place_pot where
  "place_pot depth subs P q x \<equiv> d_pot (push_worth depth subs (subs q)) (pub_dpc P q) x +
     p_pot (in_worth depth subs) (push_worth depth subs) x"

lemma pub_pot_place:
  "pub_pot depth subs (set_push q x P) q + place_pot depth subs P q (pushing P q) =
   pub_pot depth subs P q + place_pot depth subs P q x"
  by (cases q) (simp_all add: node_pot_def src_pot_def out_pot_def)

lemma pipe_pot_place:
  assumes "finite A" and "q \<in> A"
    and "place_pot depth subs P q x + k < place_pot depth subs P q (pushing P q)"
  shows "pipe_pot depth subs A (set_push q x P) + k < pipe_pot depth subs A P"
  using pipe_pot_change [OF assms(1,2), of depth subs "set_push q x P" P] pub_pot_push
    pub_pot_place [of depth subs q x P] assms(3)
  by fastforce

lemma dispatched_pot:
  assumes "dispatched p P = Some R" and "pub_dpc P p = DPush m" and "pushing P p = PNext False m []"
  shows "pub_pot depth subs (set_push p PIdle R) p < pub_pot depth subs P p"
  using assms
  by (cases p) (auto simp: dispatch_run_def node_pot_def src_pot_def out_pot_def)

lemma dispatched_pot_other:
  "dispatched p P = Some R \<Longrightarrow> q \<noteq> p \<Longrightarrow> pub_pot depth subs R q = pub_pot depth subs P q"
  by (cases p) (auto simp: pub_pot_mid pub_pot_src)

lemma d_pot_spoken [simp]:
  "d_pot p pc (PNext True m vs) = d_pot p pc PIdle"
  "d_pot p pc (PHook True m v vs) = d_pot p pc PIdle"
  "d_pot p pc (PSignal True m v vs) = d_pot p pc PIdle"
  by (cases pc; simp)+

lemma push_act_pot:
  assumes "push_act p P = Some Q" and "p \<in> A" and "push_inv ctl P" and "stopped_part depth subs A P"
  shows "pipe_pot depth subs A Q < pipe_pot depth subs A P"
proof -
  have A: "finite A" "pub_subs P = subs" using assms(4) by (simp_all add: stopped_part_def)
  have well: "push_well (subs p) (pub_dpc P p) ctl (pushing P p)"
    using assms(3) A(2) by (auto simp: push_inv_def)
  note place = pipe_pot_place [OF A(1) assms(2)]
  from assms(1) show ?thesis
  proof (cases rule: push_act_cases)
    case (start m)
    then show ?thesis using place [of depth subs P "PNext False m (subs p)" 0] A(2) by simp
  next
    case (flow_push b m v vs)
    let ?P = "set_mid v (flow_pushed m (mids P v)) P"
    have "pipe_pot depth subs A ?P = pipe_pot depth subs A P" by (simp add: pipe_pot_def)
    with flow_push well show ?thesis
      using place [of depth subs ?P "PHook b m v vs" 0] by (cases b) simp_all
  next
    case (flow_hook b m v vs)
    let ?P = "set_mid v (flow_hooked m (mids P v)) P"
    have "pipe_pot depth subs A ?P = pipe_pot depth subs A P" by (simp add: pipe_pot_def)
    with flow_hook well show ?thesis
      using place [of depth subs ?P "PSignal b m v vs" 0] by (cases b) simp_all
  next
    case (flow_signal b m v vs)
    let ?P = "set_mid v (flow_signalled (mids P v)) P"
    have "NodePub v \<in> A" using flow_signal(1) well assms(2,4) by (auto simp: stopped_part_def)
    with flow_signal well show ?thesis
      using place [of depth subs ?P "PNext b m vs" "in_worth depth subs v"]
        pipe_pot_signal [OF A(1), of v depth subs P]
      by (cases b) simp_all
  next
    case (spoken m)
    then show ?thesis using place [of depth subs P PIdle 0] by (cases "pub_dpc P p") simp_all
  next
    case (pushed m R)
    have "pub_dpc P p = DPush m" using pushed(1) well by simp
    then show ?thesis
      using pipe_pot_less [OF A(1) assms(2), of depth subs Q P] pushed
        dispatched_pot [OF pushed(2) _ pushed(1)] dispatched_pot_other [OF pushed(2)] pub_pot_push
      by metis
  qed
qed

lemma threads_of_mem:
  "Pushing p \<in> threads_of A \<longleftrightarrow> p \<in> A"
  "AtNode i b \<in> threads_of A \<longleftrightarrow> NodePub i \<in> A \<and> (b = NHandle \<or> b = NDispatch)"
  "AtSource k c \<in> threads_of A \<longleftrightarrow> SrcPub k \<in> A \<and> (c = AHandle \<or> c = ADispatch)"
  by (auto simp: threads_of_def)

lemma threads_of_cases:
  assumes "a \<in> threads_of A" and "pipe_act ops call vm ctl a P = Some Q"
  obtains (node) i b t where "NodePub i \<in> A" "b = NHandle \<or> b = NDispatch"
      "own_act (vm i) b ((mids P i)\<lparr>world := metas P\<rparr>) = Some t"
      "Q = (set_mid i t P)\<lparr>metas := world t\<rparr>"
  | (src) k b t where "SrcPub k \<in> A" "b = AHandle \<or> b = ADispatch"
      "src_own_act ops call b ((srcs P k)\<lparr>world := metas P\<rparr>) = Some t"
      "Q = (set_src k t P)\<lparr>metas := world t\<rparr>"
  | (push) p where "p \<in> A" "push_act p P = Some Q"
proof -
  from assms(1) consider p where "a = Pushing p" "p \<in> A"
    | i b where "a = AtNode i b" "NodePub i \<in> A" "b = NHandle \<or> b = NDispatch"
    | k b where "a = AtSource k b" "SrcPub k \<in> A" "b = AHandle \<or> b = ADispatch"
    by (auto simp: threads_of_def)
  then show thesis
  proof cases
    case 1
    with assms(2) show thesis by (intro push) simp_all
  next
    case (2 i b)
    with assms(2) obtain t where "own_act (vm i) b ((mids P i)\<lparr>world := metas P\<rparr>) = Some t"
      "Q = (set_mid i t P)\<lparr>metas := world t\<rparr>"
      by auto
    with 2 show thesis by (intro node)
  next
    case (3 k b)
    with assms(2) obtain t where "src_own_act ops call b ((srcs P k)\<lparr>world := metas P\<rparr>) = Some t"
      "Q = (set_src k t P)\<lparr>metas := world t\<rparr>"
      by auto
    with 3 show thesis by (intro src)
  qed
qed

lemma threads_use_potential:
  assumes "a \<in> threads_of A" and "pipe_act ops call vm ctl a P = Some Q"
    and "push_inv ctl P" and "stopped_part depth subs A P"
  shows "pipe_pot depth subs A Q < pipe_pot depth subs A P"
  using assms(1,2)
proof (cases rule: threads_of_cases)
  case (node i b t)
  have "26 + 2 * push_worth depth subs (subs (NodePub i)) \<le> in_worth depth subs i"
    using assms(4) node(1) by (intro in_worth_enough) (simp add: stopped_part_def)
  from node_pot_own [OF node(3,2) this, of "pushing P (NodePub i)"] node assms(4) show ?thesis
    by (intro pipe_pot_less [OF _ node(1)]) (simp_all add: stopped_part_def pub_pot_mid)
next
  case (src k b t)
  then have "\<not> gate_opened (gate ((srcs P k)\<lparr>world := metas P\<rparr>))"
    using assms(4) by (simp add: stopped_part_def)
  from src_pot_own [OF src(3,2) this, of _ "pushing P (SrcPub k)"] src assms(4) show ?thesis
    by (intro pipe_pot_less [OF _ src(1)]) (simp_all add: stopped_part_def pub_pot_src)
next
  case (push p)
  then show ?thesis using assms(3,4) by (intro push_act_pot)
qed

text \<open>No thread opens a gate or clears \<open>alive\<close>.\<close>

lemma dispatch_keeps_alive: "dispatch_run s = Some t \<Longrightarrow> alive (nd t) = alive (nd s)"
  by (erule dispatch_run_cases) simp_all

lemma handle_keeps_alive: "handle_run vm s = Some t \<Longrightarrow> alive (nd t) = alive (nd s)"
  by (erule handle_run_cases)
    (simp_all add: handle_meta_def Let_def split: vp_meta_type.split prod.split option.split)

lemma src_handle_keeps_alive: "src_handle_run ops call s = Some t \<Longrightarrow> alive (nd t) = alive (nd s)"
  by (erule src_handle_run_cases) simp_all

lemma dispatched_gates:
  "dispatched p P = Some R \<Longrightarrow> gate (srcs R k) = gate (srcs P k) \<and>
    alive (nd (srcs R k)) = alive (nd (srcs P k)) \<and> alive (nd (mids R i)) = alive (nd (mids P i))"
  by (cases p) (auto dest: dispatch_keeps_alive dispatch_keeps_gate split: if_splits)

lemma push_act_gates:
  "push_act p P = Some Q \<Longrightarrow> gate (srcs Q k) = gate (srcs P k) \<and>
    alive (nd (srcs Q k)) = alive (nd (srcs P k)) \<and> alive (nd (mids Q i)) = alive (nd (mids P i))"
  by (erule push_act_cases) (simp_all add: dispatched_gates)

lemma own_act_alive:
  "own_act vm b s = Some t \<Longrightarrow> b = NHandle \<or> b = NDispatch \<Longrightarrow> alive (nd t) = alive (nd s)"
  by (auto simp: own_act_def handle_keeps_alive dispatch_keeps_alive split: dispatch_pc.splits)

lemma src_own_act_alive:
  "src_own_act ops call b s = Some t \<Longrightarrow> b = AHandle \<or> b = ADispatch \<Longrightarrow> alive (nd t) = alive (nd s)"
  by (auto simp: src_own_act_def src_handle_keeps_alive dispatch_keeps_alive split: dispatch_pc.splits)

lemma threads_keep_alive:
  assumes "a \<in> threads_of A" and "pipe_act ops call vm ctl a P = Some Q"
  shows "alive (nd (srcs Q k)) = alive (nd (srcs P k)) \<and> alive (nd (mids Q i)) = alive (nd (mids P i))"
  using assms
proof (cases rule: threads_of_cases)
  case (node j b t)
  then show ?thesis using own_act_alive [OF node(3,2)] by simp
next
  case (src j b t)
  then show ?thesis using src_own_act_alive [OF src(3,2)] by simp
next
  case (push p)
  then show ?thesis using push_act_gates by blast
qed

lemma threads_keep_stopped:
  assumes "a \<in> threads_of A" and "pipe_act ops call vm ctl a P = Some Q"
    and "stopped_part depth subs A P"
  shows "stopped_part depth subs A Q"
proof -
  have "gate (srcs Q k) = gate (srcs P k)" if "SrcPub k \<in> A" for k
    using assms(1,2)
  proof (cases rule: threads_of_cases)
    case (src j b t)
    then show ?thesis using src_pot_own [OF src(3,2)] assms(3) by (simp add: stopped_part_def)
  next
    case (push p)
    then show ?thesis using push_act_gates by blast
  qed simp
  then show ?thesis using assms(3) subs_step [OF assms(2)] by (simp add: stopped_part_def)
qed

section \<open>Rest\<close>

interpretation rest: potential "pipe_act ops call vm ctl" "threads_of A"
  "\<lambda>P. push_inv ctl P \<and> stopped_part depth subs A P" "pipe_pot depth subs A"
  for ops call vm ctl depth subs A
  by unfold_locales (auto intro: threads_use_potential threads_keep_stopped push_inv_step)

lemma pipe_run_actions: "pipe_run ops call vm ctl as P = run_actions (pipe_act ops call vm ctl) as P"
  by (induction as arbitrary: P) (auto split: option.split)

lemma part_bounded:
  assumes "pipe_reach ops call vm ctl P" and "stopped_part depth (pub_subs P) A P"
    and "set as \<subseteq> threads_of A" and "pipe_run ops call vm ctl as P = Some Q"
  shows "length as \<le> pipe_pot depth (pub_subs P) A P"
  using rest.run_bound [of ctl P depth "pub_subs P" A as ops call vm Q] push_inv_reach [OF assms(1)] assms
  by (simp add: pipe_run_actions)

lemma part_comes_to_rest:
  assumes "pipe_reach ops call vm ctl P" and "stopped_part depth (pub_subs P) A P"
  shows "\<exists>as Q. set as \<subseteq> threads_of A \<and> pipe_run ops call vm ctl as P = Some Q \<and>
    (\<forall>a \<in> threads_of A. pipe_act ops call vm ctl a Q = None)"
  using rest.run_to_rest [of ctl P depth "pub_subs P" A ops call vm] push_inv_reach [OF assms(1)] assms(2)
  by (simp add: pipe_run_actions)

lemma chain_subs: "pub_subs Q = pub_subs P \<Longrightarrow> chain Q p vs \<longleftrightarrow> chain P p vs"
  by (induction vs arbitrary: p) (simp_all add: sole_def)

lemma chain_in_part:
  assumes "stopped_part depth subs A P"
  shows "chain P p vs \<Longrightarrow> p \<in> A \<Longrightarrow> v \<in> set vs \<Longrightarrow> NodePub v \<in> A"
proof (induction vs arbitrary: p)
  case (Cons u vs)
  moreover from Cons.prems have "NodePub u \<in> A"
    using assms sole_mem [of P p u p] by (auto simp: stopped_part_def)
  ultimately show ?case by auto
qed simp

lemma run_keeps_alive:
  "set as \<subseteq> threads_of A \<Longrightarrow> pipe_run ops call vm ctl as P = Some Q \<Longrightarrow>
    alive (nd (srcs Q k)) = alive (nd (srcs P k)) \<and> alive (nd (mids Q i)) = alive (nd (mids P i))"
  by (induction as arbitrary: P) (auto split: option.splits dest: threads_keep_alive)

text \<open>A part at rest has delivered what its sources have processed.\<close>

lemma rest_delivers:
  assumes "pipe_reach ops call vm ctl P" and "stopped_part depth (pub_subs P) A P"
    and "\<forall>m. ctl m \<longrightarrow> ty m = CONTROL"
    and "chain P (SrcPub k) (v # vs)" and "\<forall>i \<in> set (v # vs). typed_methods ty (vm i)"
    and "SrcPub k \<in> A" and "alive (nd (srcs P k))" and "\<forall>i \<in> set (v # vs). alive (nd (mids P i))"
    and "set as \<subseteq> threads_of A" and "pipe_run ops call vm ctl as P = Some Q"
    and "\<forall>a \<in> threads_of A. pipe_act ops call vm ctl a Q = None" and "\<forall>e. hpc (srcs Q k) \<noteq> SCrash e"
  shows "subseq (delivered (mids Q (last (v # vs))) @ concat (map (\<lambda>i. cache (mids Q i)) (rev (v # vs))))
      (frames ty (processed (srcs Q k))) \<and>
    ((\<forall>i \<in> set (v # vs). keeps_controls (vm i)) \<longrightarrow>
      frames ty (processed (srcs Q k)) = delivered (mids Q (last (v # vs))) @
        concat (map (\<lambda>i. cache (mids Q i)) (rev (v # vs))))"
proof (rule chain_at_rest [OF pipe_run_reach [OF assms(10,1)] assms(3) _ assms(5)])
  show "chain Q (SrcPub k) (v # vs)" using assms(4) chain_subs [OF subs_run [OF assms(10)]] by blast
  show "source_blocked ops call vm ctl Q k"
    using assms(6,11) by (simp add: source_blocked_def threads_of_mem del: pipe_act.simps)
  show "\<forall>i \<in> set (v # vs). node_blocked ops call vm ctl Q i \<and> alive (nd (mids Q i))"
    using assms(8,11) run_keeps_alive [OF assms(9,10)] chain_in_part [OF assms(2,4,6)]
    by (auto simp: node_blocked_def threads_of_mem simp del: pipe_act.simps)
qed (use assms run_keeps_alive [OF assms(9,10)] in simp_all)

end
