(* ===== verification/PipelineProperties.thy ===== *)
theory PipelineProperties
  imports PipelineRest SourceProperties
begin

text \<open>
  A whole pipeline: the properties C20 to C22 of the development. They hold for every graph, any
  number of sources and nodes and every interleaving, along each chain of nodes that have one
  pre node each; \<open>speak\<close> may be called at any time. The witnesses run a line of an image source
  and two nodes.
\<close>

section \<open>A concrete run\<close>

definition line_vm :: "nat \<Rightarrow> frame_world methods" where
  "line_vm i = vp_node_methods (\<lambda>m w. if m < 100 then FRAME else CONTROL)"

definition line_type :: "nat \<Rightarrow> vp_meta_type" where
  "line_type m = (if m < 100 then FRAME else CONTROL)"

definition line_ctl :: "nat \<Rightarrow> bool" where
  "line_ctl m \<longleftrightarrow> 100 \<le> m"

definition line_world :: frame_world where
  "line_world = \<lparr>fw_memory = Map.empty, fw_metas = []\<rparr>"

definition line_start :: "(unit, frame_world, vp_image_data_source) pipeline" where
  "line_start = pipe_init
     (\<lambda>k. (vp_node_ctor ''source'')\<lparr>node_type := SRC, subscribers := if k = 0 then [0] else []\<rparr>)
     (\<lambda>k. demo_source)
     (\<lambda>i. (vp_node_ctor ''node'')\<lparr>subscribers := if i = 0 then [1] else []\<rparr>)
     line_world"

text \<open>The run in two parts: the second begins when the gate has been closed again.\<close>

definition line_open :: "pipe_action list" where
  "line_open =
     replicate 2 (AtSource 0 AHandle) @ [AtSource 0 AStart] @ replicate 5 (AtSource 0 AHandle) @
     [Speaking 0 100] @ replicate 4 (Pushing (SrcPub 0)) @ [AtSource 0 AStop]"

definition line_closed :: "pipe_action list" where
  "line_closed = replicate 6 (AtSource 0 AHandle) @
     replicate 4 (AtSource 0 ADispatch) @ replicate 5 (Pushing (SrcPub 0)) @
     replicate 2 (AtSource 0 ADispatch) @
     replicate 15 (AtNode 0 NHandle) @ replicate 4 (AtNode 0 NDispatch) @
     replicate 5 (Pushing (NodePub 0)) @ replicate 2 (AtNode 0 NDispatch) @
     replicate 10 (AtNode 1 NHandle) @ replicate 4 (AtNode 1 NDispatch) @
     replicate 2 (Pushing (NodePub 1)) @ replicate 2 (AtNode 1 NDispatch)"

definition line_schedule :: "pipe_action list" where
  "line_schedule = line_open @ line_closed"

definition line_busy :: "(unit, frame_world, vp_image_data_source) pipeline" where
  "line_busy = the (pipe_run demo_ops demo_call line_vm line_ctl line_open line_start)"

definition line_state :: "(unit, frame_world, vp_image_data_source) pipeline" where
  "line_state = the (pipe_run demo_ops demo_call line_vm line_ctl line_schedule line_start)"

text \<open>The states of the run differ in the source 0, the nodes 0 and 1 and their publishers only.\<close>

definition line ::
    "(unit, frame_world, vp_image_data_source) src_sys \<Rightarrow> (unit, frame_world, handle_pc) node_sys
      \<Rightarrow> (unit, frame_world, handle_pc) node_sys \<Rightarrow> push_pc \<Rightarrow> push_pc \<Rightarrow> push_pc \<Rightarrow> frame_world
      \<Rightarrow> (unit, frame_world, vp_image_data_source) pipeline" where
  "line s a b x y z w = line_start\<lparr>srcs := (srcs line_start)(0 := s),
     mids := (mids line_start)(0 := a, 1 := b),
     pushing := (\<lambda>p. PIdle)(SrcPub 0 := x, NodePub 0 := y, NodePub 1 := z), metas := w\<rparr>"

lemma line_simps [simp]:
  "srcs (line s a b x y z w) 0 = s" "mids (line s a b x y z w) 0 = a"
  "mids (line s a b x y z w) (Suc 0) = b" "metas (line s a b x y z w) = w"
  "pushing (line s a b x y z w) (SrcPub 0) = x" "pushing (line s a b x y z w) (NodePub 0) = y"
  "pushing (line s a b x y z w) (NodePub (Suc 0)) = z"
  "set_src 0 s' (line s a b x y z w) = line s' a b x y z w"
  "set_mid 0 a' (line s a b x y z w) = line s a' b x y z w"
  "set_mid (Suc 0) b' (line s a b x y z w) = line s a b' x y z w"
  "set_push (SrcPub 0) q (line s a b x y z w) = line s a b q y z w"
  "set_push (NodePub 0) q (line s a b x y z w) = line s a b x q z w"
  "set_push (NodePub (Suc 0)) q (line s a b x y z w) = line s a b x y q w"
  "(line s a b x y z w)\<lparr>metas := w'\<rparr> = line s a b x y z w'"
  by (simp_all add: line_def set_src_def set_mid_def set_push_def fun_upd_twist fun_upd_idem_iff)

lemma line_start_eq: "line_start = line
    (src_init ((vp_node_ctor ''source'')\<lparr>node_type := SRC, subscribers := [0]\<rparr>) demo_source line_world)
    (node_sys_init ((vp_node_ctor ''node'')\<lparr>subscribers := [1]\<rparr>) HTop line_world)
    (node_sys_init ((vp_node_ctor ''node'')\<lparr>subscribers := []\<rparr>) HTop line_world)
    PIdle PIdle PIdle line_world"
  by (simp add: line_def line_start_def pipe_init_def fun_upd_idem)

lemmas line_defs = line_vm_def line_ctl_def line_schedule_def line_open_def line_closed_def line_world_def
  own_act_def src_own_act_def push_act_def flow_pushed_def flow_hooked_def flow_signalled_def
  vp_node_methods_def handle_control_meta_def handle_frame_metas_def handle_frame_meta_def
  handle_meta_def WaitAndPop_def Pop_def handle_run_def

lemma replicate_numeral: "replicate (numeral k) x = x # replicate (pred_numeral k) x"
  by (simp add: numeral_eq_Suc)

lemma line_run_exists:
  "\<exists>P. pipe_run demo_ops demo_call line_vm line_ctl line_schedule line_start = Some P \<and>
    processed (srcs P 0) = [0] \<and> arrived (mids P 0) = [100, 0] \<and> delivered (mids P 1) = [0] \<and>
    cache (mids P 0) = [] \<and> cache (mids P 1) = [] \<and>
    hpc (srcs P 0) = SKnock \<and> alive (nd (srcs P 0)) \<and> alive (nd (mids P 0)) \<and> alive (nd (mids P 1)) \<and>
    source_blocked demo_ops demo_call line_vm line_ctl P 0 \<and>
    node_blocked demo_ops demo_call line_vm line_ctl P 0 \<and>
    node_blocked demo_ops demo_call line_vm line_ctl P 1"
  by (simp add: line_start_eq line_defs src_demo_defs replicate_numeral source_blocked_def node_blocked_def)

lemma line_run:
  "pipe_run demo_ops demo_call line_vm line_ctl line_schedule line_start = Some line_state"
  "processed (srcs line_state 0) = [0]" "arrived (mids line_state 0) = [100, 0]"
  "delivered (mids line_state 1) = [0]"
  "cache (mids line_state 0) = []" "cache (mids line_state 1) = []"
  "hpc (srcs line_state 0) = SKnock" "alive (nd (srcs line_state 0))"
  "alive (nd (mids line_state 0))" "alive (nd (mids line_state 1))"
  "source_blocked demo_ops demo_call line_vm line_ctl line_state 0"
  "node_blocked demo_ops demo_call line_vm line_ctl line_state 0"
  "node_blocked demo_ops demo_call line_vm line_ctl line_state 1"
  using line_run_exists by (auto simp: line_state_def)

lemma line_start_reach: "pipe_reach demo_ops demo_call line_vm line_ctl line_start"
  unfolding line_start_def
  by (rule pipe_reach.init)
    (auto simp: fresh_node_def vp_node_ctor_def ts_queue_new_def vp_semaphore_new_def)

lemma line_reach: "pipe_reach demo_ops demo_call line_vm line_ctl line_state"
  by (rule pipe_run_reach [OF line_run(1) line_start_reach])

lemma line_subs: "pub_subs line_state q = (case q of
    SrcPub k \<Rightarrow> if k = 0 then [0] else [] | NodePub i \<Rightarrow> if i = 0 then [1] else [])"
  unfolding subs_run [OF line_run(1)]
  by (cases q) (simp_all add: line_start_def pipe_init_def node_sys_init_def)

lemma line_chain: "chain line_state (SrcPub 0) [0, 1]"
  by (simp add: sole_def line_subs del: pub_subs.simps split: publisher.split)

text \<open>Where the run has closed the gate: the source is working on a frame, node 0 on a control meta.\<close>

lemma line_busy_run:
  "pipe_run demo_ops demo_call line_vm line_ctl line_open line_start = Some line_busy"
  "\<not> gate_opened (gate (srcs line_busy 0))" "alive (nd (srcs line_busy 0))"
  "alive (nd (mids line_busy 0))" "alive (nd (mids line_busy 1))"
  "processed (srcs line_busy 0) = []" "arrived (mids line_busy 0) = [100]"
proof -
  have "\<exists>P. pipe_run demo_ops demo_call line_vm line_ctl line_open line_start = Some P \<and>
      \<not> gate_opened (gate (srcs P 0)) \<and> alive (nd (srcs P 0)) \<and> alive (nd (mids P 0)) \<and>
      alive (nd (mids P 1)) \<and> processed (srcs P 0) = [] \<and> arrived (mids P 0) = [100]"
    by (simp add: line_start_eq line_defs src_demo_defs replicate_numeral)
  then show "pipe_run demo_ops demo_call line_vm line_ctl line_open line_start = Some line_busy"
    "\<not> gate_opened (gate (srcs line_busy 0))" "alive (nd (srcs line_busy 0))"
    "alive (nd (mids line_busy 0))" "alive (nd (mids line_busy 1))"
    "processed (srcs line_busy 0) = []" "arrived (mids line_busy 0) = [100]"
    by (auto simp: line_busy_def)
qed

lemma line_busy_subs: "pub_subs line_busy q = (case q of
    SrcPub k \<Rightarrow> if k = 0 then [0] else [] | NodePub i \<Rightarrow> if i = 0 then [1] else [])"
  unfolding subs_run [OF line_busy_run(1)]
  by (cases q) (simp_all add: line_start_def pipe_init_def node_sys_init_def)

definition line_part :: "publisher set" where
  "line_part = {SrcPub 0, NodePub 0, NodePub 1}"

lemma line_busy_part:
  "stopped_part (\<lambda>i. 1 - i) (pub_subs line_busy) line_part line_busy"
  "chain line_busy (SrcPub 0) [0, 1]"
  using line_busy_run(2)
  by (auto simp: stopped_part_def line_part_def sole_def line_busy_subs simp del: pub_subs.simps
    split: publisher.split)

lemma line_busy_rests:
  "pipe_run demo_ops demo_call line_vm line_ctl line_closed line_busy = Some line_state"
  "set line_closed \<subseteq> threads_of line_part"
  "\<forall>a \<in> threads_of line_part. pipe_act demo_ops demo_call line_vm line_ctl a line_state = None"
proof -
  show "pipe_run demo_ops demo_call line_vm line_ctl line_closed line_busy = Some line_state"
    using line_run(1) line_busy_run(1) by (simp add: line_schedule_def pipe_run_append)
  show "set line_closed \<subseteq> threads_of line_part"
    by (simp add: line_closed_def line_part_def threads_of_mem)
  show "\<forall>a \<in> threads_of line_part. pipe_act demo_ops demo_call line_vm line_ctl a line_state = None"
    using line_run(11-13)
    by (auto simp: threads_of_def line_part_def source_blocked_def node_blocked_def simp del: pipe_act.simps)
qed

lemma line_methods:
  "\<forall>i. typed_methods line_type (line_vm i) \<and> keeps_controls (line_vm i)"
  "\<forall>m. line_ctl m \<longrightarrow> line_type m = CONTROL"
  using vp_node_methods_ok [of line_type]
  by (simp_all add: line_vm_def line_type_def line_ctl_def)

section \<open>Frames along a chain\<close>

text \<open>
  C20. The pipeline duplicates, reorders and invents nothing, and loses nothing but what a control
  handler throws away. Along a chain of nodes behind a source, each attached once and to its
  predecessor on the chain only, the frames that the last node has delivered and those under way
  on the chain (from the newest node to the oldest, each node holding its frames in order) are a
  subsequence of those the source has delivered, the one it is just handing to the first node
  included. They are all of them if no control handler of a chain node ever returns \<open>nullptr\<close>. The
  handlers of the chain nodes leave the type tags alone; what \<open>speak\<close> pushes are control metas.
\<close>

theorem pipeline_conserves_frames:
  assumes "pipe_reach ops call vm ctl P" and "\<forall>m. ctl m \<longrightarrow> ty m = CONTROL"
    and "chain P (SrcPub k) (v # vs)" and "\<forall>i \<in> set (v # vs). typed_methods ty (vm i)"
  shows "subseq (delivered (mids P (last (v # vs))) @ under_way ty P v vs)
      (frames ty (delivered (srcs P k) @ served P (SrcPub k) v)) \<and>
    ((\<forall>i \<in> set (v # vs). keeps_controls (vm i)) \<longrightarrow>
      frames ty (delivered (srcs P k) @ served P (SrcPub k) v) =
        delivered (mids P (last (v # vs))) @ under_way ty P v vs)"
  using chain_order [OF assms] chain_account [OF assms(1-3)] assms(4) by simp

theorem pipeline_conserves_frames_witness:
  "frames line_type (delivered (srcs line_state 0) @ served line_state (SrcPub 0) 0) =
    [0] @ under_way line_type line_state 0 [1]"
  using pipeline_conserves_frames [where ty = line_type, OF line_reach line_methods(2) line_chain]
    line_methods(1) line_run(4) by simp

text \<open>
  Every frame anywhere behind the source has been processed by the Python script, in the
  order in which the script saw them: the frames that the last node of a chain has delivered and
  those under way are a prefix of those the source's script has finished with, when no control
  handler returns \<open>nullptr\<close>.
\<close>

theorem pipeline_processed_first:
  assumes "pipe_reach ops call vm ctl P" and "\<forall>m. ctl m \<longrightarrow> ty m = CONTROL"
    and "chain P (SrcPub k) (v # vs)"
    and "\<forall>i \<in> set (v # vs). typed_methods ty (vm i) \<and> keeps_controls (vm i)"
  shows "\<exists>rest. frames ty (processed (srcs P k)) =
    delivered (mids P (last (v # vs))) @ under_way ty P v vs @ rest"
  using chain_processed [OF assms] by (auto simp: prefix_def)

theorem pipeline_processed_first_witness:
  "\<exists>rest. frames line_type (processed (srcs line_state 0)) = [0] @ under_way line_type line_state 0 [1] @ rest"
  using pipeline_processed_first [where ty = line_type, OF line_reach line_methods(2) line_chain]
    line_methods(1) line_run(4) by simp

text \<open>
  C21. Nothing is left behind: when no thread of a source or of a chain behind it can go on, because
  the source is stopped or its data have ended, but not by an exception, and neither the source nor
  a node of the chain is being shut down, what the last node of the chain has delivered and what
  waits in a node's cache for a batch to fill are a subsequence of the processed frames, and all of
  them if no control handler of the chain ever returns \<open>nullptr\<close>. So no signal is lost between the
  threads. As before each chain node has one pre node, attached once, and leaves the type tags alone.
\<close>

theorem pipeline_drains:
  assumes "pipe_reach ops call vm ctl P" and "\<forall>m. ctl m \<longrightarrow> ty m = CONTROL"
    and "chain P (SrcPub k) (v # vs)" and "\<forall>i \<in> set (v # vs). typed_methods ty (vm i)"
    and "source_blocked ops call vm ctl P k" and "\<forall>e. hpc (srcs P k) \<noteq> SCrash e"
    and "alive (nd (srcs P k))"
    and "\<forall>i \<in> set (v # vs). node_blocked ops call vm ctl P i \<and> alive (nd (mids P i))"
  shows "subseq (delivered (mids P (last (v # vs))) @ concat (map (\<lambda>i. cache (mids P i)) (rev (v # vs))))
      (frames ty (processed (srcs P k))) \<and>
    ((\<forall>i \<in> set (v # vs). keeps_controls (vm i)) \<longrightarrow>
      frames ty (processed (srcs P k)) = delivered (mids P (last (v # vs))) @
        concat (map (\<lambda>i. cache (mids P i)) (rev (v # vs))))"
  by (rule chain_at_rest [OF assms])

theorem pipeline_drains_witness:
  "frames line_type [0] = delivered (mids line_state 1) @ [] \<and> delivered (mids line_state 1) = [0]"
proof -
  have "\<forall>i \<in> set [0, 1]. node_blocked demo_ops demo_call line_vm line_ctl line_state i \<and>
      alive (nd (mids line_state i))"
    using line_run by simp
  moreover have "\<forall>e. hpc (srcs line_state 0) \<noteq> SCrash e" by (simp add: line_run(7))
  moreover have typed: "\<forall>i \<in> set [0, 1]. typed_methods line_type (line_vm i)"
    and kept: "\<forall>i \<in> set [0, 1]. keeps_controls (line_vm i)"
    using line_methods(1) by simp_all
  ultimately have "frames line_type (processed (srcs line_state 0)) =
      delivered (mids line_state (last [0, 1])) @
      concat (map (\<lambda>i. cache (mids line_state i)) (rev [0, 1]))"
    by (intro pipeline_drains [OF line_reach line_methods(2) line_chain typed line_run(11) _ line_run(8),
      THEN conjunct2, THEN mp, OF _ _ kept])
  then show ?thesis using line_run by simp
qed

text \<open>
  C22. A stopped pipeline comes to rest: from the moment the gates of its sources are closed, the
  handle and dispatch threads of a part without cycles take at most \<open>pipe_pot\<close> steps, whatever
  the schedule, the handlers and the script do, and can be run until none of them can go on. As
  soon as that is so, and unless an exception has ended the source, the last node of each chain
  behind a source of the part, source and chain nodes not being shut down, has delivered the frames
  the script has processed, in order: all of them except those that wait in a node's cache for a
  batch to fill, if no control handler of the chain ever returns \<open>nullptr\<close>, and otherwise some of
  them. Each chain node has one pre node, attached once, and leaves the type tags alone.
\<close>

theorem stopped_pipeline_rests:
  assumes "pipe_reach ops call vm ctl P" and "stopped_part depth (pub_subs P) A P"
    and "\<forall>m. ctl m \<longrightarrow> ty m = CONTROL"
    and "chain P (SrcPub k) (v # vs)" and "\<forall>i \<in> set (v # vs). typed_methods ty (vm i)"
    and "SrcPub k \<in> A" and "alive (nd (srcs P k))" and "\<forall>i \<in> set (v # vs). alive (nd (mids P i))"
  shows "(\<forall>as Q. set as \<subseteq> threads_of A \<and> pipe_run ops call vm ctl as P = Some Q \<longrightarrow>
      length as \<le> pipe_pot depth (pub_subs P) A P \<and>
      ((\<forall>a \<in> threads_of A. pipe_act ops call vm ctl a Q = None) \<and> (\<forall>e. hpc (srcs Q k) \<noteq> SCrash e) \<longrightarrow>
        subseq (delivered (mids Q (last (v # vs))) @
            concat (map (\<lambda>i. cache (mids Q i)) (rev (v # vs)))) (frames ty (processed (srcs Q k))) \<and>
        ((\<forall>i \<in> set (v # vs). keeps_controls (vm i)) \<longrightarrow>
          frames ty (processed (srcs Q k)) = delivered (mids Q (last (v # vs))) @
            concat (map (\<lambda>i. cache (mids Q i)) (rev (v # vs)))))) \<and>
    (\<exists>as Q. set as \<subseteq> threads_of A \<and> pipe_run ops call vm ctl as P = Some Q \<and>
      (\<forall>a \<in> threads_of A. pipe_act ops call vm ctl a Q = None))"
  using part_bounded [OF assms(1,2)] rest_delivers [OF assms] part_comes_to_rest [OF assms(1,2)]
  by blast

theorem stopped_pipeline_rests_witness:
  "length line_closed \<le> pipe_pot (\<lambda>i. 1 - i) (pub_subs line_busy) line_part line_busy \<and>
   frames line_type [0] = delivered (mids line_state 1)"
proof -
  have A: "SrcPub 0 \<in> line_part" "\<forall>i \<in> set [0, 1]. alive (nd (mids line_busy i))"
    using line_busy_run by (simp_all add: line_part_def)
  have vm: "\<forall>i \<in> set [0, 1]. typed_methods line_type (line_vm i)"
    "\<forall>i \<in> set [0, 1]. keeps_controls (line_vm i)"
    using line_methods(1) by simp_all
  note rests = stopped_pipeline_rests [OF pipe_run_reach [OF line_busy_run(1) line_start_reach]
    line_busy_part(1) line_methods(2) line_busy_part(2) vm(1) A(1) line_busy_run(3) A(2), THEN conjunct1,
    rule_format, OF conjI [OF line_busy_rests(2,1)]]
  have "frames line_type (processed (srcs line_state 0)) = delivered (mids line_state (last [0, 1])) @
      concat (map (\<lambda>i. cache (mids line_state i)) (rev [0, 1]))"
    by (rule conjunct2 [OF rests, THEN mp, OF conjI [OF line_busy_rests(3)], THEN conjunct2, THEN mp,
      OF _ vm(2)]) (simp add: line_run)
  then show ?thesis using conjunct1 [OF rests] line_run by simp
qed

end
