(* ===== verification/JobQueue.thy ===== *)
theory JobQueue
  imports SafeQueue
begin

text \<open>
  \<open>ThreadSafeJobQueue\<close> of \<open>utils/safe_queue.h\<close>: a queue with an optional maximal size, a
  warning threshold, batch insertion and removal, and a \<open>stop\<close>. The methods are functions on
  the record of the members; \<open>None\<close> is a call that blocks. Two condition variables wake the
  consumers (\<open>cond_\<close>) and the producers (\<open>cond_space_\<close>): \<open>job_monitor\<close> describes when each
  is notified. Callbacks are names of any type; the calls made are part of the result.
\<close>

section \<open>State and construction\<close>

record ('j, 'f) job_queue =
  jq_queue :: "'j list"
  jq_run :: bool
  jq_max_size :: nat
  jq_warn_size :: nat
  jq_warn_triggered :: bool
  jq_warn_callback :: "'f option"
  jq_clear_callback :: "'f option"

datatype ('j, 'f) callback_call =
    warn_call 'f nat
  | clear_call 'f 'j

text \<open>The sizes are unsigned, so the test for negative ones never holds.\<close>

definition job_queue_ctor ::
    "nat \<Rightarrow> nat \<Rightarrow> 'f option \<Rightarrow> 'f option \<Rightarrow> ('j, 'f) job_queue result" where
  "job_queue_ctor max_size warn_size warn_cb clear_cb =
     (if max_size < 0 \<or> warn_size < 0
      then Inl (std_invalid_argument ''size cannot be minus'')
      else if warn_size > max_size \<and> max_size > 0
      then Inl (std_invalid_argument ''warn_size cannot exceed max_size'')
      else Inr \<lparr>jq_queue = [], jq_run = True, jq_max_size = max_size, jq_warn_size = warn_size,
        jq_warn_triggered = False, jq_warn_callback = warn_cb, jq_clear_callback = clear_cb\<rparr>)"

section \<open>Operations\<close>

definition check_queue_length ::
    "('j, 'f) job_queue \<Rightarrow> ('j, 'f) callback_call list \<times> ('j, 'f) job_queue" where
  "check_queue_length q = (case jq_warn_callback q of
      Some f \<Rightarrow>
        if jq_warn_size q > 0 \<and> length (jq_queue q) \<ge> jq_warn_size q \<and> \<not> jq_warn_triggered q
        then ([warn_call f (length (jq_queue q))], q\<lparr>jq_warn_triggered := True\<rparr>)
        else if length (jq_queue q) < jq_warn_size q
        then ([], q\<lparr>jq_warn_triggered := False\<rparr>) else ([], q)
    | None \<Rightarrow>
        if length (jq_queue q) < jq_warn_size q
        then ([], q\<lparr>jq_warn_triggered := False\<rparr>) else ([], q))"

text \<open>The loop of \<open>get_jobs_and_wait\<close>: \<open>fetched\<close> is the output vector.\<close>

fun fetch_loop :: "nat \<Rightarrow> 'j list \<Rightarrow> 'j list \<Rightarrow> 'j list \<times> 'j list" where
  "fetch_loop max_size fetched [] = (fetched, [])"
| "fetch_loop max_size fetched (j # js) =
     (if length fetched < max_size then fetch_loop max_size (fetched @ [j]) js
      else (fetched, j # js))"

definition get_jobs_and_wait ::
    "'j list \<Rightarrow> nat \<Rightarrow> ('j, 'f) job_queue \<Rightarrow> (bool \<times> 'j list \<times> ('j, 'f) job_queue) option" where
  "get_jobs_and_wait fetch_jobs max_size q =
     (if jq_run q \<and> jq_queue q = [] then None
      else if \<not> jq_run q then Some (False, fetch_jobs, q)
      else case fetch_loop max_size [] (jq_queue q) of
        (jobs, rest) \<Rightarrow> Some (True, jobs, q\<lparr>jq_queue := rest\<rparr>))"

definition emplace ::
    "'j \<Rightarrow> ('j, 'f) job_queue \<Rightarrow> (('j, 'f) callback_call list \<times> ('j, 'f) job_queue) option" where
  "emplace job q =
     (if jq_max_size q > 0 \<and> jq_run q \<and> \<not> length (jq_queue q) < jq_max_size q then None
      else if jq_max_size q > 0 \<and> \<not> jq_run q then Some ([], q)
      else Some (check_queue_length (q\<lparr>jq_queue := jq_queue q @ [job]\<rparr>)))"

definition batch_emplace ::
    "'j list \<Rightarrow> ('j, 'f) job_queue
      \<Rightarrow> (('j, 'f) callback_call list \<times> ('j, 'f) job_queue) option" where
  "batch_emplace jobs q =
     (if jobs = [] then Some ([], q)
      else if jq_max_size q > 0 \<and> jq_run q \<and> \<not> length (jq_queue q) + length jobs \<le> jq_max_size q
      then None
      else if jq_max_size q > 0 \<and> \<not> jq_run q then Some ([], q)
      else Some (check_queue_length (q\<lparr>jq_queue := jq_queue q @ jobs\<rparr>)))"

definition clear_jobs ::
    "('j, 'f) job_queue \<Rightarrow> ('j, 'f) callback_call list \<times> ('j, 'f) job_queue" where
  "clear_jobs q = ((case jq_clear_callback q of None \<Rightarrow> [] | Some f \<Rightarrow> map (clear_call f) (jq_queue q)),
     q\<lparr>jq_queue := []\<rparr>)"

definition stop_run :: "('j, 'f) job_queue \<Rightarrow> ('j, 'f) job_queue" where
  "stop_run q = q\<lparr>jq_run := False\<rparr>"

text \<open>\<open>stop\<close>, when nothing comes between its two critical sections.\<close>

definition stop ::
    "('j, 'f) job_queue \<Rightarrow> ('j, 'f) callback_call list \<times> ('j, 'f) job_queue" where
  "stop q = (case clear_jobs q of (calls, q1) \<Rightarrow> (calls, stop_run q1))"

definition set_clear_callback :: "'f option \<Rightarrow> ('j, 'f) job_queue \<Rightarrow> ('j, 'f) job_queue" where
  "set_clear_callback callback q = q\<lparr>jq_clear_callback := callback\<rparr>"

definition set_warn_callback :: "'f option \<Rightarrow> ('j, 'f) job_queue \<Rightarrow> ('j, 'f) job_queue" where
  "set_warn_callback callback q = q\<lparr>jq_warn_callback := callback\<rparr>"

definition qsize :: "('j, 'f) job_queue \<Rightarrow> nat" where
  "qsize q = length (jq_queue q)"

section \<open>Sequential facts\<close>

lemma fetch_loop_eq: "fetch_loop n fetched js =
    (fetched @ take (n - length fetched) js, drop (n - length fetched) js)"
  by (induction js arbitrary: fetched) (auto simp: take_Cons' drop_Cons')

lemma check_queue_length_fields [simp]:
  "jq_queue (snd (check_queue_length q)) = jq_queue q"
  "jq_run (snd (check_queue_length q)) = jq_run q"
  "jq_max_size (snd (check_queue_length q)) = jq_max_size q"
  "jq_warn_size (snd (check_queue_length q)) = jq_warn_size q"
  "jq_warn_callback (snd (check_queue_length q)) = jq_warn_callback q"
  "jq_clear_callback (snd (check_queue_length q)) = jq_clear_callback q"
  by (auto simp: check_queue_length_def split: option.split)

lemma get_jobs_eq:
  "jq_run q \<Longrightarrow> jq_queue q \<noteq> [] \<Longrightarrow> get_jobs_and_wait fetch_jobs n q =
    Some (True, take n (jq_queue q), q\<lparr>jq_queue := drop n (jq_queue q)\<rparr>)"
  by (simp add: get_jobs_and_wait_def fetch_loop_eq)

section \<open>Concurrent behaviour\<close>

text \<open>The two condition variables, \<open>cond_\<close> and \<open>cond_space_\<close>.\<close>

datatype cond = on_cond | on_space

datatype ('j, 'f) job_op =
    op_get nat
  | op_emplace 'j
  | op_batch_emplace "'j list"
  | op_clear
  | op_stop_clear
  | op_stop_run
  | op_set_warn "'f option"
  | op_set_clear "'f option"
  | op_qsize

definition job_guard :: "('j, 'f) job_op \<Rightarrow> ('j, 'f) job_queue \<Rightarrow> bool" where
  "job_guard p q = (case p of
      op_get n \<Rightarrow> \<not> jq_run q \<or> jq_queue q \<noteq> []
    | op_emplace j \<Rightarrow> jq_max_size q > 0 \<longrightarrow> \<not> jq_run q \<or> length (jq_queue q) < jq_max_size q
    | op_batch_emplace js \<Rightarrow> js \<noteq> [] \<longrightarrow> jq_max_size q > 0 \<longrightarrow>
        \<not> jq_run q \<or> length (jq_queue q) + length js \<le> jq_max_size q
    | _ \<Rightarrow> True)"

definition job_cond :: "('j, 'f) job_op \<Rightarrow> cond" where
  "job_cond p = (case p of op_get n \<Rightarrow> on_cond | _ \<Rightarrow> on_space)"

definition job_body :: "('j, 'f) job_op \<Rightarrow> ('j, 'f) job_queue \<Rightarrow> ('j, 'f) job_queue" where
  "job_body p q = (case p of
      op_get n \<Rightarrow> (case get_jobs_and_wait [] n q of None \<Rightarrow> q | Some r \<Rightarrow> snd (snd r))
    | op_emplace j \<Rightarrow> (case emplace j q of None \<Rightarrow> q | Some r \<Rightarrow> snd r)
    | op_batch_emplace js \<Rightarrow> (case batch_emplace js q of None \<Rightarrow> q | Some r \<Rightarrow> snd r)
    | op_clear \<Rightarrow> snd (clear_jobs q)
    | op_stop_clear \<Rightarrow> snd (clear_jobs q)
    | op_stop_run \<Rightarrow> stop_run q
    | op_set_warn f \<Rightarrow> set_warn_callback f q
    | op_set_clear f \<Rightarrow> set_clear_callback f q
    | op_qsize \<Rightarrow> q)"

text \<open>
  The notifications each operation sends after its critical section, for the queue \<open>q\<close> as
  it found it. An operation that returns because the queue was stopped sends none.
\<close>

definition job_notify :: "('j, 'f) job_op \<Rightarrow> ('j, 'f) job_queue \<Rightarrow> (cond \<times> notify) list" where
  "job_notify p q = (case p of
      op_get n \<Rightarrow> if jq_run q \<and> jq_max_size q > 0 then [(on_space, NotifyOne)] else []
    | op_emplace j \<Rightarrow> if jq_max_size q > 0 \<and> \<not> jq_run q then [] else [(on_cond, NotifyOne)]
    | op_batch_emplace js \<Rightarrow>
        if js = [] \<or> jq_max_size q > 0 \<and> \<not> jq_run q then [] else [(on_cond, NotifyOne)]
    | op_clear \<Rightarrow> if jq_max_size q > 0 then [(on_space, NotifyAll)] else []
    | op_stop_clear \<Rightarrow> if jq_max_size q > 0 then [(on_space, NotifyAll)] else []
    | op_stop_run \<Rightarrow> [(on_cond, NotifyAll), (on_space, NotifyAll)]
    | _ \<Rightarrow> [])"

definition job_monitor :: "(('j, 'f) job_queue, ('j, 'f) job_op, cond) monitor" where
  "job_monitor = \<lparr>m_guard = job_guard, m_cv = job_cond, m_body = job_body, m_notify = job_notify,
     m_next = (\<lambda>p. case p of op_stop_clear \<Rightarrow> Some op_stop_run | _ \<Rightarrow> None),
     m_timed = (\<lambda>_. False)\<rparr>"

text \<open>The client calls \<open>stop\<close> as a whole: its second critical section only follows the first.\<close>

definition job_calls :: "('j, 'f) job_op \<Rightarrow> (('j, 'f) job_op, cond) thr multiset \<Rightarrow> bool" where
  "job_calls p T \<longleftrightarrow> p \<noteq> op_stop_run"

lemma job_monitor_simps [simp]:
  "m_guard job_monitor = job_guard" "m_cv job_monitor = job_cond"
  "m_body job_monitor = job_body" "m_notify job_monitor = job_notify"
  "m_next job_monitor op_stop_clear = Some op_stop_run"
  "p \<noteq> op_stop_clear \<Longrightarrow> m_next job_monitor p = None"
  "\<not> m_timed job_monitor p"
  by (cases p; simp add: job_monitor_def)+

lemma job_body_queue:
  assumes "job_guard p q"
  shows "jq_queue (job_body p q) = (case p of
      op_get n \<Rightarrow> if jq_run q then drop n (jq_queue q) else jq_queue q
    | op_emplace j \<Rightarrow> if jq_max_size q > 0 \<and> \<not> jq_run q then jq_queue q else jq_queue q @ [j]
    | op_batch_emplace js \<Rightarrow> if jq_max_size q > 0 \<and> \<not> jq_run q then jq_queue q else jq_queue q @ js
    | op_clear \<Rightarrow> []
    | op_stop_clear \<Rightarrow> []
    | _ \<Rightarrow> jq_queue q)"
  using assms
  by (cases p)
    (auto simp: job_body_def job_guard_def get_jobs_and_wait_def fetch_loop_eq emplace_def
      batch_emplace_def clear_jobs_def stop_run_def set_warn_callback_def set_clear_callback_def
      split: prod.split)


section \<open>Capacity, order and warnings\<close>

definition within_capacity :: "('j, 'f) job_queue \<Rightarrow> bool" where
  "within_capacity q \<longleftrightarrow> jq_max_size q > 0 \<longrightarrow> length (jq_queue q) \<le> jq_max_size q"

lemma job_body_fields [simp]:
  "jq_max_size (job_body p q) = jq_max_size q"
  "jq_run (job_body p q) \<longleftrightarrow> jq_run q \<and> p \<noteq> op_stop_run"
  by (cases p; simp add: job_body_def get_jobs_and_wait_def fetch_loop_eq emplace_def
      batch_emplace_def clear_jobs_def stop_run_def set_warn_callback_def set_clear_callback_def)+

lemma within_capacity_body: "within_capacity q \<Longrightarrow> job_guard p q \<Longrightarrow> within_capacity (job_body p q)"
  by (cases p) (auto simp: within_capacity_def job_body_queue job_guard_def)

lemma within_capacity_reach:
  assumes "mon_reach job_monitor D q0 x" and "within_capacity q0"
  shows "within_capacity (fst x)"
  using assms
  by (rule mon_reach_object_inv) (simp add: within_capacity_body)

end
