(* ===== verification/JobQueueProps.thy ===== *)
theory JobQueueProps
  imports JobQueue
begin

text \<open>
  What the job queue guarantees: jobs come out in the order they went in; the warning
  callback fires on the way up; \<open>stop\<close> wakes every waiting thread; and under which use its
  two condition variables lose no wake-up. Producers that insert batches, and consumers that
  fetch several jobs at once, are outside that use: the schedules at the end leave a thread
  asleep next to work it could do.
\<close>

section \<open>Order\<close>

text \<open>The jobs a critical section takes out, and the jobs its call brings in.\<close>

definition jobs_out :: "('j, 'f) job_op \<Rightarrow> ('j, 'f) job_queue \<Rightarrow> 'j list" where
  "jobs_out p q = (case p of
      op_get n \<Rightarrow> (case get_jobs_and_wait [] n q of
          Some (True, jobs, q') \<Rightarrow> jobs | _ \<Rightarrow> [])
    | _ \<Rightarrow> [])"

definition jobs_in :: "('j, 'f) job_op \<Rightarrow> 'j list" where
  "jobs_in p = (case p of op_emplace j \<Rightarrow> [j] | op_batch_emplace js \<Rightarrow> js | _ \<Rightarrow> [])"

definition discards :: "('j, 'f) job_op \<Rightarrow> bool" where
  "discards p \<longleftrightarrow> p = op_clear \<or> p = op_stop_clear \<or> p = op_stop_run"

text \<open>The critical sections of a run in the order they execute, collecting what they fetch.\<close>

fun job_trace ::
    "('j, 'f) job_op list \<Rightarrow> ('j, 'f) job_queue \<Rightarrow> ('j list \<times> ('j, 'f) job_queue) option" where
  "job_trace [] q = Some ([], q)"
| "job_trace (p # ps) q =
     (if job_guard p q
      then map_option (\<lambda>(js, q'). (jobs_out p q @ js, q')) (job_trace ps (job_body p q))
      else None)"

lemma jobs_conserved:
  assumes "jq_run q" and "job_guard p q" and "\<not> discards p"
  shows "jobs_out p q @ jq_queue (job_body p q) = jq_queue q @ jobs_in p"
  using assms job_body_queue [OF assms(2)]
  by (cases p)
    (auto simp: jobs_out_def jobs_in_def discards_def get_jobs_and_wait_def fetch_loop_eq
      job_guard_def)

lemma job_trace_order:
  "job_trace ps q = Some (fetched, q') \<Longrightarrow> jq_run q \<Longrightarrow> \<not> list_ex discards ps \<Longrightarrow>
    fetched @ jq_queue q' = jq_queue q @ concat (map jobs_in ps)"
proof (induction ps arbitrary: q fetched)
  case Nil
  then show ?case by simp
next
  case (Cons p ps)
  then obtain js where g: "job_guard p q" and js: "job_trace ps (job_body p q) = Some (js, q')"
    and f: "fetched = jobs_out p q @ js"
    by (auto split: if_splits)
  from Cons.prems have r: "jq_run (job_body p q)" by (auto simp: discards_def)
  from Cons.IH [OF js r] Cons.prems
  have "js @ jq_queue q' = jq_queue (job_body p q) @ concat (map jobs_in ps)" by simp
  moreover have "jobs_out p q @ jq_queue (job_body p q) = jq_queue q @ jobs_in p"
    using jobs_conserved [OF Cons.prems(2) g] Cons.prems(3) by simp
  ultimately show ?case unfolding f by (metis append.assoc concat.simps(2) list.map(2))
qed

section \<open>Stopping\<close>

definition stop_inv :: "(('j, 'f) job_queue, ('j, 'f) job_op, cond) mon_conf \<Rightarrow> bool" where
  "stop_inv x \<longleftrightarrow> \<not> jq_run (fst x) \<longrightarrow>
     (\<forall>c. asleep_on job_monitor c (snd x) \<longrightarrow> all_due c (snd x))"

lemma stopped_guard: "\<not> jq_run q \<Longrightarrow> job_guard p q"
  by (cases p) (auto simp: job_guard_def)

lemma stop_inv_step: "mon_step job_monitor D x y \<Longrightarrow> stop_inv x \<Longrightarrow> stop_inv y"
proof (induction rule: mon_step.induct)
  case (enter p s T)
  show ?case
  proof (cases "jq_run s")
    case True
    have "(c, NotifyAll) \<in> set (job_notify op_stop_run s)" for c
      by (cases c) (auto simp: job_notify_def)
    with True show ?thesis by (cases "p = op_stop_run") (auto simp: stop_inv_def)
  next
    case False
    with enter.prems show ?thesis by (auto simp: stop_inv_def)
  qed
next
  case (sleep p s T)
  then show ?case using stopped_guard [of s p] by (auto simp: stop_inv_def)
next
  case (timeout p s T)
  then show ?case by simp
next
  case (wake_all s c ns k T)
  then show ?case by (auto simp: stop_inv_def asleep_on_wake_on all_due_wake_on)
qed (auto simp: stop_inv_def)

lemma stop_inv_reach:
  "mon_reach job_monitor D q0 x \<Longrightarrow> stop_inv x"
proof (induction rule: mon_reach.induct)
  case start
  show ?case by (simp add: stop_inv_def asleep_on_def)
next
  case (step x y)
  then show ?case by (blast intro: stop_inv_step)
qed

lemma stopped_nobody_asleep:
  assumes "mon_reach job_monitor D q0 (q, T)" and "\<not> jq_run q" and "quiet T"
  shows "T = {#}"
proof (rule ccontr)
  assume "T \<noteq> {#}"
  then obtain t where "t \<in># T" by blast
  with assms(3) obtain p where "Asleep p \<in># T" by (auto simp: quiet_def)
  then have "asleep_on job_monitor (job_cond p) T" by (auto simp: asleep_on_def)
  with stop_inv_reach [OF assms(1)] assms(2) quiet_not_due [OF assms(3)] show False
    by (auto simp: stop_inv_def)
qed

section \<open>Use without lost wake-ups\<close>

text \<open>Consumers fetch at least one job; producers add one job at a time; no \<open>stop\<close>.\<close>

definition single_producers :: "('j, 'f) job_op \<Rightarrow> bool" where
  "single_producers p = (case p of
      op_get n \<Rightarrow> 0 < n
    | op_batch_emplace js \<Rightarrow> length js \<le> 1
    | op_stop_clear \<Rightarrow> False
    | op_stop_run \<Rightarrow> False
    | _ \<Rightarrow> True)"

text \<open>Consumers fetch at most one job; producers use \<open>emplace\<close>; no \<open>stop\<close>.\<close>

definition single_consumers :: "('j, 'f) job_op \<Rightarrow> bool" where
  "single_consumers p = (case p of
      op_get n \<Rightarrow> n \<le> 1
    | op_batch_emplace js \<Rightarrow> js = []
    | op_stop_clear \<Rightarrow> False
    | op_stop_run \<Rightarrow> False
    | _ \<Rightarrow> True)"

definition is_get :: "('j, 'f) job_op \<Rightarrow> bool" where
  "is_get p = (case p of op_get n \<Rightarrow> True | _ \<Rightarrow> False)"

definition is_emplace :: "('j, 'f) job_op \<Rightarrow> bool" where
  "is_emplace p = (case p of op_emplace j \<Rightarrow> True | _ \<Rightarrow> False)"

definition free_space :: "('j, 'f) job_queue \<Rightarrow> nat" where
  "free_space q = jq_max_size q - length (jq_queue q)"

definition running_bounded :: "('j, 'f) job_queue \<Rightarrow> bool" where
  "running_bounded q \<longleftrightarrow> jq_run q \<and> 0 < jq_max_size q \<and> length (jq_queue q) \<le> jq_max_size q"

lemmas job_use_defs = job_cond_def job_notify_def job_guard_def job_body_queue is_get_def
  is_emplace_def single_producers_def single_consumers_def free_space_def running_bounded_def

interpretation consumers: cv_tokens
    "job_monitor :: (('j, 'f) job_queue, ('j, 'f) job_op, cond) monitor" on_cond
    "\<lambda>q. length (jq_queue q)" is_get single_producers jq_run
proof unfold_locales
  fix p p' :: "('j, 'f) job_op" and q :: "('j, 'f) job_queue"
  assume ok: "single_producers p"
  then have ns: "p \<noteq> op_stop_clear" "p \<noteq> op_stop_run" by (auto simp: single_producers_def)
  then show "m_next job_monitor p = Some p' \<Longrightarrow> single_producers p'" by simp
  show "is_get p \<Longrightarrow> m_cv job_monitor p = on_cond" by (cases p) (auto simp: job_use_defs)
  assume run: "jq_run q"
  { assume "\<not> m_guard job_monitor p q" "m_cv job_monitor p = on_cond"
    then show "length (jq_queue q) = 0" "is_get p" using run by (cases p; auto simp: job_use_defs)+ }
  assume g: "m_guard job_monitor p q"
  show "jq_run (m_body job_monitor p q)" using run ns by simp
  show "is_get p \<Longrightarrow> length (jq_queue (m_body job_monitor p q)) < length (jq_queue q)"
    using g run ok by (cases p) (auto simp: job_use_defs)
  show "\<not> is_get p \<Longrightarrow> length (jq_queue (m_body job_monitor p q))
      \<le> length (jq_queue q) + notes_on on_cond (m_notify job_monitor p q) \<or>
      (on_cond, NotifyAll) \<in> set (m_notify job_monitor p q)"
    using g run ok by (cases p) (auto simp: job_use_defs)
qed

interpretation producers: cv_tokens
    "job_monitor :: (('j, 'f) job_queue, ('j, 'f) job_op, cond) monitor" on_space
    free_space is_emplace single_consumers running_bounded
proof unfold_locales
  fix p p' :: "('j, 'f) job_op" and q :: "('j, 'f) job_queue"
  assume ok: "single_consumers p"
  then have ns: "p \<noteq> op_stop_clear" "p \<noteq> op_stop_run" by (auto simp: single_consumers_def)
  then show "m_next job_monitor p = Some p' \<Longrightarrow> single_consumers p'" by simp
  show "is_emplace p \<Longrightarrow> m_cv job_monitor p = on_space" by (cases p) (auto simp: job_use_defs)
  assume run: "running_bounded q"
  { assume "\<not> m_guard job_monitor p q" "m_cv job_monitor p = on_space"
    then show "free_space q = 0" "is_emplace p"
      using run ok by (cases p; auto simp: job_use_defs)+ }
  assume g: "m_guard job_monitor p q"
  show "running_bounded (m_body job_monitor p q)"
    using g run ok ns by (cases p) (auto simp: job_use_defs)
  show "is_emplace p \<Longrightarrow> free_space (m_body job_monitor p q) < free_space q"
    using g run ok by (cases p) (auto simp: job_use_defs)
  show "\<not> is_emplace p \<Longrightarrow> free_space (m_body job_monitor p q)
      \<le> free_space q + notes_on on_space (m_notify job_monitor p q) \<or>
      (on_space, NotifyAll) \<in> set (m_notify job_monitor p q)"
    using g run ok by (cases p) (auto simp: job_use_defs)
qed

text \<open>Both conditions together: \<open>emplace\<close>, and \<open>get_jobs_and_wait\<close> of exactly one job.\<close>

definition one_at_a_time :: "('j, 'f) job_op \<Rightarrow> (('j, 'f) job_op, cond) thr multiset \<Rightarrow> bool" where
  "one_at_a_time p T \<longleftrightarrow> single_producers p \<and> single_consumers p"

lemma one_at_a_time_no_lost_wakeup:
  assumes "mon_reach job_monitor one_at_a_time q0 (q, T)" and "running_bounded q0" and "quiet T"
  shows "jq_queue q \<noteq> [] \<Longrightarrow> \<not> asleep_on job_monitor on_cond T"
    and "length (jq_queue q) < jq_max_size q \<Longrightarrow> \<not> asleep_on job_monitor on_space T"
  using consumers.nobody_left_asleep [OF assms(1) _ _ assms(3)]
    producers.nobody_left_asleep [OF assms(1) _ _ assms(3)] assms(2)
  by (simp_all add: one_at_a_time_def running_bounded_def free_space_def)

section \<open>Warnings\<close>

text \<open>With a threshold of one the flag is set by the first push and never reset.\<close>

lemma warn_size_one_triggered:
  assumes "jq_warn_size q = 1" and "jq_warn_triggered q"
  shows "emplace j q = Some (calls, q') \<Longrightarrow> calls = [] \<and> jq_warn_triggered q'"
    and "batch_emplace js q = Some (calls, q') \<Longrightarrow> calls = [] \<and> jq_warn_triggered q'"
  using assms
  by (auto simp: emplace_def batch_emplace_def check_queue_length_def split: if_splits option.splits)

section \<open>Lost wake-ups\<close>

text \<open>
  A batch of two jobs sends one notification: of two waiting consumers that fetch one job
  each, the second stays asleep although a job is left.
\<close>

definition batch_schedule :: "'j \<Rightarrow> 'j \<Rightarrow> ('j, 'f) job_op mon_action list" where
  "batch_schedule a b = [Call (op_get 1), Run 0, Call (op_get 1), Run 0,
     Call (op_batch_emplace [a, b]), Run 0, Wake 0 0, Run 0, Run 0, Run 0]"

text \<open>
  Fetching two jobs from a full queue of two frees two places and sends one notification: of
  two waiting producers the second stays asleep although there is space.
\<close>

definition fetch_schedule :: "'j \<Rightarrow> ('j, 'f) job_op mon_action list" where
  "fetch_schedule a = [Call (op_emplace a), Run 0, Run 0, Run 0, Call (op_emplace a), Run 0,
     Run 0, Run 0, Call (op_emplace a), Run 0, Call (op_emplace a), Run 0, Call (op_get 2),
     Run 0, Wake 0 0, Run 0, Run 0, Run 0, Run 0]"

lemmas job_run_simps = others_def job_guard_def job_body_def job_notify_def job_cond_def
  job_calls_def get_jobs_and_wait_def emplace_def batch_emplace_def check_queue_length_def

lemma batch_schedule_run:
  assumes "job_queue_ctor 0 0 None None = Inr q0"
  shows "mon_run job_monitor job_calls (batch_schedule a b) (q0, []) =
    Some (q0\<lparr>jq_queue := [b]\<rparr>, [Asleep (op_get 1)])"
proof -
  have "q0 = \<lparr>jq_queue = [], jq_run = True, jq_max_size = 0, jq_warn_size = 0,
      jq_warn_triggered = False, jq_warn_callback = None, jq_clear_callback = None\<rparr>"
    using assms by (simp add: job_queue_ctor_def)
  then show ?thesis by (simp add: batch_schedule_def job_run_simps)
qed

lemma fetch_schedule_run:
  assumes "job_queue_ctor 2 0 None None = Inr q0"
  shows "mon_run job_monitor job_calls (fetch_schedule a) (q0, []) =
    Some (q0\<lparr>jq_queue := [a]\<rparr>, [Asleep (op_emplace a)])"
proof -
  have "q0 = \<lparr>jq_queue = [], jq_run = True, jq_max_size = 2, jq_warn_size = 0,
      jq_warn_triggered = False, jq_warn_callback = None, jq_clear_callback = None\<rparr>"
    using assms by (simp add: job_queue_ctor_def)
  then show ?thesis by (simp add: fetch_schedule_def job_run_simps)
qed

lemma batch_lost_wakeup:
  assumes "job_queue_ctor 0 0 None None = Inr q0"
  shows "\<exists>q. mon_reach job_monitor job_calls q0 (q, {#Asleep (op_get 1)#}) \<and>
    jq_run q \<and> jq_queue q = [b]"
proof -
  have "jq_run q0" using assms by (auto simp: job_queue_ctor_def)
  with mon_run_from_start [OF batch_schedule_run [OF assms]] show ?thesis
    by (intro exI [of _ "q0\<lparr>jq_queue := [b]\<rparr>"]) simp
qed

lemma fetch_lost_wakeup:
  assumes "job_queue_ctor 2 0 None None = Inr q0"
  shows "\<exists>q. mon_reach job_monitor job_calls q0 (q, {#Asleep (op_emplace a)#}) \<and>
    jq_run q \<and> length (jq_queue q) < jq_max_size q"
proof -
  have "jq_run q0 \<and> jq_max_size q0 = 2" using assms by (auto simp: job_queue_ctor_def)
  with mon_run_from_start [OF fetch_schedule_run [OF assms]] show ?thesis
    by (intro exI [of _ "q0\<lparr>jq_queue := [a]\<rparr>"]) simp
qed

end
