(* ===== verification/SyncProperties.thy ===== *)
theory SyncProperties
  imports SafeQueue Sync JobQueueProps
begin

text \<open>
  The synchronised objects: the properties C23 to C28 of the development. The theorems about
  concurrent use rest on the interpretations of \<open>token_monitor\<close> and \<open>cv_tokens\<close>; a quiet
  configuration is one in which no thread inside an operation can go on by itself.
\<close>

section \<open>Semaphore, gate and queue\<close>

text \<open>
  C23. The semaphore loses no wake-up: whenever the threads using it have come to rest and the
  count is positive, no thread is left waiting in \<open>wait\<close>, under every interleaving of
  \<open>signal\<close>, \<open>wait\<close> and \<open>reset\<close>, every choice of the notified thread and spurious wake-ups.
\<close>

theorem semaphore_no_lost_wakeup:
  assumes "mon_reach semaphore_monitor any_call vp_semaphore_new (s, T)" and "quiet T"
    and "0 < sem_count s"
  shows "T = {#}"
  using sem_mon.no_lost_wakeup [OF assms(1,2)] assms(3) by simp

lemma quiet_Nil [simp]: "quiet {#}"
  by (simp add: quiet_def)

theorem semaphore_no_lost_wakeup_witness:
  "\<exists>s T. mon_reach semaphore_monitor any_call vp_semaphore_new (s, T) \<and> sem_count s = 1 \<and> T = {#}"
proof -
  have "mon_run semaphore_monitor any_call [Call op_signal, Run 0, Run 0, Run 0] (vp_semaphore_new, [])
      = Some (sem_signal vp_semaphore_new, [])"
    by (simp add: semaphore_monitor_def any_call_def others_def)
  from mon_run_from_start [OF this]
  have r: "mon_reach semaphore_monitor any_call vp_semaphore_new (sem_signal vp_semaphore_new, {#})"
    by simp
  with semaphore_no_lost_wakeup [OF r] show ?thesis by (intro exI conjI) auto
qed

text \<open>
  C24. The queue loses no wake-up either: a consumer never stays asleep in \<open>WaitAndPop\<close> or
  \<open>WaitAndTryPop\<close> while the queue holds an element, whatever mixture of \<open>Push\<close>, \<open>Pop\<close>,
  \<open>TryPop\<close>, \<open>WaitAndPop\<close> and \<open>WaitAndTryPop\<close> the threads call and whichever time limits
  run out.
\<close>

theorem queue_no_lost_wakeup:
  assumes "mon_reach ts_queue_monitor any_call ts_queue_new (q, T)" and "quiet T"
    and "tsq_q q \<noteq> []"
  shows "T = {#}"
  using tsq_mon.no_lost_wakeup [OF assms(1,2)] assms(3) by simp

theorem queue_no_lost_wakeup_witness:
  "\<exists>q T. mon_reach ts_queue_monitor any_call ts_queue_new (q, T) \<and> tsq_q q = [1 :: nat] \<and> T = {#}"
proof -
  have "mon_run ts_queue_monitor any_call [Call (op_Push 1), Run 0, Run 0, Run 0] (ts_queue_new, [])
      = Some (Push (1 :: nat) ts_queue_new, [])"
    by (simp add: ts_queue_monitor_def waits_def any_call_def others_def)
  from mon_run_from_start [OF this]
  have r: "mon_reach ts_queue_monitor any_call ts_queue_new (Push (1 :: nat) ts_queue_new, {#})" by simp
  with queue_no_lost_wakeup [OF r] show ?thesis by (intro exI conjI) auto
qed

text \<open>
  First in, first out: after any pushes into a new queue, that many blocking pops return
  the elements in the order of the pushes, and the next one blocks.
\<close>

definition pop_many :: "nat \<Rightarrow> 'a ts_queue \<Rightarrow> ('a list \<times> 'a ts_queue) option" where
  "pop_many n q = tsq.drain n q"

lemma queue_fifo:
  "(\<exists>q. pop_many (length xs) (fold Push xs ts_queue_new) = Some (xs, q) \<and> WaitAndPop q = None) \<and>
   pop_many (Suc (length xs)) (fold Push xs ts_queue_new) = None"
  using tsq.drain_push_all [of xs] tsq.drain_blocks [of "fold Push xs ts_queue_new" "Suc (length xs)"]
  by (auto simp: pop_many_def tsq.contents_push_all WaitAndPop_None_iff simp del: tsq.drain.simps)

text \<open>
  C25. The gate as the source node uses it, with one thread inside \<open>knock\<close> at a time: when the
  threads have come to rest and the gate is open, nobody is left waiting.
\<close>

theorem gate_single_knocker:
  assumes "mon_reach gate_monitor one_knocker vp_gate_new (g, T)" and "quiet T" and "gate_opened g"
  shows "T = {#}"
proof (rule ccontr)
  assume "T \<noteq> {#}"
  then obtain t where "t \<in># T" by (rule multiset_nonemptyE)
  with assms(2) obtain p where p: "Asleep p \<in># T" by (auto simp: quiet_def)
  with gate_inv_reach [OF assms(1)] assms(3)
  have "0 < awake () (\<lambda>_. False) T" by (auto simp: gate_inv_def)
  with assms(2) show False by (simp add: awake_quiet)
qed

theorem gate_single_knocker_witness:
  "\<exists>g T. mon_reach gate_monitor one_knocker vp_gate_new (g, T) \<and> gate_opened g \<and> T = {#}"
proof -
  have "mon_run gate_monitor one_knocker [Call op_open, Run 0, Run 0, Run 0] (vp_gate_new, [])
      = Some (gate_open vp_gate_new, [])"
    by (simp add: gate_monitor_def one_knocker_def others_def)
  from mon_run_from_start [OF this]
  have r: "mon_reach gate_monitor one_knocker vp_gate_new (gate_open vp_gate_new, {#})" by simp
  with gate_single_knocker [OF r] show ?thesis by (intro exI conjI) auto
qed

text \<open>
  With two threads inside \<open>knock\<close> the single notification of \<open>open\<close> is not enough: in a
  reachable state the gate is open, everything has come to rest, and a thread is asleep in
  \<open>knock\<close>.
\<close>

lemma gate_two_knockers_one_stays:
  "\<exists>g. mon_reach gate_monitor any_call vp_gate_new (g, {#Asleep op_knock#}) \<and> gate_opened g"
proof -
  have "mon_run gate_monitor any_call [Call op_knock, Run 0, Call op_knock, Run 0, Call op_open,
      Run 0, Wake 0 0, Run 0, Run 0, Run 0] (vp_gate_new, [])
    = Some (gate_open vp_gate_new, [Asleep op_knock])"
    by (simp add: gate_monitor_def any_call_def others_def gate_knock_def)
  from mon_run_from_start [OF this]
  show ?thesis by (intro exI [of _ "gate_open vp_gate_new"]) simp
qed

section \<open>The job queue\<close>

definition demo_jobs :: "(nat, unit) job_queue" where
  "demo_jobs = projr (job_queue_ctor 2 0 None None)"

lemma demo_jobs_ctor: "job_queue_ctor 2 0 None None = Inr demo_jobs"
  by (simp add: demo_jobs_def job_queue_ctor_def)

lemma demo_jobs_simps [simp]:
  "jq_queue demo_jobs = []" "jq_run demo_jobs" "jq_max_size demo_jobs = 2"
  "jq_warn_size demo_jobs = 0" "jq_warn_callback demo_jobs = None"
  by (simp_all add: demo_jobs_def job_queue_ctor_def)

definition one_job :: "(nat, unit) job_queue" where
  "one_job = demo_jobs\<lparr>jq_queue := [5], jq_warn_triggered := jq_warn_triggered demo_jobs\<rparr>"

lemma one_job_run: "mon_run job_monitor one_at_a_time [Call (op_emplace 5), Run 0, Run 0, Run 0]
    (demo_jobs, []) = Some (one_job, [])"
  by (simp add: one_at_a_time_def single_producers_def single_consumers_def job_run_simps one_job_def)

lemma one_job_reach: "mon_reach job_monitor one_at_a_time demo_jobs (one_job, {#})"
  using mon_run_from_start [OF one_job_run] by simp

text \<open>
  C26. A bounded job queue never holds more than its maximum, whatever the threads call in
  whatever order, batches included.
\<close>

theorem job_queue_bounded:
  assumes "job_queue_ctor max_size warn_size warn_cb clear_cb = Inr q0" and "0 < max_size"
    and "mon_reach job_monitor D q0 (q, T)"
  shows "length (jq_queue q) \<le> max_size"
proof -
  have q0: "jq_max_size q0 = max_size" "within_capacity q0"
    using assms(1) by (auto simp: job_queue_ctor_def within_capacity_def split: if_splits)
  have "jq_max_size (fst (q, T)) = max_size"
    using assms(3) by (rule mon_reach_object_inv) (simp_all add: q0)
  with within_capacity_reach [OF assms(3) q0(2)] assms(2) show ?thesis
    by (simp add: within_capacity_def)
qed

theorem job_queue_bounded_witness: "length (jq_queue one_job) \<le> 2"
  using job_queue_bounded [OF demo_jobs_ctor _ one_job_reach] by simp

text \<open>
  C27. The job queue keeps the order: in any sequence of critical sections of a running queue
  that contains no \<open>clear\<close> and no \<open>stop\<close>, the jobs fetched so far followed by the jobs still
  queued are the jobs that were there followed by the jobs added, in the order of the sections.
\<close>

theorem job_queue_fifo:
  assumes "job_trace ps q = Some (fetched, q')" and "jq_run q" and "\<not> list_ex discards ps"
  shows "fetched @ jq_queue q' = jq_queue q @ concat (map jobs_in ps)"
  using assms by (rule job_trace_order)

theorem job_queue_fifo_witness:
  "\<exists>q'. job_trace [op_batch_emplace [1, 2], op_get 1, op_emplace 3] demo_jobs = Some ([1], q') \<and>
    [1] @ jq_queue q' = [1, 2, 3]"
proof -
  have "\<exists>q'. job_trace [op_batch_emplace [1, 2], op_get 1, op_emplace 3] demo_jobs = Some ([1], q')"
    by (simp add: job_run_simps jobs_out_def)
  then obtain q' where t: "job_trace [op_batch_emplace [1, 2], op_get 1, op_emplace 3] demo_jobs =
      Some ([1], q')" by blast
  with job_queue_fifo [OF t] show ?thesis by (intro exI [of _ q']) (simp add: discards_def jobs_in_def)
qed

text \<open>
  C28. \<open>stop\<close> wakes everybody: once the queue is stopped and the threads inside have come to
  rest, none of them is left waiting, neither a consumer nor a producer.
\<close>

theorem stop_wakes_everybody:
  assumes "mon_reach job_monitor job_calls q0 (q, T)" and "\<not> jq_run q" and "quiet T"
  shows "T = {#}"
  using assms by (rule stopped_nobody_asleep)

theorem stop_wakes_everybody_witness:
  "\<exists>q T. mon_reach job_monitor job_calls demo_jobs (q, T) \<and> \<not> jq_run q \<and> T = {#}"
proof -
  have "mon_run job_monitor job_calls [Call op_stop_clear, Run 0, Run 0, Run 0, Run 0, Run 0, Run 0, Run 0]
      (demo_jobs, []) = Some (stop_run (snd (clear_jobs demo_jobs)), [])"
    by (simp add: job_run_simps)
  from mon_run_from_start [OF this]
  have r: "mon_reach job_monitor job_calls demo_jobs (stop_run (snd (clear_jobs demo_jobs)), {#})"
    by simp
  with stop_wakes_everybody [OF r] show ?thesis by (intro exI conjI) (auto simp: stop_run_def)
qed

text \<open>
  \<open>batch_emplace\<close> loses a wake-up: it sends one notification for the whole batch, so of two
  consumers waiting for one job each, one can be left asleep, with everything at rest, next to
  the second job of a batch of two.
\<close>

theorem batch_leaves_consumer_asleep:
  assumes "job_queue_ctor 0 0 None None = Inr q0"
  shows "\<exists>q. mon_reach job_monitor job_calls q0 (q, {#Asleep (op_get 1)#}) \<and>
    jq_run q \<and> jq_queue q = [b]"
  using assms by (rule batch_lost_wakeup)

theorem batch_leaves_consumer_asleep_witness:
  "\<exists>q0 q :: (nat, unit) job_queue. mon_reach job_monitor job_calls q0 (q, {#Asleep (op_get 1)#}) \<and>
    jq_queue q = [2]"
  using batch_leaves_consumer_asleep [of "projr (job_queue_ctor 0 0 None None) :: (nat, unit) job_queue" 2]
  by (auto simp: job_queue_ctor_def)

text \<open>
  Fetching several jobs loses a wake-up as well: \<open>get_jobs_and_wait\<close> frees as many places as
  it takes jobs and notifies one producer, so that another can be left asleep next to free space.
\<close>

lemma fetch_leaves_producer_asleep:
  assumes "job_queue_ctor 2 0 None None = Inr q0"
  shows "\<exists>q. mon_reach job_monitor job_calls q0 (q, {#Asleep (op_emplace a)#}) \<and>
    jq_run q \<and> length (jq_queue q) < jq_max_size q"
  using assms by (rule fetch_lost_wakeup)

end
