(* ===== verification/PyMat.thy ===== *)
theory PyMat
  imports Meta
begin

text \<open>
  The conversions between \<open>cv::Mat\<close> and NumPy arrays (\<open>utils/src/pybind_vp_meta.cpp\<close>) and
  the accessors of \<open>vp_frame_meta\<close> that Python uses. An array is a shape, the strides in bytes
  and the position of its first byte. All images are of 8-bit depth, as everywhere in the
  repository.
\<close>

record np_array =
  np_shape :: "int list"
  np_strides :: "nat list"
  np_buffer :: nat
  np_offset :: nat

text \<open>The default-constructed \<open>array_t\<close>: one dimension of length 0.\<close>

definition np_empty :: np_array where
  "np_empty = \<lparr>np_shape = [0], np_strides = [1], np_buffer = 0, np_offset = 0\<rparr>"

text \<open>
  \<open>to_numpy\<close> is a view of the matrix's bytes. The object that keeps them alive is
  \<open>py::cast(mat)\<close>, pybind11's: \<open>cast\<close> is its outcome, an error when no Python type is
  registered for \<open>cv::Mat\<close> (the module of the repository registers none).
\<close>

definition to_numpy :: "(cv_mat \<Rightarrow> unit result) \<Rightarrow> cv_mat \<Rightarrow> np_array result" where
  "to_numpy cast mat =
     (if mat_empty mat then Inr np_empty
      else bind_result (cast mat) (\<lambda>base.
        Inr \<lparr>np_shape = [mat_rows mat, mat_cols mat, mat_channels mat],
             np_strides = [mat_step0 mat, mat_step1 mat, 1],
             np_buffer = mat_buffer mat, np_offset = mat_offset mat\<rparr>))"

text \<open>
  \<open>to_mat\<close>: \<open>cv::Mat(rows, cols, type, ptr)\<close> is a header over the array's bytes with the
  default step, that of a continuous matrix of the type, a \<open>size_t\<close>. The lengths of the array
  are \<open>ssize_t\<close> and become \<open>int\<close>. The strides of the array are not looked at.
\<close>

definition to_mat :: "np_array \<Rightarrow> cv_mat result" where
  "to_mat input =
     (let ndim = length (np_shape input) in
      if ndim \<noteq> 2 \<and> ndim \<noteq> 3
      then Inl (std_runtime_error ''Only 2D or 3D numpy arrays supported'')
      else
        let rows = int_of_ssize (np_shape input ! 0);
            cols = int_of_ssize (np_shape input ! 1);
            channels = (if ndim = 3 then int_of_ssize (np_shape input ! 2) else 1);
            ch = (if channels = 1 then 1 else if channels = 3 then 3 else 4)
        in Inr \<lparr>mat_rows = rows, mat_cols = cols, mat_channels = ch,
                mat_step0 = size_t_of_int (cols * ch), mat_step1 = nat ch,
                mat_buffer = np_buffer input, mat_offset = np_offset input\<rparr>)"

definition get_frame_numpy :: "(cv_mat \<Rightarrow> unit result) \<Rightarrow> vp_frame_meta \<Rightarrow> np_array result" where
  "get_frame_numpy cast m = to_numpy cast (frame m)"

definition set_frame_numpy ::
    "(cv_mat \<Rightarrow> memory \<Rightarrow> cv_mat \<times> memory) \<Rightarrow> np_array \<Rightarrow> bool \<Rightarrow> vp_frame_meta \<Rightarrow> memory
      \<Rightarrow> (vp_frame_meta \<times> memory) result" where
  "set_frame_numpy cl arr copy m mem = bind_result (to_mat arr) (\<lambda>new_mat.
     Inr (if copy then (case cl new_mat mem of (c, mem') \<Rightarrow> (m\<lparr>frame := c\<rparr>, mem'))
          else (m\<lparr>frame := new_mat\<rparr>, mem)))"

text \<open>The byte an array index names, as NumPy reads it.\<close>

definition np_at :: "memory \<Rightarrow> np_array \<Rightarrow> nat list \<Rightarrow> u8 option" where
  "np_at mem a ixs = read_byte mem (np_buffer a)
     (np_offset a + sum_list (map2 (*) ixs (np_strides a)))"

text \<open>A matrix whose rows follow each other without gaps.\<close>

definition continuous :: "cv_mat \<Rightarrow> bool" where
  "continuous m \<longleftrightarrow> mat_step1 m = nat (mat_channels m) \<and>
     mat_step0 m = nat (mat_cols m * mat_channels m)"

text \<open>
  An array of \<open>h\<close> times \<open>w\<close> pixels of \<open>c\<close> channels, with or without a channel axis, in C order and
  without gaps, as NumPy makes it.
\<close>

definition image_array :: "nat \<Rightarrow> nat \<Rightarrow> nat \<Rightarrow> np_array \<Rightarrow> bool" where
  "image_array h w c a \<longleftrightarrow> h < 2 ^ 31 \<and> w < 2 ^ 31 \<and> c \<in> {1, 3, 4} \<and>
     (np_shape a = [int h, int w, int c] \<and> np_strides a = [w * c, c, 1] \<or>
      c = 1 \<and> np_shape a = [int h, int w] \<and> np_strides a = [w, 1])"

text \<open>The element of an image array: row, column and, with a channel axis, channel.\<close>

definition np_pixel :: "memory \<Rightarrow> np_array \<Rightarrow> nat \<Rightarrow> nat \<Rightarrow> nat \<Rightarrow> u8 option" where
  "np_pixel mem a i j k = np_at mem a (take (length (np_shape a)) [i, j, k])"

lemma step_fits:
  assumes "w < 2 ^ 31" and "c \<in> {1, 3, 4}"
  shows "size_t_of_int (int w * int c) = w * c"
proof -
  have "w * c \<le> 2 ^ 31 * 4" using assms by (intro mult_le_mono) auto
  from of_nat_mono [OF this] have "int w * int c \<le> int (2 ^ 31) * int 4" unfolding of_nat_mult .
  then have "int w * int c < 2 ^ 64" by simp
  then show ?thesis by (simp add: nat_mult_distrib)
qed

lemma to_mat_image:
  assumes "image_array h w c a"
  shows "to_mat a = Inr \<lparr>mat_rows = int h, mat_cols = int w, mat_channels = int c,
    mat_step0 = w * c, mat_step1 = c, mat_buffer = np_buffer a, mat_offset = np_offset a\<rparr>"
proof -
  have fits: "size_t_of_int (int w * int c) = w * c"
    using assms by (intro step_fits) (auto simp: image_array_def)
  have "int_of_ssize (int h) = int h" "int_of_ssize (int w) = int w" "int_of_ssize (int c) = int c"
    using assms by (auto simp: image_array_def)
  with assms fits show ?thesis by (auto simp: image_array_def to_mat_def Let_def)
qed

lemma image_elements:
  assumes "image_array h w c a" and "to_mat a = Inr f" and "k < c"
  shows "mat_at mem f i j k = np_pixel mem a i j k"
  using assms(1,3) assms(2) [unfolded to_mat_image [OF assms(1)]]
  by (auto simp: image_array_def np_pixel_def np_at_def mat_at_def mat_address_def algebra_simps)

text \<open>A deep copy of an image array holds its elements in a buffer of its own.\<close>

lemma clone_image:
  assumes "image_array h w c a" and "to_mat a = Inr f" and "clones_deeply cl f mem"
    and "mem (np_buffer a) \<noteq> None" and "cl f mem = (g, mem')"
  shows "mat_rows g = int h \<and> mat_cols g = int w \<and> mat_channels g = int c \<and>
    mat_buffer g \<noteq> np_buffer a \<and> mem' (np_buffer a) = mem (np_buffer a) \<and>
    (\<forall>i < h. \<forall>j < w. \<forall>k < c. mat_at mem' g i j k = np_pixel mem a i j k)"
proof -
  have f: "mat_rows f = int h" "mat_cols f = int w" "mat_channels f = int c"
    using assms(2) to_mat_image [OF assms(1)] by auto
  have deep: "mem (mat_buffer g) = None" "\<forall>b. b \<noteq> mat_buffer g \<longrightarrow> mem' b = mem b"
    and size: "mat_rows g = int h" "mat_cols g = int w" "mat_channels g = int c"
    and pixels: "\<forall>i j k. int i < int h \<and> int j < int w \<and> int k < int c \<longrightarrow>
      mat_at mem' g i j k = mat_at mem f i j k"
    using assms(3,5) by (simp_all add: clones_deeply_def f)
  have "mat_buffer g \<noteq> np_buffer a" using deep(1) assms(4) by auto
  with deep size pixels image_elements [OF assms(1,2)] show ?thesis by simp
qed

lemma to_numpy_view:
  "to_numpy cast m = Inr a \<Longrightarrow> \<not> mat_empty m \<Longrightarrow> np_at mem a [r, c, k] = mat_at mem m r c k"
  by (auto simp: np_at_def to_numpy_def mat_at_def mat_address_def bind_result_Inr_iff algebra_simps)

lemma to_mat_fails_iff: "(\<exists>e. to_mat a = Inl e) \<longleftrightarrow> length (np_shape a) \<notin> {2, 3}"
  by (auto simp: to_mat_def Let_def)

text \<open>
  Two channels become four, so the last byte of the result lies behind the bytes of the
  array.
\<close>

lemma two_channels_over_read:
  assumes "h < 2 ^ 31" and "w < 2 ^ 31" and "0 < h" and "0 < w"
    and "to_mat \<lparr>np_shape = [int h, int w, 2], np_strides = [2 * w, 2, 1], np_buffer = b,
      np_offset = 0\<rparr> = Inr m"
    and "mem b = Some bs" and "length bs = h * w * 2"
  shows "mat_channels m = 4 \<and> mat_at mem m (h - 1) (w - 1) 3 = None"
proof -
  have "size_t_of_int (int w * 4) = w * 4" using step_fits [OF assms(2), of 4] by simp
  then have m: "mat_channels m = 4" "mat_step0 m = w * 4" "mat_step1 m = 4" "mat_buffer m = b"
    "mat_offset m = 0"
    using assms(1,2,5) by (auto simp: to_mat_def)
  obtain h' w' where "h = Suc h'" "w = Suc w'" using assms(3,4) gr0_implies_Suc by metis
  then have "h * w * 2 \<le> (h - 1) * (w * 4) + (w - 1) * 4 + 3" by (simp add: algebra_simps)
  with m assms(6,7) show ?thesis
    by (simp add: mat_at_def mat_address_def read_byte_def)
qed

end
