(* ===== verification/CalBase.thy ===== *)
theory CalBase
  imports Prelude
begin

text \<open>
  The calendar library the time helpers use (\<open>utils/date.h\<close>), first part: \<open>day\<close>, \<open>month\<close>,
  \<open>year\<close> and \<open>weekday\<close>. The members are the machine integers of the classes; the counts of
  \<open>days\<close>, \<open>months\<close> and \<open>years\<close> are C++ \<open>int\<close>s, whose overflow is outside the model.
  A member function that changes the object returns the new object; a postfix operator
  returns the old one and the new one.
\<close>

type_synonym days = int
type_synonym months = int
type_synonym years = int

section \<open>The classes\<close>

datatype day = Day (day_rep: u8)
datatype month = Month (month_rep: u8)
datatype year = Year (year_rep: s16)
datatype weekday = Weekday (wd_rep: u8)

section \<open>Days\<close>

definition day_ctor :: "u32 \<Rightarrow> day" where
  "day_ctor d = Day (ucast d)"

definition day_incr :: "day \<Rightarrow> day" where
  "day_incr x = Day (day_rep x + 1)"

definition day_post_incr :: "day \<Rightarrow> day \<times> day" where
  "day_post_incr x = (x, day_incr x)"

definition day_decr :: "day \<Rightarrow> day" where
  "day_decr x = Day (day_rep x - 1)"

definition day_post_decr :: "day \<Rightarrow> day \<times> day" where
  "day_post_decr x = (x, day_decr x)"

definition day_unsigned :: "day \<Rightarrow> u32" where
  "day_unsigned x = ucast (day_rep x)"

definition day_ok :: "day \<Rightarrow> bool" where
  "day_ok x \<longleftrightarrow> 1 \<le> day_rep x \<and> day_rep x \<le> 31"

definition day_eq :: "day \<Rightarrow> day \<Rightarrow> bool" where
  "day_eq x y \<longleftrightarrow> day_unsigned x = day_unsigned y"

definition day_ne :: "day \<Rightarrow> day \<Rightarrow> bool" where
  "day_ne x y \<longleftrightarrow> \<not> day_eq x y"

definition day_lt :: "day \<Rightarrow> day \<Rightarrow> bool" where
  "day_lt x y \<longleftrightarrow> day_unsigned x < day_unsigned y"

definition day_gt :: "day \<Rightarrow> day \<Rightarrow> bool" where
  "day_gt x y \<longleftrightarrow> day_lt y x"

definition day_le :: "day \<Rightarrow> day \<Rightarrow> bool" where
  "day_le x y \<longleftrightarrow> \<not> day_lt y x"

definition day_ge :: "day \<Rightarrow> day \<Rightarrow> bool" where
  "day_ge x y \<longleftrightarrow> \<not> day_lt x y"

definition day_diff :: "day \<Rightarrow> day \<Rightarrow> days" where
  "day_diff x y = sint (day_unsigned x - day_unsigned y)"

definition day_plus :: "day \<Rightarrow> days \<Rightarrow> day" where
  "day_plus x y = day_ctor (day_unsigned x + word_of_int y)"

definition days_plus_day :: "days \<Rightarrow> day \<Rightarrow> day" where
  "days_plus_day x y = day_plus y x"

definition day_minus :: "day \<Rightarrow> days \<Rightarrow> day" where
  "day_minus x y = day_plus x (- y)"

definition day_add_assign :: "day \<Rightarrow> days \<Rightarrow> day" where
  "day_add_assign x d = day_plus x d"

definition day_sub_assign :: "day \<Rightarrow> days \<Rightarrow> day" where
  "day_sub_assign x d = day_minus x d"

section \<open>Months\<close>

definition month_ctor :: "u32 \<Rightarrow> month" where
  "month_ctor m = Month (ucast m)"

definition month_unsigned :: "month \<Rightarrow> u32" where
  "month_unsigned x = ucast (month_rep x)"

definition month_ok :: "month \<Rightarrow> bool" where
  "month_ok x \<longleftrightarrow> 1 \<le> month_rep x \<and> month_rep x \<le> 12"

definition month_eq :: "month \<Rightarrow> month \<Rightarrow> bool" where
  "month_eq x y \<longleftrightarrow> month_unsigned x = month_unsigned y"

definition month_ne :: "month \<Rightarrow> month \<Rightarrow> bool" where
  "month_ne x y \<longleftrightarrow> \<not> month_eq x y"

definition month_lt :: "month \<Rightarrow> month \<Rightarrow> bool" where
  "month_lt x y \<longleftrightarrow> month_unsigned x < month_unsigned y"

definition month_gt :: "month \<Rightarrow> month \<Rightarrow> bool" where
  "month_gt x y \<longleftrightarrow> month_lt y x"

definition month_le :: "month \<Rightarrow> month \<Rightarrow> bool" where
  "month_le x y \<longleftrightarrow> \<not> month_lt y x"

definition month_ge :: "month \<Rightarrow> month \<Rightarrow> bool" where
  "month_ge x y \<longleftrightarrow> \<not> month_lt x y"

definition month_diff :: "month \<Rightarrow> month \<Rightarrow> months" where
  "month_diff x y =
     (let d = month_unsigned x - month_unsigned y
      in sint (if d \<le> 11 then d else d + 12))"

definition month_plus :: "month \<Rightarrow> months \<Rightarrow> month" where
  "month_plus x y =
     (let mu = uint (month_unsigned x) + y - 1;
          yr = c_div (if mu \<ge> 0 then mu else mu - 11) 12
      in month_ctor (word_of_int (mu - yr * 12 + 1)))"

definition months_plus_month :: "months \<Rightarrow> month \<Rightarrow> month" where
  "months_plus_month x y = month_plus y x"

definition month_minus :: "month \<Rightarrow> months \<Rightarrow> month" where
  "month_minus x y = month_plus x (- y)"

definition month_add_assign :: "month \<Rightarrow> months \<Rightarrow> month" where
  "month_add_assign x m = month_plus x m"

definition month_sub_assign :: "month \<Rightarrow> months \<Rightarrow> month" where
  "month_sub_assign x m = month_minus x m"

definition month_incr :: "month \<Rightarrow> month" where
  "month_incr x = month_add_assign x 1"

definition month_post_incr :: "month \<Rightarrow> month \<times> month" where
  "month_post_incr x = (x, month_incr x)"

definition month_decr :: "month \<Rightarrow> month" where
  "month_decr x = month_sub_assign x 1"

definition month_post_decr :: "month \<Rightarrow> month \<times> month" where
  "month_post_decr x = (x, month_decr x)"

section \<open>Years\<close>

definition year_ctor :: "int \<Rightarrow> year" where
  "year_ctor y = Year (word_of_int y)"

definition year_int :: "year \<Rightarrow> int" where
  "year_int x = sint (year_rep x)"

definition year_incr :: "year \<Rightarrow> year" where
  "year_incr x = Year (year_rep x + 1)"

definition year_post_incr :: "year \<Rightarrow> year \<times> year" where
  "year_post_incr x = (x, year_incr x)"

definition year_decr :: "year \<Rightarrow> year" where
  "year_decr x = Year (year_rep x - 1)"

definition year_post_decr :: "year \<Rightarrow> year \<times> year" where
  "year_post_decr x = (x, year_decr x)"

definition year_uminus :: "year \<Rightarrow> year" where
  "year_uminus x = year_ctor (- sint (year_rep x))"

definition year_uplus :: "year \<Rightarrow> year" where
  "year_uplus x = x"

definition is_leap :: "year \<Rightarrow> bool" where
  "is_leap x \<longleftrightarrow> (let y = sint (year_rep x) in
     c_mod y 4 = 0 \<and> (c_mod y 100 \<noteq> 0 \<or> c_mod y 400 = 0))"

definition year_ok :: "year \<Rightarrow> bool" where
  "year_ok x \<longleftrightarrow> sint (year_rep x) \<noteq> - 32768"

definition year_min :: "year" where
  "year_min = year_ctor (- 32767)"

definition year_max :: "year" where
  "year_max = year_ctor 32767"

definition year_eq :: "year \<Rightarrow> year \<Rightarrow> bool" where
  "year_eq x y \<longleftrightarrow> year_int x = year_int y"

definition year_ne :: "year \<Rightarrow> year \<Rightarrow> bool" where
  "year_ne x y \<longleftrightarrow> \<not> year_eq x y"

definition year_lt :: "year \<Rightarrow> year \<Rightarrow> bool" where
  "year_lt x y \<longleftrightarrow> year_int x < year_int y"

definition year_gt :: "year \<Rightarrow> year \<Rightarrow> bool" where
  "year_gt x y \<longleftrightarrow> year_lt y x"

definition year_le :: "year \<Rightarrow> year \<Rightarrow> bool" where
  "year_le x y \<longleftrightarrow> \<not> year_lt y x"

definition year_ge :: "year \<Rightarrow> year \<Rightarrow> bool" where
  "year_ge x y \<longleftrightarrow> \<not> year_lt x y"

definition year_diff :: "year \<Rightarrow> year \<Rightarrow> years" where
  "year_diff x y = year_int x - year_int y"

definition year_plus :: "year \<Rightarrow> years \<Rightarrow> year" where
  "year_plus x y = year_ctor (year_int x + y)"

definition years_plus_year :: "years \<Rightarrow> year \<Rightarrow> year" where
  "years_plus_year x y = year_plus y x"

definition year_minus :: "year \<Rightarrow> years \<Rightarrow> year" where
  "year_minus x y = year_ctor (year_int x - y)"

definition year_add_assign :: "year \<Rightarrow> years \<Rightarrow> year" where
  "year_add_assign x y = year_plus x y"

definition year_sub_assign :: "year \<Rightarrow> years \<Rightarrow> year" where
  "year_sub_assign x y = year_minus x y"

section \<open>Weekdays\<close>

definition weekday_from_days :: "int \<Rightarrow> u8" where
  "weekday_from_days z =
     (let u = word_of_int z :: u32
      in ucast (if z \<ge> - 4 then (u + 4) mod 7 else u mod 7))"

definition weekday_ctor :: "u32 \<Rightarrow> weekday" where
  "weekday_ctor wd = Weekday (ucast (if wd \<noteq> 7 then wd else 0))"

definition weekday_sys :: "days \<Rightarrow> weekday" where
  "weekday_sys dp = Weekday (weekday_from_days dp)"

definition weekday_local :: "days \<Rightarrow> weekday" where
  "weekday_local dp = Weekday (weekday_from_days dp)"

definition weekday_ok :: "weekday \<Rightarrow> bool" where
  "weekday_ok x \<longleftrightarrow> wd_rep x \<le> 6"

definition c_encoding :: "weekday \<Rightarrow> u32" where
  "c_encoding x = ucast (wd_rep x)"

definition iso_encoding :: "weekday \<Rightarrow> u32" where
  "iso_encoding x = (if wd_rep x = 0 then 7 else ucast (wd_rep x))"

definition weekday_eq :: "weekday \<Rightarrow> weekday \<Rightarrow> bool" where
  "weekday_eq x y \<longleftrightarrow> wd_rep x = wd_rep y"

definition weekday_ne :: "weekday \<Rightarrow> weekday \<Rightarrow> bool" where
  "weekday_ne x y \<longleftrightarrow> \<not> weekday_eq x y"

definition weekday_diff :: "weekday \<Rightarrow> weekday \<Rightarrow> days" where
  "weekday_diff x y =
     (let wdu = uint (wd_rep x) - uint (wd_rep y);
          wk = c_div (if wdu \<ge> 0 then wdu else wdu - 6) 7
      in wdu - wk * 7)"

definition weekday_plus :: "weekday \<Rightarrow> days \<Rightarrow> weekday" where
  "weekday_plus x y =
     (let wdu = uint (wd_rep x) + y;
          wk = c_div (if wdu \<ge> 0 then wdu else wdu - 6) 7
      in weekday_ctor (word_of_int (wdu - wk * 7)))"

definition days_plus_weekday :: "days \<Rightarrow> weekday \<Rightarrow> weekday" where
  "days_plus_weekday x y = weekday_plus y x"

definition weekday_minus :: "weekday \<Rightarrow> days \<Rightarrow> weekday" where
  "weekday_minus x y = weekday_plus x (- y)"

definition weekday_add_assign :: "weekday \<Rightarrow> days \<Rightarrow> weekday" where
  "weekday_add_assign x d = weekday_plus x d"

definition weekday_sub_assign :: "weekday \<Rightarrow> days \<Rightarrow> weekday" where
  "weekday_sub_assign x d = weekday_minus x d"

definition weekday_incr :: "weekday \<Rightarrow> weekday" where
  "weekday_incr x = weekday_add_assign x 1"

definition weekday_post_incr :: "weekday \<Rightarrow> weekday \<times> weekday" where
  "weekday_post_incr x = (x, weekday_incr x)"

definition weekday_decr :: "weekday \<Rightarrow> weekday" where
  "weekday_decr x = weekday_sub_assign x 1"

definition weekday_post_decr :: "weekday \<Rightarrow> weekday \<times> weekday" where
  "weekday_post_decr x = (x, weekday_decr x)"

section \<open>The literals and named constants\<close>

definition literal_d :: "64 word \<Rightarrow> day" where
  "literal_d d = day_ctor (ucast d)"

definition literal_y :: "64 word \<Rightarrow> year" where
  "literal_y y = year_ctor (sint (ucast y :: u32))"

definition February :: "month" where
  "February = month_ctor 2"
section \<open>Readings as integers\<close>

lemma uint_ucast_u8_u32 [simp]: "uint (ucast (x :: u8) :: u32) = uint x"
  by (simp add: uint_up_ucast is_up)

lemma unsigned_simps [cal_simps, simp]:
  "uint (day_unsigned d) = uint (day_rep d)"
  "uint (month_unsigned m) = uint (month_rep m)"
  "uint (c_encoding w) = uint (wd_rep w)"
  by (simp_all add: day_unsigned_def month_unsigned_def c_encoding_def)

lemma u8_bounds [simp]: "0 \<le> uint (x :: u8)" "uint (x :: u8) \<le> 255" "uint (x :: u8) < 256"
  using uint_lt2p [of x] by auto

lemma u8_le_iff: "(x :: u8) \<le> y \<longleftrightarrow> uint x \<le> uint y"
  by (simp add: word_le_def)

lemma u32_le_iff: "(x :: u32) \<le> y \<longleftrightarrow> uint x \<le> uint y"
  by (simp add: word_le_def)

lemma u32_less_iff: "(x :: u32) < y \<longleftrightarrow> uint x < uint y"
  by (simp add: word_less_def)

lemma uint_u32_of_int [simp]: "0 \<le> i \<Longrightarrow> i < 2 ^ 32 \<Longrightarrow> uint (word_of_int i :: u32) = i"
  by (simp add: uint_word_of_int)

lemma sint_u32_of_int: "- (2 ^ 31) \<le> i \<Longrightarrow> i < 2 ^ 31 \<Longrightarrow> sint (word_of_int i :: u32) = i"
  by (simp add: signed_of_int signed_take_bit_int_eq_self)

lemma uint_u8_of_u32: "uint (w :: u32) < 256 \<Longrightarrow> uint (ucast w :: u8) = uint w"
  by (simp add: unsigned_ucast_eq take_bit_int_eq_self)

lemma sint_s16_of_int [simp]:
  "- 32768 \<le> i \<Longrightarrow> i \<le> 32767 \<Longrightarrow> sint (word_of_int i :: s16) = i"
  by (simp add: signed_of_int signed_take_bit_int_eq_self)

lemma sint_s16_bounds: "- 32768 \<le> sint (x :: s16)" "sint (x :: s16) \<le> 32767"
  using sint_range_size [of x] by (auto simp: word_size)

lemma year_int_ctor [cal_simps, simp]:
  "- 32768 \<le> i \<Longrightarrow> i \<le> 32767 \<Longrightarrow> year_int (year_ctor i) = i"
  by (simp add: year_int_def year_ctor_def)

lemma year_ctor_int [simp]: "year_ctor (year_int y) = y"
  by (cases y) (simp add: year_int_def year_ctor_def)

lemma year_int_bounds: "- 32768 \<le> year_int y" "year_int y \<le> 32767"
  by (simp_all add: year_int_def sint_s16_bounds)

lemma year_int_inject: "year_int x = year_int y \<longleftrightarrow> x = y"
  by (metis year_ctor_int)

lemma day_rep_inject: "uint (day_rep x) = uint (day_rep y) \<longleftrightarrow> x = y"
  by (cases x; cases y) (simp add: word_uint_eq_iff)

lemma month_rep_inject: "uint (month_rep x) = uint (month_rep y) \<longleftrightarrow> x = y"
  by (cases x; cases y) (simp add: word_uint_eq_iff)

lemma wd_rep_inject: "uint (wd_rep x) = uint (wd_rep y) \<longleftrightarrow> x = y"
  by (cases x; cases y) (simp add: word_uint_eq_iff)

lemma day_ctor_uint [cal_simps]: "0 \<le> i \<Longrightarrow> i < 256 \<Longrightarrow> uint (day_rep (day_ctor (word_of_int i))) = i"
  by (simp add: day_ctor_def uint_u8_of_u32)

lemma month_ctor_uint [cal_simps]:
  "0 \<le> i \<Longrightarrow> i < 256 \<Longrightarrow> uint (month_rep (month_ctor (word_of_int i))) = i"
  by (simp add: month_ctor_def uint_u8_of_u32)

lemma ok_iff [cal_simps]:
  "day_ok d \<longleftrightarrow> 1 \<le> uint (day_rep d) \<and> uint (day_rep d) \<le> 31"
  "month_ok m \<longleftrightarrow> 1 \<le> uint (month_rep m) \<and> uint (month_rep m) \<le> 12"
  "weekday_ok w \<longleftrightarrow> uint (wd_rep w) \<le> 6"
  "year_ok y \<longleftrightarrow> year_int y \<noteq> - 32768"
  by (simp_all add: day_ok_def month_ok_def weekday_ok_def year_ok_def year_int_def u8_le_iff)

lemma is_leap_iff [cal_simps]:
  "is_leap y \<longleftrightarrow> year_int y mod 4 = 0 \<and> (year_int y mod 100 \<noteq> 0 \<or> year_int y mod 400 = 0)"
  by (simp add: is_leap_def year_int_def Let_def c_mod_0_iff)

lemma February_rep [cal_simps, simp]: "month_rep February = 2" "month_unsigned February = 2"
  by (simp_all add: February_def month_ctor_def month_unsigned_def)

lemma month_le_February: "month_le m February \<longleftrightarrow> uint (month_rep m) \<le> 2"
  by (simp add: month_le_def month_lt_def u32_less_iff not_less)

section \<open>Orders\<close>

text \<open>
  The comparison operators of \<open>day\<close>, \<open>month\<close> and \<open>year\<close> make the types linear orders.
\<close>

instantiation day :: linorder
begin

definition less_day :: "day \<Rightarrow> day \<Rightarrow> bool" where "less_day x y = day_lt x y"
definition less_eq_day :: "day \<Rightarrow> day \<Rightarrow> bool" where "less_eq_day x y = day_le x y"

instance
  by standard (auto simp: less_day_def less_eq_day_def day_le_def day_lt_def u32_less_iff
    simp flip: day_rep_inject)

end

instantiation month :: linorder
begin

definition less_month :: "month \<Rightarrow> month \<Rightarrow> bool" where "less_month x y = month_lt x y"
definition less_eq_month :: "month \<Rightarrow> month \<Rightarrow> bool" where "less_eq_month x y = month_le x y"

instance
  by standard (auto simp: less_month_def less_eq_month_def month_le_def month_lt_def u32_less_iff
    simp flip: month_rep_inject)

end

instantiation year :: linorder
begin

definition less_year :: "year \<Rightarrow> year \<Rightarrow> bool" where "less_year x y = year_lt x y"
definition less_eq_year :: "year \<Rightarrow> year \<Rightarrow> bool" where "less_eq_year x y = year_le x y"

instance
  by standard (auto simp: less_year_def less_eq_year_def year_le_def year_lt_def
    simp flip: year_int_inject)

end

lemma order_iff:
  "day_lt a b \<longleftrightarrow> uint (day_rep a) < uint (day_rep b)"
  "month_lt m n \<longleftrightarrow> uint (month_rep m) < uint (month_rep n)"
  "year_lt x y \<longleftrightarrow> year_int x < year_int y"
  "day_eq a b \<longleftrightarrow> a = b"
  "month_eq m n \<longleftrightarrow> m = n"
  "year_eq x y \<longleftrightarrow> x = y"
  by (auto simp: day_lt_def month_lt_def year_lt_def day_eq_def month_eq_def year_eq_def
    u32_less_iff word_uint_eq_iff year_int_inject day_rep_inject month_rep_inject)

section \<open>Month and weekday arithmetic\<close>

lemma month_plus_uint:
  "uint (month_rep (month_plus m k)) = (uint (month_rep m) + k - 1) mod 12 + 1"
proof -
  let ?mu = "uint (month_rep m) + k - 1"
  have e: "?mu - ?mu div 12 * 12 + 1 = ?mu mod 12 + 1" by (simp add: minus_div_mult_eq_mod)
  have b: "0 \<le> ?mu mod 12 + 1" "?mu mod 12 + 1 < 256"
    using pos_mod_sign [of 12 ?mu] pos_mod_bound [of 12 ?mu] by linarith+
  show ?thesis
    unfolding month_plus_def Let_def unsigned_simps c_floor12 e by (rule month_ctor_uint [OF b])
qed

lemma weekday_plus_uint:
  "uint (wd_rep (weekday_plus w k)) = (uint (wd_rep w) + k) mod 7"
proof -
  let ?wdu = "uint (wd_rep w) + k"
  have e: "?wdu - ?wdu div 7 * 7 = ?wdu mod 7" by (simp add: minus_div_mult_eq_mod)
  have b: "0 \<le> ?wdu mod 7" "?wdu mod 7 < 7" by auto
  then have u: "uint (word_of_int (?wdu mod 7) :: u32) = ?wdu mod 7" by (intro uint_u32_of_int) auto
  with b have "(word_of_int (?wdu mod 7) :: u32) \<noteq> 7" by (auto simp: word_uint_eq_iff)
  with b u show ?thesis
    unfolding weekday_plus_def Let_def c_floor7 e by (simp add: weekday_ctor_def uint_u8_of_u32)
qed

lemma weekday_diff_mod: "weekday_diff x y = (uint (wd_rep x) - uint (wd_rep y)) mod 7"
  unfolding weekday_diff_def Let_def c_floor7 by (rule minus_div_mult_eq_mod)

lemma weekday_from_days_mod:
  assumes "- (2 ^ 31) \<le> z" and "z < 2 ^ 31 - 4"
  shows "uint (weekday_from_days z) = (z + 4) mod 7"
proof (cases "z \<ge> - 4")
  case True
  then have "uint (word_of_int z + 4 :: u32) = z + 4"
    using assms uint_u32_of_int [of "z + 4"] by simp
  then have "uint ((word_of_int z + 4 :: u32) mod 7) = (z + 4) mod 7"
    by (simp add: uint_mod)
  moreover have "(z + 4) mod 7 < 256" by (rule less_trans [of _ 7]) auto
  ultimately show ?thesis using True by (simp add: weekday_from_days_def uint_u8_of_u32)
next
  case False
  have "z mod 2 ^ 32 = (z + 2 ^ 32) mod 2 ^ 32" by simp
  also have "\<dots> = z + 2 ^ 32" using False assms by (intro mod_pos_pos_trivial) auto
  finally have "uint (word_of_int z :: u32) = z + 2 ^ 32" by (simp add: uint_word_of_int)
  then have "uint ((word_of_int z :: u32) mod 7) = (z + 2 ^ 32) mod 7"
    by (simp add: uint_mod)
  also have "\<dots> = (z + 4 + 613566756 * 7) mod 7" by (simp add: add.commute)
  also have "\<dots> = (z + 4) mod 7" by (rule mod_mult_self1)
  finally have "uint ((word_of_int z :: u32) mod 7) = (z + 4) mod 7" .
  moreover have "(z + 4) mod 7 < 256" by (rule less_trans [of _ 7]) auto
  ultimately show ?thesis using False by (simp add: weekday_from_days_def uint_u8_of_u32)
qed

end
