(* ===== verification/CalParts.thy ===== *)
theory CalParts
  imports CalBase
begin

text \<open>
  The calendar library, second part: the partial dates that combine two of the basic
  fields, their arithmetic, and the composition operators \<open>/\<close> between them.
\<close>

section \<open>The classes\<close>

datatype weekday_indexed = Weekday_indexed (wdi_wd: "4 word") (wdi_ix: "4 word")
datatype weekday_last = Weekday_last (wdl_wd: weekday)
datatype year_month = Year_month (ym_year: year) (ym_month: month)
datatype month_day = Month_day (md_month: month) (md_day: day)
datatype month_day_last = Month_day_last (mdl_month: month)
datatype month_weekday = Month_weekday (mw_month: month) (mw_wdi: weekday_indexed)
datatype month_weekday_last = Month_weekday_last (mwl_month: month) (mwl_wdl: weekday_last)

section \<open>\<open>weekday_indexed\<close> and \<open>weekday_last\<close>\<close>

definition weekday_indexed_ctor :: "weekday \<Rightarrow> u32 \<Rightarrow> weekday_indexed" where
  "weekday_indexed_ctor wd index = Weekday_indexed (ucast (wd_rep wd)) (ucast index)"

definition wdi_weekday :: "weekday_indexed \<Rightarrow> weekday" where
  "wdi_weekday x = weekday_ctor (ucast (wdi_wd x))"

definition wdi_index :: "weekday_indexed \<Rightarrow> u32" where
  "wdi_index x = ucast (wdi_ix x)"

definition weekday_indexed_ok :: "weekday_indexed \<Rightarrow> bool" where
  "weekday_indexed_ok x \<longleftrightarrow> weekday_ok (wdi_weekday x) \<and> 1 \<le> wdi_ix x \<and> wdi_ix x \<le> 5"

definition weekday_index :: "weekday \<Rightarrow> u32 \<Rightarrow> weekday_indexed" where
  "weekday_index wd index = weekday_indexed_ctor wd index"

definition weekday_indexed_eq :: "weekday_indexed \<Rightarrow> weekday_indexed \<Rightarrow> bool" where
  "weekday_indexed_eq x y \<longleftrightarrow>
     weekday_eq (wdi_weekday x) (wdi_weekday y) \<and> wdi_index x = wdi_index y"

definition weekday_indexed_ne :: "weekday_indexed \<Rightarrow> weekday_indexed \<Rightarrow> bool" where
  "weekday_indexed_ne x y \<longleftrightarrow> \<not> weekday_indexed_eq x y"

definition weekday_last_ctor :: "weekday \<Rightarrow> weekday_last" where
  "weekday_last_ctor wd = Weekday_last wd"

definition weekday_last_ok :: "weekday_last \<Rightarrow> bool" where
  "weekday_last_ok x \<longleftrightarrow> weekday_ok (wdl_wd x)"

definition weekday_last_eq :: "weekday_last \<Rightarrow> weekday_last \<Rightarrow> bool" where
  "weekday_last_eq x y \<longleftrightarrow> weekday_eq (wdl_wd x) (wdl_wd y)"

definition weekday_last_ne :: "weekday_last \<Rightarrow> weekday_last \<Rightarrow> bool" where
  "weekday_last_ne x y \<longleftrightarrow> \<not> weekday_last_eq x y"

definition weekday_to_last :: "weekday \<Rightarrow> weekday_last" where
  "weekday_to_last wd = weekday_last_ctor wd"

section \<open>\<open>year_month\<close>\<close>

definition year_month_ctor :: "year \<Rightarrow> month \<Rightarrow> year_month" where
  "year_month_ctor y m = Year_month y m"

definition year_month_ok :: "year_month \<Rightarrow> bool" where
  "year_month_ok x \<longleftrightarrow> year_ok (ym_year x) \<and> month_ok (ym_month x)"

definition year_slash_month :: "year \<Rightarrow> month \<Rightarrow> year_month" where
  "year_slash_month y m = year_month_ctor y m"

definition year_slash_int :: "year \<Rightarrow> int \<Rightarrow> year_month" where
  "year_slash_int y m = year_slash_month y (month_ctor (word_of_int m))"

definition year_month_eq :: "year_month \<Rightarrow> year_month \<Rightarrow> bool" where
  "year_month_eq x y \<longleftrightarrow>
     year_eq (ym_year x) (ym_year y) \<and> month_eq (ym_month x) (ym_month y)"

definition year_month_ne :: "year_month \<Rightarrow> year_month \<Rightarrow> bool" where
  "year_month_ne x y \<longleftrightarrow> \<not> year_month_eq x y"

definition year_month_lt :: "year_month \<Rightarrow> year_month \<Rightarrow> bool" where
  "year_month_lt x y \<longleftrightarrow>
     (if year_lt (ym_year x) (ym_year y) then True
      else if year_gt (ym_year x) (ym_year y) then False
      else month_lt (ym_month x) (ym_month y))"

definition year_month_gt :: "year_month \<Rightarrow> year_month \<Rightarrow> bool" where
  "year_month_gt x y \<longleftrightarrow> year_month_lt y x"

definition year_month_le :: "year_month \<Rightarrow> year_month \<Rightarrow> bool" where
  "year_month_le x y \<longleftrightarrow> \<not> year_month_lt y x"

definition year_month_ge :: "year_month \<Rightarrow> year_month \<Rightarrow> bool" where
  "year_month_ge x y \<longleftrightarrow> \<not> year_month_lt x y"

definition year_month_plus_months :: "year_month \<Rightarrow> months \<Rightarrow> year_month" where
  "year_month_plus_months ym dm =
     (let dmi = uint (month_unsigned (ym_month ym)) - 1 + dm;
          dy = c_div (if dmi \<ge> 0 then dmi else dmi - 11) 12;
          dmi' = dmi - dy * 12 + 1
      in year_slash_month (year_plus (ym_year ym) dy) (month_ctor (word_of_int dmi')))"

definition months_plus_year_month :: "months \<Rightarrow> year_month \<Rightarrow> year_month" where
  "months_plus_year_month dm ym = year_month_plus_months ym dm"

definition year_month_minus_months :: "year_month \<Rightarrow> months \<Rightarrow> year_month" where
  "year_month_minus_months ym dm = year_month_plus_months ym (- dm)"

text \<open>The sum of a count of years and a count of months is a count of months.\<close>

definition year_month_diff :: "year_month \<Rightarrow> year_month \<Rightarrow> months" where
  "year_month_diff x y =
     year_diff (ym_year x) (ym_year y) * 12 +
     sint (month_unsigned (ym_month x) - month_unsigned (ym_month y))"

definition year_month_plus_years :: "year_month \<Rightarrow> years \<Rightarrow> year_month" where
  "year_month_plus_years ym dy = year_slash_month (year_plus (ym_year ym) dy) (ym_month ym)"

definition years_plus_year_month :: "years \<Rightarrow> year_month \<Rightarrow> year_month" where
  "years_plus_year_month dy ym = year_month_plus_years ym dy"

definition year_month_minus_years :: "year_month \<Rightarrow> years \<Rightarrow> year_month" where
  "year_month_minus_years ym dy = year_month_plus_years ym (- dy)"

definition year_month_add_assign_months :: "year_month \<Rightarrow> months \<Rightarrow> year_month" where
  "year_month_add_assign_months ym k = year_month_plus_months ym k"

definition year_month_add_assign_years :: "year_month \<Rightarrow> years \<Rightarrow> year_month" where
  "year_month_add_assign_years ym k = year_month_plus_years ym k"

definition year_month_sub_assign_months :: "year_month \<Rightarrow> months \<Rightarrow> year_month" where
  "year_month_sub_assign_months ym k = year_month_minus_months ym k"

definition year_month_sub_assign_years :: "year_month \<Rightarrow> years \<Rightarrow> year_month" where
  "year_month_sub_assign_years ym k = year_month_minus_years ym k"

section \<open>\<open>month_day\<close> and \<open>month_day_last\<close>\<close>

definition month_day_ctor :: "month \<Rightarrow> day \<Rightarrow> month_day" where
  "month_day_ctor m d = Month_day m d"

definition month_day_ok :: "month_day \<Rightarrow> bool" where
  "month_day_ok x \<longleftrightarrow>
     (let d = map day_ctor [31, 29, 31, 30, 31, 30, 31, 31, 30, 31, 30, 31]
      in month_ok (md_month x) \<and> day_le (day_ctor 1) (md_day x) \<and>
         day_le (md_day x) (d ! unat (month_unsigned (md_month x) - 1)))"

definition month_day_eq :: "month_day \<Rightarrow> month_day \<Rightarrow> bool" where
  "month_day_eq x y \<longleftrightarrow>
     month_eq (md_month x) (md_month y) \<and> day_eq (md_day x) (md_day y)"

definition month_day_ne :: "month_day \<Rightarrow> month_day \<Rightarrow> bool" where
  "month_day_ne x y \<longleftrightarrow> \<not> month_day_eq x y"

definition month_day_lt :: "month_day \<Rightarrow> month_day \<Rightarrow> bool" where
  "month_day_lt x y \<longleftrightarrow>
     (if month_lt (md_month x) (md_month y) then True
      else if month_gt (md_month x) (md_month y) then False
      else day_lt (md_day x) (md_day y))"

definition month_day_gt :: "month_day \<Rightarrow> month_day \<Rightarrow> bool" where
  "month_day_gt x y \<longleftrightarrow> month_day_lt y x"

definition month_day_le :: "month_day \<Rightarrow> month_day \<Rightarrow> bool" where
  "month_day_le x y \<longleftrightarrow> \<not> month_day_lt y x"

definition month_day_ge :: "month_day \<Rightarrow> month_day \<Rightarrow> bool" where
  "month_day_ge x y \<longleftrightarrow> \<not> month_day_lt x y"

definition month_day_last_ctor :: "month \<Rightarrow> month_day_last" where
  "month_day_last_ctor m = Month_day_last m"

definition month_day_last_ok :: "month_day_last \<Rightarrow> bool" where
  "month_day_last_ok x \<longleftrightarrow> month_ok (mdl_month x)"

definition month_day_last_eq :: "month_day_last \<Rightarrow> month_day_last \<Rightarrow> bool" where
  "month_day_last_eq x y \<longleftrightarrow> month_eq (mdl_month x) (mdl_month y)"

definition month_day_last_ne :: "month_day_last \<Rightarrow> month_day_last \<Rightarrow> bool" where
  "month_day_last_ne x y \<longleftrightarrow> \<not> month_day_last_eq x y"

definition month_day_last_lt :: "month_day_last \<Rightarrow> month_day_last \<Rightarrow> bool" where
  "month_day_last_lt x y \<longleftrightarrow> month_lt (mdl_month x) (mdl_month y)"

definition month_day_last_gt :: "month_day_last \<Rightarrow> month_day_last \<Rightarrow> bool" where
  "month_day_last_gt x y \<longleftrightarrow> month_day_last_lt y x"

definition month_day_last_le :: "month_day_last \<Rightarrow> month_day_last \<Rightarrow> bool" where
  "month_day_last_le x y \<longleftrightarrow> \<not> month_day_last_lt y x"

definition month_day_last_ge :: "month_day_last \<Rightarrow> month_day_last \<Rightarrow> bool" where
  "month_day_last_ge x y \<longleftrightarrow> \<not> month_day_last_lt x y"

section \<open>\<open>month_weekday\<close> and \<open>month_weekday_last\<close>\<close>

definition month_weekday_ctor :: "month \<Rightarrow> weekday_indexed \<Rightarrow> month_weekday" where
  "month_weekday_ctor m wdi = Month_weekday m wdi"

definition month_weekday_ok :: "month_weekday \<Rightarrow> bool" where
  "month_weekday_ok x \<longleftrightarrow> month_ok (mw_month x) \<and> weekday_indexed_ok (mw_wdi x)"

definition month_weekday_eq :: "month_weekday \<Rightarrow> month_weekday \<Rightarrow> bool" where
  "month_weekday_eq x y \<longleftrightarrow>
     month_eq (mw_month x) (mw_month y) \<and> weekday_indexed_eq (mw_wdi x) (mw_wdi y)"

definition month_weekday_ne :: "month_weekday \<Rightarrow> month_weekday \<Rightarrow> bool" where
  "month_weekday_ne x y \<longleftrightarrow> \<not> month_weekday_eq x y"

definition month_weekday_last_ctor :: "month \<Rightarrow> weekday_last \<Rightarrow> month_weekday_last" where
  "month_weekday_last_ctor m wdl = Month_weekday_last m wdl"

definition month_weekday_last_ok :: "month_weekday_last \<Rightarrow> bool" where
  "month_weekday_last_ok x \<longleftrightarrow> month_ok (mwl_month x) \<and> weekday_last_ok (mwl_wdl x)"

definition month_weekday_last_eq :: "month_weekday_last \<Rightarrow> month_weekday_last \<Rightarrow> bool" where
  "month_weekday_last_eq x y \<longleftrightarrow>
     month_eq (mwl_month x) (mwl_month y) \<and> weekday_last_eq (mwl_wdl x) (mwl_wdl y)"

definition month_weekday_last_ne :: "month_weekday_last \<Rightarrow> month_weekday_last \<Rightarrow> bool" where
  "month_weekday_last_ne x y \<longleftrightarrow> \<not> month_weekday_last_eq x y"

section \<open>Composition\<close>

definition month_slash_day :: "month \<Rightarrow> day \<Rightarrow> month_day" where
  "month_slash_day m d = month_day_ctor m d"

definition day_slash_month :: "day \<Rightarrow> month \<Rightarrow> month_day" where
  "day_slash_month d m = month_slash_day m d"

definition month_slash_int :: "month \<Rightarrow> int \<Rightarrow> month_day" where
  "month_slash_int m d = month_slash_day m (day_ctor (word_of_int d))"

definition int_slash_day :: "int \<Rightarrow> day \<Rightarrow> month_day" where
  "int_slash_day m d = month_slash_day (month_ctor (word_of_int m)) d"

definition day_slash_int :: "day \<Rightarrow> int \<Rightarrow> month_day" where
  "day_slash_int d m = int_slash_day m d"

definition month_slash_last :: "month \<Rightarrow> month_day_last" where
  "month_slash_last m = month_day_last_ctor m"

definition last_slash_month :: "month \<Rightarrow> month_day_last" where
  "last_slash_month m = month_slash_last m"

definition int_slash_last :: "int \<Rightarrow> month_day_last" where
  "int_slash_last m = month_slash_last (month_ctor (word_of_int m))"

definition last_slash_int :: "int \<Rightarrow> month_day_last" where
  "last_slash_int m = int_slash_last m"

definition month_slash_wdi :: "month \<Rightarrow> weekday_indexed \<Rightarrow> month_weekday" where
  "month_slash_wdi m wdi = month_weekday_ctor m wdi"

definition wdi_slash_month :: "weekday_indexed \<Rightarrow> month \<Rightarrow> month_weekday" where
  "wdi_slash_month wdi m = month_slash_wdi m wdi"

definition int_slash_wdi :: "int \<Rightarrow> weekday_indexed \<Rightarrow> month_weekday" where
  "int_slash_wdi m wdi = month_slash_wdi (month_ctor (word_of_int m)) wdi"

definition wdi_slash_int :: "weekday_indexed \<Rightarrow> int \<Rightarrow> month_weekday" where
  "wdi_slash_int wdi m = int_slash_wdi m wdi"

definition month_slash_wdl :: "month \<Rightarrow> weekday_last \<Rightarrow> month_weekday_last" where
  "month_slash_wdl m wdl = month_weekday_last_ctor m wdl"

definition wdl_slash_month :: "weekday_last \<Rightarrow> month \<Rightarrow> month_weekday_last" where
  "wdl_slash_month wdl m = month_slash_wdl m wdl"

definition int_slash_wdl :: "int \<Rightarrow> weekday_last \<Rightarrow> month_weekday_last" where
  "int_slash_wdl m wdl = month_slash_wdl (month_ctor (word_of_int m)) wdl"

definition wdl_slash_int :: "weekday_last \<Rightarrow> int \<Rightarrow> month_weekday_last" where
  "wdl_slash_int wdl m = int_slash_wdl m wdl"
section \<open>Months counted from year zero\<close>

text \<open>A \<open>year_month\<close> as a number of months; arithmetic on it is arithmetic on the number.\<close>

definition month_number :: "year_month \<Rightarrow> int" where
  "month_number ym = 12 * year_int (ym_year ym) + uint (month_rep (ym_month ym)) - 1"

lemma month_number_inject:
  assumes "month_ok (ym_month x)" and "month_ok (ym_month y)"
  shows "month_number x = month_number y \<longleftrightarrow> x = y"
proof
  assume e: "month_number x = month_number y"
  have "year_int (ym_year z) = month_number z div 12" if "month_ok (ym_month z)" for z
    using that unfolding month_number_def ok_iff by linarith
  with e assms have "year_int (ym_year x) = year_int (ym_year y)" by metis
  with e show "x = y"
    by (cases x; cases y) (simp add: month_number_def year_int_inject month_rep_inject)
qed simp

lemma year_month_plus_months_fields:
  fixes ym dm
  defines "mi \<equiv> uint (month_rep (ym_month ym)) - 1 + dm"
  shows "ym_year (year_month_plus_months ym dm) = year_ctor (year_int (ym_year ym) + mi div 12)"
    and "uint (month_rep (ym_month (year_month_plus_months ym dm))) = mi mod 12 + 1"
proof -
  have e: "mi - mi div 12 * 12 + 1 = mi mod 12 + 1" by (simp add: minus_div_mult_eq_mod)
  have b: "0 \<le> mi mod 12 + 1" "mi mod 12 + 1 < 256"
    using pos_mod_sign [of 12 mi] pos_mod_bound [of 12 mi] by linarith+
  have eq: "year_month_plus_months ym dm =
      Year_month (year_plus (ym_year ym) (mi div 12)) (month_ctor (word_of_int (mi mod 12 + 1)))"
    unfolding year_month_plus_months_def Let_def unsigned_simps mi_def [symmetric] c_floor12 e
      year_slash_month_def year_month_ctor_def ..
  show "ym_year (year_month_plus_months ym dm) = year_ctor (year_int (ym_year ym) + mi div 12)"
    by (simp add: eq year_plus_def)
  show "uint (month_rep (ym_month (year_month_plus_months ym dm))) = mi mod 12 + 1"
    by (simp only: eq year_month.sel month_ctor_uint [OF b])
qed

lemma month_number_plus:
  assumes "- 32768 * 12 \<le> month_number ym + dm" and "month_number ym + dm < 32768 * 12"
  shows "month_number (year_month_plus_months ym dm) = month_number ym + dm"
    and "month_ok (ym_month (year_month_plus_months ym dm))"
proof -
  let ?mi = "uint (month_rep (ym_month ym)) - 1 + dm"
  have n: "month_number ym + dm = 12 * year_int (ym_year ym) + ?mi" by (simp add: month_number_def)
  then have "(month_number ym + dm) div 12 = year_int (ym_year ym) + ?mi div 12" by simp
  then have "- 32768 \<le> year_int (ym_year ym) + ?mi div 12"
    "year_int (ym_year ym) + ?mi div 12 \<le> 32767"
    using assms by linarith+
  then have y: "year_int (ym_year (year_month_plus_months ym dm)) = year_int (ym_year ym) + ?mi div 12"
    by (simp add: year_month_plus_months_fields)
  have "12 * (?mi div 12) + ?mi mod 12 = ?mi" by simp
  then show "month_number (year_month_plus_months ym dm) = month_number ym + dm"
    using n by (simp add: month_number_def y year_month_plus_months_fields(2) algebra_simps)
  have "0 \<le> ?mi mod 12" "?mi mod 12 < 12" by auto
  then show "month_ok (ym_month (year_month_plus_months ym dm))"
    by (simp add: ok_iff year_month_plus_months_fields(2))
qed

lemma year_month_diff_number:
  "year_month_diff x y = month_number x - month_number y"
proof -
  have "sint (month_unsigned m - month_unsigned n) = uint (month_rep m) - uint (month_rep n)" for m n
  proof -
    have "month_unsigned m - month_unsigned n = word_of_int (uint (month_rep m) - uint (month_rep n))"
      by (simp add: month_unsigned_def del: of_int_uint) (simp add: of_int_uint)
    moreover have "- 255 \<le> uint (month_rep m) - uint (month_rep n)"
      "uint (month_rep m) - uint (month_rep n) \<le> 255"
      using u8_bounds [of "month_rep m"] u8_bounds [of "month_rep n"] by linarith+
    ultimately show ?thesis by (simp only:) (rule sint_u32_of_int; simp)
  qed
  then show ?thesis by (simp add: year_month_diff_def month_number_def year_diff_def)
qed

lemma year_month_lt_number:
  assumes "month_ok (ym_month x)" and "month_ok (ym_month y)"
  shows "year_month_lt x y \<longleftrightarrow> month_number x < month_number y"
  using assms
  by (auto simp: year_month_lt_def year_gt_def order_iff month_number_def ok_iff)

end
