(* ===== verification/Civil.thy ===== *)
theory Civil
  imports Prelude
begin

text \<open>
  The proleptic Gregorian calendar on integers: leap years, month lengths, the next day, and
  the conversion between dates and day counts that \<open>utils/date.h\<close> computes in machine words,
  here without them. The day count starts at 1970-01-01; inside it an era is 400 years that
  start on the first of March, \<open>yoe\<close> the year of the era, \<open>doe\<close> the day of the era, \<open>doy\<close> the
  day of the year and \<open>mp\<close> the month, counted from March.
\<close>

section \<open>The calendar\<close>

definition leap :: "int \<Rightarrow> bool" where
  "leap y \<longleftrightarrow> y mod 4 = 0 \<and> (y mod 100 \<noteq> 0 \<or> y mod 400 = 0)"

definition month_length :: "int \<Rightarrow> int \<Rightarrow> int" where
  "month_length y m =
     (if m = 2 then (if leap y then 29 else 28) else if m \<in> {4, 6, 9, 11} then 30 else 31)"

definition valid_date :: "int \<times> int \<times> int \<Rightarrow> bool" where
  "valid_date = (\<lambda>(y, m, d). 1 \<le> m \<and> m \<le> 12 \<and> 1 \<le> d \<and> d \<le> month_length y m)"

definition next_date :: "int \<times> int \<times> int \<Rightarrow> int \<times> int \<times> int" where
  "next_date = (\<lambda>(y, m, d).
     if d < month_length y m then (y, m, d + 1)
     else if m < 12 then (y, m + 1, 1) else (y + 1, 1, 1))"

section \<open>The conversions\<close>

definition yoe_start :: "int \<Rightarrow> int" where
  "yoe_start k = 365 * k + k div 4 - k div 100"

definition doe_yoe :: "int \<Rightarrow> int" where
  "doe_yoe doe = (doe - doe div 1460 + doe div 36524 - doe div 146096) div 365"

definition mp_start :: "int \<Rightarrow> int" where
  "mp_start mp = (153 * mp + 2) div 5"

definition days_civil :: "int \<times> int \<times> int \<Rightarrow> int" where
  "days_civil = (\<lambda>(year, m, d).
     (let y = (if m \<le> 2 then year - 1 else year);
          mp = (if m > 2 then m - 3 else m + 9)
      in (y div 400) * 146097 + (yoe_start (y mod 400) + (mp_start mp + d - 1)) - 719468))"

definition civil_days :: "int \<Rightarrow> int \<times> int \<times> int" where
  "civil_days n =
     (let z = n + 719468;
          doe = z mod 146097;
          yoe = doe_yoe doe;
          y = yoe + (z div 146097) * 400;
          doy = doe - yoe_start yoe;
          mp = (5 * doy + 2) div 153;
          d = doy - mp_start mp + 1;
          m = (if mp < 10 then mp + 3 else mp - 9)
      in (y + of_bool (m \<le> 2), m, d))"

section \<open>Years of an era\<close>

text \<open>The day after the last day of year \<open>k\<close> of an era; the last year has the leap day of the era.\<close>

definition yoe_end :: "int \<Rightarrow> int" where
  "yoe_end k = yoe_start (k + 1) + of_bool (k = 399)"

lemma year_boundaries:
  "list_all (\<lambda>k. doe_yoe (yoe_start k) = k \<and> doe_yoe (yoe_end k - 1) = k \<and>
     yoe_end k - yoe_start k = 365 + of_bool (leap (k + 1))) (map int [0..<400])"
  by code_simp

lemma year_boundary:
  assumes "0 \<le> k" and "k < 400"
  shows "doe_yoe (yoe_start k) = k" and "doe_yoe (yoe_end k - 1) = k"
    and "yoe_end k - yoe_start k = 365 + of_bool (leap (k + 1))"
proof -
  have "k \<in> set (map int [0..<400])" using assms by (auto simp: image_iff intro: bexI [of _ "nat k"])
  with year_boundaries show "doe_yoe (yoe_start k) = k" "doe_yoe (yoe_end k - 1) = k"
    "yoe_end k - yoe_start k = 365 + of_bool (leap (k + 1))"
    unfolding list_all_iff by blast+
qed

lemma doe_yoe_mono_step:
  assumes "0 \<le> n" and "n < 146096"
  shows "doe_yoe n \<le> doe_yoe (n + 1)"
proof (cases "n + 1 = 146096")
  case True
  then show ?thesis by (simp add: doe_yoe_def)
next
  case False
  have "(n + 1) div 1460 \<le> (n + 1460) div 1460" by (rule zdiv_mono1) auto
  then have "(n + 1) div 1460 \<le> n div 1460 + 1" by simp
  moreover have "n div 36524 \<le> (n + 1) div 36524" by (rule zdiv_mono1) auto
  moreover have "n div 146096 = 0" "(n + 1) div 146096 = 0" using assms False by auto
  ultimately have "n - n div 1460 + n div 36524 - n div 146096
      \<le> n + 1 - (n + 1) div 1460 + (n + 1) div 36524 - (n + 1) div 146096" by linarith
  then show ?thesis unfolding doe_yoe_def by (rule zdiv_mono1) simp
qed

lemma doe_yoe_mono:
  assumes "0 \<le> a" and "a \<le> b" and "b \<le> 146096"
  shows "doe_yoe a \<le> doe_yoe b"
  using assms(2,3)
proof (induction b rule: int_ge_induct)
  case (step i)
  then show ?case using doe_yoe_mono_step [of i] assms(1) by simp
qed simp

lemma yoe_end_le:
  assumes "0 \<le> k" and "k < 400"
  shows "yoe_end k \<le> 146097"
proof (cases "k = 399")
  case True
  then show ?thesis by (simp add: yoe_end_def yoe_start_def)
next
  case False
  have "(k + 1) div 4 \<le> 400 div 4" using assms by (intro zdiv_mono1) auto
  moreover have "0 \<le> (k + 1) div 100" using assms by simp
  ultimately show ?thesis using assms False by (simp add: yoe_end_def yoe_start_def)
qed

lemma yoe_start_nonneg: "0 \<le> k \<Longrightarrow> 0 \<le> yoe_start k"
  unfolding yoe_start_def by linarith

lemma doe_yoe_eq:
  assumes "0 \<le> k" and "k < 400" and "yoe_start k \<le> doe" and "doe < yoe_end k"
  shows "doe_yoe doe = k"
proof (rule antisym)
  have "doe \<le> yoe_end k - 1" using assms(4) by simp
  with yoe_end_le [OF assms(1,2)] yoe_start_nonneg [OF assms(1)] assms(3)
  show "doe_yoe doe \<le> k" "k \<le> doe_yoe doe"
    using doe_yoe_mono [of doe "yoe_end k - 1"] doe_yoe_mono [of "yoe_start k" doe]
      year_boundary [OF assms(1,2)] by auto
qed

lemma year_of_day:
  assumes "0 \<le> doe" and "doe < 146097"
  obtains k where "0 \<le> k" and "k < 400" and "yoe_start k \<le> doe" and "doe < yoe_end k"
proof -
  have "\<exists>k. 0 \<le> k \<and> k < int n \<and> yoe_start k \<le> doe \<and> doe < yoe_start (k + 1)"
    if "doe < yoe_start (int n)" for n
    using that
  proof (induction n)
    case 0
    then show ?case using assms(1) by (simp add: yoe_start_def)
  next
    case (Suc n)
    show ?case
    proof (cases "doe < yoe_start (int n)")
      case True
      with Suc.IH show ?thesis by auto
    next
      case False
      with Suc.prems show ?thesis by (intro exI [of _ "int n"]) (simp add: add.commute)
    qed
  qed
  note ex = this
  show thesis
  proof (cases "doe < yoe_start 400")
    case True
    then obtain k where k: "0 \<le> k" "k < 400" "yoe_start k \<le> doe" "doe < yoe_start (k + 1)"
      using ex [of 400] by auto
    then have "doe < yoe_end k" by (cases "k = 399") (auto simp: yoe_end_def)
    with k that show thesis by blast
  next
    case False
    with assms(2) have "doe = 146096" by (simp add: yoe_start_def)
    with that [of 399] show thesis by (simp add: yoe_end_def yoe_start_def)
  qed
qed

section \<open>Months of a year\<close>

text \<open>The month of a day of the year is the last one that starts no later.\<close>

lemma mp_start_le_iff: "mp_start mp \<le> doy \<longleftrightarrow> mp \<le> (5 * doy + 2) div 153"
proof -
  have "5 * mp_start mp \<le> 153 * mp + 2" "153 * mp + 2 < 5 * mp_start mp + 5"
    unfolding mp_start_def by linarith+
  moreover define q where "q = (5 * doy + 2) div 153"
  then have "153 * q \<le> 5 * doy + 2" "5 * doy + 2 < 153 * q + 153" by linarith+
  ultimately have "mp_start mp \<le> doy \<longleftrightarrow> mp \<le> q" by linarith
  then show ?thesis by (simp add: q_def)
qed

lemma mp_eq_iff: "(5 * doy + 2) div 153 = mp \<longleftrightarrow> mp_start mp \<le> doy \<and> doy < mp_start (mp + 1)"
  using mp_start_le_iff [of mp doy] mp_start_le_iff [of "mp + 1" doy] by auto

lemma mp_start_values:
  "mp_start 0 = 0" "mp_start 1 = 31" "mp_start 2 = 61" "mp_start 3 = 92" "mp_start 4 = 122"
  "mp_start 5 = 153" "mp_start 6 = 184" "mp_start 7 = 214" "mp_start 8 = 245" "mp_start 9 = 275"
  "mp_start 10 = 306" "mp_start 11 = 337" "mp_start 12 = 367"
  by (simp_all add: mp_start_def)

section \<open>Dates and days\<close>

text \<open>The fields of a date inside its era, and what a valid date says about them.\<close>

lemma month_length_bounds: "28 \<le> month_length y m" "month_length y m \<le> 31"
  by (auto simp: month_length_def)

lemma leap_mod_400: "leap (y mod 400 + 1) \<longleftrightarrow> leap (y + 1)"
proof -
  have "(y mod 400 + 1) mod c = (y + 1) mod c" if "c dvd 400" for c
    using that by (metis mod_add_left_eq mod_mod_cancel)
  then show ?thesis by (simp add: leap_def)
qed

lemma up_to_12: "1 \<le> (m :: int) \<Longrightarrow> m \<le> 12 \<Longrightarrow> m \<in> {1, 2, 3, 4, 5, 6, 7, 8, 9, 10, 11, 12}"
  unfolding insert_iff empty_iff by presburger

lemma up_to_11: "0 \<le> (m :: int) \<Longrightarrow> m \<le> 11 \<Longrightarrow> m \<in> {0, 1, 2, 3, 4, 5, 6, 7, 8, 9, 10, 11}"
  unfolding insert_iff empty_iff by presburger

lemma valid_date_doy:
  assumes "valid_date (year, m, d)"
  defines "y \<equiv> (if m \<le> 2 then year - 1 else year)"
  defines "mp \<equiv> (if m > 2 then m - 3 else m + 9)"
  defines "doy \<equiv> mp_start mp + d - 1"
  shows "(5 * doy + 2) div 153 = mp" and "0 \<le> doy"
    and "doy < yoe_end (y mod 400) - yoe_start (y mod 400)"
proof -
  have m: "m \<in> {1, 2, 3, 4, 5, 6, 7, 8, 9, 10, 11, 12}"
    using assms(1) by (intro up_to_12) (auto simp: valid_date_def)
  have d: "1 \<le> d" "d \<le> month_length year m" using assms(1) by (auto simp: valid_date_def)
  show "0 \<le> doy" using m d by (auto simp: doy_def mp_def mp_start_values)
  have "mp_start mp \<le> doy" using d by (simp add: doy_def)
  moreover have "doy < mp_start (mp + 1)"
    using m d by (auto simp: doy_def mp_def mp_start_values month_length_def split: if_splits)
  ultimately show "(5 * doy + 2) div 153 = mp" by (simp add: mp_eq_iff)
  have "yoe_end (y mod 400) - yoe_start (y mod 400) = 365 + of_bool (leap (y mod 400 + 1))"
    by (rule year_boundary(3)) auto
  also have "\<dots> = 365 + of_bool (leap (y + 1))" by (simp only: leap_mod_400)
  finally have len: "yoe_end (y mod 400) - yoe_start (y mod 400) = 365 + of_bool (leap (y + 1))" .
  show "doy < yoe_end (y mod 400) - yoe_start (y mod 400)"
  proof (cases "m = 2")
    case True
    then show ?thesis
      using d unfolding len
      by (auto simp: doy_def mp_def y_def mp_start_values month_length_def split: if_splits)
  next
    case False
    with assms(1) have "mp + 1 \<le> 11" by (auto simp: mp_def valid_date_def)
    then have "mp_start (mp + 1) \<le> mp_start 11" unfolding mp_start_def by (intro zdiv_mono1) auto
    with \<open>doy < mp_start (mp + 1)\<close> show ?thesis unfolding len by (simp add: mp_start_values)
  qed
qed

theorem civil_days_days_civil:
  assumes "valid_date (year, m, d)"
  shows "civil_days (days_civil (year, m, d)) = (year, m, d)"
proof -
  define y where "y = (if m \<le> 2 then year - 1 else year)"
  define mp where "mp = (if m > 2 then m - 3 else m + 9)"
  define doy where "doy = mp_start mp + d - 1"
  define doe where "doe = yoe_start (y mod 400) + doy"
  note v = valid_date_doy [OF assms, folded y_def mp_def, folded doy_def]
  have k: "0 \<le> y mod 400" "y mod 400 < 400" by auto
  have doe: "0 \<le> doe" "doe < 146097"
    using v yoe_start_nonneg [OF k(1)] yoe_end_le [OF k] by (auto simp: doe_def)
  have yoe: "doe_yoe doe = y mod 400"
    using v by (intro doe_yoe_eq k) (auto simp: doe_def)
  have z: "days_civil (year, m, d) + 719468 = (y div 400) * 146097 + doe"
    by (simp add: days_civil_def Let_def y_def mp_def doe_def doy_def)
  have dm: "((y div 400) * 146097 + doe) mod 146097 = doe"
    "((y div 400) * 146097 + doe) div 146097 = y div 400" using doe by auto
  have ye: "y mod 400 + y div 400 * 400 = y" by simp
  have me: "(if mp < 10 then mp + 3 else mp - 9) = m"
    using assms by (auto simp: mp_def valid_date_def)
  have de: "doe - yoe_start (y mod 400) = doy" by (simp add: doe_def)
  have fin: "y + of_bool (m \<le> 2) = year" "doy - mp_start mp + 1 = d"
    by (simp_all add: y_def doy_def)
  show ?thesis
    unfolding civil_days_def z Let_def dm yoe ye de v(1) me fin ..
qed

lemma valid_date_of_mp:
  assumes "0 \<le> mp" and "mp \<le> 11" and "doy < mp_start (mp + 1)" and "mp_start mp \<le> doy"
    and "0 \<le> doy" and "doy < 365 + of_bool (leap (y + 1))"
  defines "m \<equiv> (if mp < 10 then mp + 3 else mp - 9)"
  shows "valid_date (y + of_bool (m \<le> 2), m, doy - mp_start mp + 1)"
proof -
  have "mp \<in> {0, 1, 2, 3, 4, 5, 6, 7, 8, 9, 10, 11}" using assms(1,2) by (rule up_to_11)
  with assms(3-6) show ?thesis
    by (auto simp: m_def valid_date_def mp_start_values month_length_def)
qed

theorem civil_days_correct:
  shows "valid_date (civil_days n)" and "days_civil (civil_days n) = n"
proof -
  define z where "z = n + 719468"
  define doe where "doe = z mod 146097"
  have doe: "0 \<le> doe" "doe < 146097" by (auto simp: doe_def)
  then obtain k where k: "0 \<le> k" "k < 400" "yoe_start k \<le> doe" "doe < yoe_end k"
    by (rule year_of_day)
  have yoe: "doe_yoe doe = k" using doe_yoe_eq k by blast
  define y where "y = k + (z div 146097) * 400"
  define doy where "doy = doe - yoe_start k"
  define mp where "mp = (5 * doy + 2) div 153"
  define m where "m = (if mp < 10 then mp + 3 else mp - 9)"
  have y400: "y mod 400 = k" "y div 400 = z div 146097" using k by (auto simp: y_def)
  have "yoe_end k - yoe_start k = 365 + of_bool (leap (k + 1))" using year_boundary k by blast
  then have doy: "0 \<le> doy" "doy < 365 + of_bool (leap (y + 1))"
    using k leap_mod_400 [of y] y400 by (auto simp: doy_def)
  then have "doy \<le> 365" by (auto split: if_splits simp: of_bool_def)
  then have mp: "0 \<le> mp" "mp \<le> 11" using doy(1) by (auto simp: mp_def)
  have mps: "mp_start mp \<le> doy" "doy < mp_start (mp + 1)" using mp_eq_iff mp_def by blast+
  have c: "civil_days n = (y + of_bool (m \<le> 2), m, doy - mp_start mp + 1)"
    unfolding civil_days_def Let_def z_def [symmetric] doe_def [symmetric] yoe y_def [symmetric]
      doy_def [symmetric] mp_def [symmetric] m_def [symmetric] ..
  show "valid_date (civil_days n)"
    unfolding c m_def by (rule valid_date_of_mp [OF mp mps(2,1) doy])
  have "(if m \<le> 2 then y + of_bool (m \<le> 2) - 1 else y + of_bool (m \<le> 2)) = y"
    and "(if m > 2 then m - 3 else m + 9) = mp" using mp by (auto simp: m_def)
  then have "days_civil (civil_days n) =
      y div 400 * 146097 + (yoe_start (y mod 400) + (mp_start mp + (doy - mp_start mp + 1) - 1)) - 719468"
    unfolding c days_civil_def case_prod_conv Let_def by presburger
  also have "\<dots> = z div 146097 * 146097 + doe - 719468" by (simp add: y400 doy_def)
  also have "\<dots> = n" by (simp add: doe_def z_def)
  finally show "days_civil (civil_days n) = n" .
qed

lemma days_civil_inject:
  "valid_date x \<Longrightarrow> valid_date y \<Longrightarrow> days_civil x = days_civil y \<Longrightarrow> x = y"
  by (cases x; cases y) (metis civil_days_days_civil)

section \<open>Successive days\<close>

lemma valid_next_date: "valid_date x \<Longrightarrow> valid_date (next_date x)"
  by (cases x) (auto simp: valid_date_def next_date_def month_length_def)

lemma days_civil_epoch: "days_civil (1970, 1, 1) = 0"
  by (simp add: days_civil_def yoe_start_def mp_start_def)

lemma era_step:
  "((y + 1) div 400) * 146097 + yoe_start ((y + 1) mod 400) =
    (y div 400) * 146097 + yoe_start (y mod 400) + 365 + of_bool (leap (y + 1))"
proof -
  have k: "0 \<le> y mod 400" "y mod 400 < 400" by auto
  note b = year_boundary(3) [OF k, unfolded leap_mod_400 yoe_end_def]
  define q where "q = y div 400"
  define r where "r = y mod 400"
  have y: "y = q * 400 + r" and r: "0 \<le> r" "r < 400" by (simp_all add: q_def r_def)
  show ?thesis
  proof (cases "r = 399")
    case True
    then have "y + 1 = (q + 1) * 400" using y by simp
    then have "(y + 1) mod 400 = 0" "(y + 1) div 400 = q + 1" by (simp_all only:, simp_all)
    with b True show ?thesis
      unfolding q_def [symmetric] r_def [symmetric] by (simp add: yoe_start_def algebra_simps)
  next
    case False
    have "y + 1 = q * 400 + (r + 1)" using y by simp
    moreover have "0 \<le> r + 1" "r + 1 < 400" using r False by auto
    ultimately have "(y + 1) mod 400 = r + 1" "(y + 1) div 400 = q" by (simp_all only:, simp_all)
    with b False show ?thesis
      unfolding q_def [symmetric] r_def [symmetric] by simp
  qed
qed

theorem days_civil_next:
  assumes "valid_date x"
  shows "days_civil (next_date x) = days_civil x + 1"
proof -
  obtain y m d where x: "x = (y, m, d)" by (cases x)
  have m: "m \<in> {1, 2, 3, 4, 5, 6, 7, 8, 9, 10, 11, 12}"
    using assms by (intro up_to_12) (auto simp: x valid_date_def)
  have d: "d \<le> month_length y m" using assms by (auto simp: x valid_date_def)
  note days = days_civil_def next_date_def x Let_def mp_start_values
  show ?thesis
  proof (cases "d < month_length y m")
    case True
    then show ?thesis by (simp add: days)
  next
    case False
    with d have d: "d = month_length y m" by simp
    show ?thesis
    proof (cases "m = 2")
      case True
      with d era_step [of "y - 1"] show ?thesis by (simp add: days month_length_def)
    next
      case False
      with m have "m \<in> {1, 3, 4, 5, 6, 7, 8, 9, 10, 11, 12}" by simp
      then show ?thesis
        by (elim insertE emptyE; simp add: d days month_length_def)
    qed
  qed
qed

end
