(* ===== verification/CalDate.thy ===== *)
theory CalDate
  imports CalParts Civil "HOL-Library.Product_Lexorder"
begin

text \<open>
  The calendar library, third part: \<open>year_month_day\<close> and \<open>year_month_day_last\<close>, with the
  conversions from and to a count of days since 1970-01-01, in the mixed signed and unsigned
  arithmetic of the code. A point in time of day precision (\<open>sys_days\<close>, \<open>local_days\<close>) is that
  count.
\<close>

section \<open>The classes\<close>

datatype year_month_day = Year_month_day (ymd_year: year) (ymd_month: month) (ymd_day: day)
datatype year_month_day_last = Year_month_day_last (ymdl_year: year) (ymdl_mdl: month_day_last)

section \<open>\<open>year_month_day_last\<close>\<close>

definition year_month_day_last_ctor :: "year \<Rightarrow> month_day_last \<Rightarrow> year_month_day_last" where
  "year_month_day_last_ctor y mdl = Year_month_day_last y mdl"

definition ymdl_month :: "year_month_day_last \<Rightarrow> month" where
  "ymdl_month x = mdl_month (ymdl_mdl x)"

definition ym_slash_last :: "year_month \<Rightarrow> unit \<Rightarrow> year_month_day_last" where
  "ym_slash_last ym l = year_month_day_last_ctor (ym_year ym) (month_day_last_ctor (ym_month ym))"

definition ymdl_day :: "year_month_day_last \<Rightarrow> day" where
  "ymdl_day x =
     (let d = map day_ctor [31, 28, 31, 30, 31, 30, 31, 31, 30, 31, 30, 31]
      in if (month_ne (ymdl_month x) February \<or> \<not> is_leap (ymdl_year x)) \<and>
            month_day_last_ok (ymdl_mdl x)
         then d ! unat (month_unsigned (ymdl_month x) - 1) else day_ctor 29)"

definition ymdl_ok :: "year_month_day_last \<Rightarrow> bool" where
  "ymdl_ok x \<longleftrightarrow> year_ok (ymdl_year x) \<and> month_day_last_ok (ymdl_mdl x)"

definition ymdl_eq :: "year_month_day_last \<Rightarrow> year_month_day_last \<Rightarrow> bool" where
  "ymdl_eq x y \<longleftrightarrow>
     year_eq (ymdl_year x) (ymdl_year y) \<and> month_day_last_eq (ymdl_mdl x) (ymdl_mdl y)"

definition ymdl_ne :: "year_month_day_last \<Rightarrow> year_month_day_last \<Rightarrow> bool" where
  "ymdl_ne x y \<longleftrightarrow> \<not> ymdl_eq x y"

definition ymdl_lt :: "year_month_day_last \<Rightarrow> year_month_day_last \<Rightarrow> bool" where
  "ymdl_lt x y \<longleftrightarrow>
     (if year_lt (ymdl_year x) (ymdl_year y) then True
      else if year_gt (ymdl_year x) (ymdl_year y) then False
      else month_day_last_lt (ymdl_mdl x) (ymdl_mdl y))"

definition ymdl_gt :: "year_month_day_last \<Rightarrow> year_month_day_last \<Rightarrow> bool" where
  "ymdl_gt x y \<longleftrightarrow> ymdl_lt y x"

definition ymdl_le :: "year_month_day_last \<Rightarrow> year_month_day_last \<Rightarrow> bool" where
  "ymdl_le x y \<longleftrightarrow> \<not> ymdl_lt y x"

definition ymdl_ge :: "year_month_day_last \<Rightarrow> year_month_day_last \<Rightarrow> bool" where
  "ymdl_ge x y \<longleftrightarrow> \<not> ymdl_lt x y"

definition ymdl_plus_months :: "year_month_day_last \<Rightarrow> months \<Rightarrow> year_month_day_last" where
  "ymdl_plus_months x dm =
     ym_slash_last (year_month_plus_months
       (year_slash_month (ymdl_year x) (ymdl_month x)) dm) ()"

definition months_plus_ymdl :: "months \<Rightarrow> year_month_day_last \<Rightarrow> year_month_day_last" where
  "months_plus_ymdl dm x = ymdl_plus_months x dm"

definition ymdl_minus_months :: "year_month_day_last \<Rightarrow> months \<Rightarrow> year_month_day_last" where
  "ymdl_minus_months x dm = ymdl_plus_months x (- dm)"

definition ymdl_plus_years :: "year_month_day_last \<Rightarrow> years \<Rightarrow> year_month_day_last" where
  "ymdl_plus_years x dy =
     year_month_day_last_ctor (year_plus (ymdl_year x) dy) (ymdl_mdl x)"

definition years_plus_ymdl :: "years \<Rightarrow> year_month_day_last \<Rightarrow> year_month_day_last" where
  "years_plus_ymdl dy x = ymdl_plus_years x dy"

definition ymdl_minus_years :: "year_month_day_last \<Rightarrow> years \<Rightarrow> year_month_day_last" where
  "ymdl_minus_years x dy = ymdl_plus_years x (- dy)"

definition ymdl_add_assign_months :: "year_month_day_last \<Rightarrow> months \<Rightarrow> year_month_day_last" where
  "ymdl_add_assign_months x k = ymdl_plus_months x k"

definition ymdl_add_assign_years :: "year_month_day_last \<Rightarrow> years \<Rightarrow> year_month_day_last" where
  "ymdl_add_assign_years x k = ymdl_plus_years x k"

definition ymdl_sub_assign_months :: "year_month_day_last \<Rightarrow> months \<Rightarrow> year_month_day_last" where
  "ymdl_sub_assign_months x k = ymdl_minus_months x k"

definition ymdl_sub_assign_years :: "year_month_day_last \<Rightarrow> years \<Rightarrow> year_month_day_last" where
  "ymdl_sub_assign_years x k = ymdl_minus_years x k"

section \<open>\<open>year_month_day\<close>\<close>

definition year_month_day_ctor :: "year \<Rightarrow> month \<Rightarrow> day \<Rightarrow> year_month_day" where
  "year_month_day_ctor y m d = Year_month_day y m d"

definition year_month_day_of_last :: "year_month_day_last \<Rightarrow> year_month_day" where
  "year_month_day_of_last x =
     year_month_day_ctor (ymdl_year x) (ymdl_month x) (ymdl_day x)"

definition to_days :: "year_month_day \<Rightarrow> days" where
  "to_days x =
     (let y = year_int (ymd_year x) - of_bool (month_le (ymd_month x) February);
          m = month_unsigned (ymd_month x);
          d = day_unsigned (ymd_day x);
          era = c_div (if y \<ge> 0 then y else y - 399) 400;
          yoe = word_of_int (y - era * 400) :: u32;
          doy = (153 * (if m > 2 then m - 3 else m + 9) + 2) div 5 + d - 1;
          doe = yoe * 365 + yoe div 4 - yoe div 100 + doy
      in era * 146097 + sint doe - 719468)"

definition from_days :: "days \<Rightarrow> year_month_day" where
  "from_days dp =
     (let z = dp + 719468;
          era = c_div (if z \<ge> 0 then z else z - 146096) 146097;
          doe = word_of_int (z - era * 146097) :: u32;
          yoe = (doe - doe div 1460 + doe div 36524 - doe div 146096) div 365;
          y = sint yoe + era * 400;
          doy = doe - (365 * yoe + yoe div 4 - yoe div 100);
          mp = (5 * doy + 2) div 153;
          d = doy - (153 * mp + 2) div 5 + 1;
          m = (if mp < 10 then mp + 3 else mp - 9)
      in year_month_day_ctor (year_ctor (y + of_bool (m \<le> 2))) (month_ctor m) (day_ctor d))"

definition year_month_day_sys :: "days \<Rightarrow> year_month_day" where
  "year_month_day_sys dp = from_days dp"

definition year_month_day_local :: "days \<Rightarrow> year_month_day" where
  "year_month_day_local dp = from_days dp"

definition ymd_sys_days :: "year_month_day \<Rightarrow> days" where
  "ymd_sys_days x = to_days x"

definition ymd_local_days :: "year_month_day \<Rightarrow> days" where
  "ymd_local_days x = to_days x"

definition ym_slash_day :: "year_month \<Rightarrow> day \<Rightarrow> year_month_day" where
  "ym_slash_day ym d = year_month_day_ctor (ym_year ym) (ym_month ym) d"

definition ym_slash_int :: "year_month \<Rightarrow> int \<Rightarrow> year_month_day" where
  "ym_slash_int ym d = ym_slash_day ym (day_ctor (word_of_int d))"

definition ymd_ok :: "year_month_day \<Rightarrow> bool" where
  "ymd_ok x \<longleftrightarrow>
     (if \<not> (year_ok (ymd_year x) \<and> month_ok (ymd_month x)) then False
      else day_le (day_ctor 1) (ymd_day x) \<and>
        day_le (ymd_day x)
          (ymdl_day (ym_slash_last (year_slash_month (ymd_year x) (ymd_month x)) ())))"

definition ymd_eq :: "year_month_day \<Rightarrow> year_month_day \<Rightarrow> bool" where
  "ymd_eq x y \<longleftrightarrow> year_eq (ymd_year x) (ymd_year y) \<and>
     month_eq (ymd_month x) (ymd_month y) \<and> day_eq (ymd_day x) (ymd_day y)"

definition ymd_ne :: "year_month_day \<Rightarrow> year_month_day \<Rightarrow> bool" where
  "ymd_ne x y \<longleftrightarrow> \<not> ymd_eq x y"

definition ymd_lt :: "year_month_day \<Rightarrow> year_month_day \<Rightarrow> bool" where
  "ymd_lt x y \<longleftrightarrow>
     (if year_lt (ymd_year x) (ymd_year y) then True
      else if year_gt (ymd_year x) (ymd_year y) then False
      else if month_lt (ymd_month x) (ymd_month y) then True
      else if month_gt (ymd_month x) (ymd_month y) then False
      else day_lt (ymd_day x) (ymd_day y))"

definition ymd_gt :: "year_month_day \<Rightarrow> year_month_day \<Rightarrow> bool" where
  "ymd_gt x y \<longleftrightarrow> ymd_lt y x"

definition ymd_le :: "year_month_day \<Rightarrow> year_month_day \<Rightarrow> bool" where
  "ymd_le x y \<longleftrightarrow> \<not> ymd_lt y x"

definition ymd_ge :: "year_month_day \<Rightarrow> year_month_day \<Rightarrow> bool" where
  "ymd_ge x y \<longleftrightarrow> \<not> ymd_lt x y"

definition ymd_plus_months :: "year_month_day \<Rightarrow> months \<Rightarrow> year_month_day" where
  "ymd_plus_months x dm =
     ym_slash_day (year_month_plus_months
       (year_slash_month (ymd_year x) (ymd_month x)) dm) (ymd_day x)"

definition months_plus_ymd :: "months \<Rightarrow> year_month_day \<Rightarrow> year_month_day" where
  "months_plus_ymd dm x = ymd_plus_months x dm"

definition ymd_minus_months :: "year_month_day \<Rightarrow> months \<Rightarrow> year_month_day" where
  "ymd_minus_months x dm = ymd_plus_months x (- dm)"

definition ymd_plus_years :: "year_month_day \<Rightarrow> years \<Rightarrow> year_month_day" where
  "ymd_plus_years x dy =
     ym_slash_day (year_slash_month (year_plus (ymd_year x) dy) (ymd_month x)) (ymd_day x)"

definition years_plus_ymd :: "years \<Rightarrow> year_month_day \<Rightarrow> year_month_day" where
  "years_plus_ymd dy x = ymd_plus_years x dy"

definition ymd_minus_years :: "year_month_day \<Rightarrow> years \<Rightarrow> year_month_day" where
  "ymd_minus_years x dy = ymd_plus_years x (- dy)"

definition ymd_add_assign_months :: "year_month_day \<Rightarrow> months \<Rightarrow> year_month_day" where
  "ymd_add_assign_months x k = ymd_plus_months x k"

definition ymd_add_assign_years :: "year_month_day \<Rightarrow> years \<Rightarrow> year_month_day" where
  "ymd_add_assign_years x k = ymd_plus_years x k"

definition ymd_sub_assign_months :: "year_month_day \<Rightarrow> months \<Rightarrow> year_month_day" where
  "ymd_sub_assign_months x k = ymd_minus_months x k"

definition ymd_sub_assign_years :: "year_month_day \<Rightarrow> years \<Rightarrow> year_month_day" where
  "ymd_sub_assign_years x k = ymd_minus_years x k"

definition ymdl_sys_days :: "year_month_day_last \<Rightarrow> days" where
  "ymdl_sys_days x = ymd_sys_days
     (ym_slash_day (year_slash_month (ymdl_year x) (ymdl_month x)) (ymdl_day x))"

definition ymdl_local_days :: "year_month_day_last \<Rightarrow> days" where
  "ymdl_local_days x = ymd_local_days
     (ym_slash_day (year_slash_month (ymdl_year x) (ymdl_month x)) (ymdl_day x))"

section \<open>Composition\<close>

definition year_slash_md :: "year \<Rightarrow> month_day \<Rightarrow> year_month_day" where
  "year_slash_md y md = ym_slash_day (year_slash_month y (md_month md)) (md_day md)"

definition int_slash_md :: "int \<Rightarrow> month_day \<Rightarrow> year_month_day" where
  "int_slash_md y md = year_slash_md (year_ctor y) md"

definition md_slash_year :: "month_day \<Rightarrow> year \<Rightarrow> year_month_day" where
  "md_slash_year md y = year_slash_md y md"

definition md_slash_int :: "month_day \<Rightarrow> int \<Rightarrow> year_month_day" where
  "md_slash_int md y = year_slash_md (year_ctor y) md"

definition year_slash_mdl :: "year \<Rightarrow> month_day_last \<Rightarrow> year_month_day_last" where
  "year_slash_mdl y mdl = year_month_day_last_ctor y mdl"

definition int_slash_mdl :: "int \<Rightarrow> month_day_last \<Rightarrow> year_month_day_last" where
  "int_slash_mdl y mdl = year_slash_mdl (year_ctor y) mdl"

definition mdl_slash_year :: "month_day_last \<Rightarrow> year \<Rightarrow> year_month_day_last" where
  "mdl_slash_year mdl y = year_slash_mdl y mdl"

definition mdl_slash_int :: "month_day_last \<Rightarrow> int \<Rightarrow> year_month_day_last" where
  "mdl_slash_int mdl y = year_slash_mdl (year_ctor y) mdl"
section \<open>The date algorithms compute the calendar\<close>

text \<open>A date as three integers.\<close>

definition ymd_ints :: "year_month_day \<Rightarrow> int \<times> int \<times> int" where
  "ymd_ints x = (year_int (ymd_year x), uint (month_rep (ymd_month x)), uint (day_rep (ymd_day x)))"

lemma ymd_ints_inject: "ymd_ints x = ymd_ints y \<longleftrightarrow> x = y"
  by (cases x; cases y) (simp add: ymd_ints_def year_int_inject month_rep_inject day_rep_inject)

lemma is_leap_leap: "is_leap y \<longleftrightarrow> leap (year_int y)"
  by (simp add: is_leap_iff leap_def)

lemma unsigned_of_int:
  "month_unsigned m = word_of_int (uint (month_rep m))"
  "day_unsigned d = word_of_int (uint (day_rep d))"
  by (simp_all add: month_unsigned_def day_unsigned_def)

lemma u32_div_of_int:
  assumes "0 \<le> a" and "a < 2 ^ 32" and "0 \<le> b" and "b < 2 ^ 32"
  shows "(word_of_int a :: u32) div word_of_int b = word_of_int (a div b)"
  using assms by (simp add: word_div_def)

lemma month_index:
  assumes "1 \<le> uint (month_rep m)"
  shows "unat (month_unsigned m - 1) = nat (uint (month_rep m) - 1)"
proof -
  have "month_unsigned m - 1 = word_of_int (uint (month_rep m) - 1)"
    by (simp add: month_unsigned_def)
  moreover have "0 \<le> uint (month_rep m) - 1" using assms by simp
  moreover have "uint (month_rep m) - 1 < 2 ^ 32"
    by (rule less_trans [of _ 256]) (use u8_bounds(3) [of "month_rep m"] in linarith, simp)
  ultimately have "uint (month_unsigned m - 1) = uint (month_rep m) - 1"
    by (simp only: uint_u32_of_int)
  then show ?thesis by (simp add: unat_eq_nat_uint)
qed

lemma ymdl_day_length:
  assumes "month_ok (ymdl_month x)"
  shows "uint (day_rep (ymdl_day x)) = month_length (year_int (ymdl_year x)) (uint (month_rep (ymdl_month x)))"
proof -
  let ?m = "uint (month_rep (ymdl_month x))"
  have m: "?m \<in> {1, 2, 3, 4, 5, 6, 7, 8, 9, 10, 11, 12}"
    using assms by (intro up_to_12) (auto simp: ok_iff)
  have feb: "ymdl_month x = February \<longleftrightarrow> ?m = 2"
    by (subst month_rep_inject [symmetric]) simp
  have lok: "month_day_last_ok (ymdl_mdl x)"
    using assms by (simp add: month_day_last_ok_def ymdl_month_def)
  have ix: "unat (month_unsigned (ymdl_month x) - 1) = nat (?m - 1)"
    using m by (intro month_index) auto
  show ?thesis
    using m lok
    by (elim insertE emptyE)
      (auto simp: ymdl_day_def Let_def ix feb month_ne_def order_iff is_leap_leap month_length_def
        day_ctor_def ucast_eq)
qed

lemma ymd_ok_iff:
  "ymd_ok x \<longleftrightarrow> valid_date (ymd_ints x) \<and> year_int (ymd_year x) \<noteq> - 32768"
proof -
  let ?l = "ym_slash_last (year_slash_month (ymd_year x) (ymd_month x)) ()"
  have f: "ymdl_month ?l = ymd_month x" "ymdl_year ?l = ymd_year x"
    by (simp_all add: ym_slash_last_def year_slash_month_def year_month_ctor_def
      year_month_day_last_ctor_def month_day_last_ctor_def ymdl_month_def)
  have one: "uint (day_rep (day_ctor 1)) = 1" by (simp add: day_ctor_def)
  show ?thesis
    using ymdl_day_length [of ?l]
    by (auto simp: ymd_ok_def f one ok_iff day_le_def order_iff valid_date_def ymd_ints_def)
qed

lemma to_days_civil:
  assumes "month_ok (ymd_month x)" and "1 \<le> uint (day_rep (ymd_day x))"
  shows "to_days x = days_civil (ymd_ints x)"
proof -
  define Y where "Y = year_int (ymd_year x)"
  define M where "M = uint (month_rep (ymd_month x))"
  define D where "D = uint (day_rep (ymd_day x))"
  define y where "y = (if M \<le> 2 then Y - 1 else Y)"
  define mp where "mp = (if M > 2 then M - 3 else M + 9)"
  have M: "1 \<le> M" "M \<le> 12" and D: "1 \<le> D" "D \<le> 255"
    using assms u8_bounds [of "day_rep (ymd_day x)"] by (auto simp: M_def D_def ok_iff)
  have k: "0 \<le> y mod 400" "y mod 400 < 400" by auto
  have mp: "0 \<le> mp" "mp \<le> 11" using M by (auto simp: mp_def)
  have mps: "0 \<le> mp_start mp" "mp_start mp \<le> 337"
    using mp unfolding mp_start_def by linarith+
  have ys: "0 \<le> yoe_start (y mod 400)" "yoe_start (y mod 400) \<le> 146097"
    using yoe_start_nonneg [OF k(1)] yoe_end_le [OF k] year_boundary(3) [OF k] by (auto simp: of_bool_def split: if_splits)
  have e1: "Y - of_bool (month_le (ymd_month x) February) = y"
    by (simp add: month_le_February y_def M_def)
  have e2: "y - y div 400 * 400 = y mod 400" by (simp add: minus_div_mult_eq_mod)
  have e3: "(if month_unsigned (ymd_month x) > 2 then month_unsigned (ymd_month x) - 3
      else month_unsigned (ymd_month x) + 9) = word_of_int mp"
    by (simp add: u32_less_iff mp_def M_def unsigned_of_int)
  have e4: "(153 * word_of_int mp + 2 :: u32) div 5 = word_of_int (mp_start mp)"
    using u32_div_of_int [of "153 * mp + 2" 5] mp by (simp add: mp_start_def)
  have e5: "(word_of_int (y mod 400) :: u32) div 4 = word_of_int (y mod 400 div 4)"
    "(word_of_int (y mod 400) :: u32) div 100 = word_of_int (y mod 400 div 100)"
    using u32_div_of_int [of "y mod 400" 4] u32_div_of_int [of "y mod 400" 100] k by simp_all
  define doe where "doe = yoe_start (y mod 400) + (mp_start mp + D - 1)"
  have e6: "word_of_int (y mod 400) * 365 + word_of_int (y mod 400 div 4) -
      word_of_int (y mod 400 div 100) + (word_of_int (mp_start mp) + word_of_int D - 1) =
      (word_of_int doe :: u32)"
    by (simp add: doe_def yoe_start_def algebra_simps)
  have e7: "sint (word_of_int doe :: u32) = doe"
    using ys mps D by (intro sint_u32_of_int) (auto simp: doe_def)
  have "to_days x = y div 400 * 146097 + doe - 719468"
    unfolding to_days_def Let_def Y_def [symmetric] e1 c_floor400 e2 e3 e4 e5
      unsigned_of_int(2) [of "ymd_day x", folded D_def] by (simp only: e6 e7)
  then show ?thesis
    by (simp add: ymd_ints_def days_civil_def Let_def Y_def [symmetric] M_def [symmetric]
      D_def [symmetric] y_def [symmetric] mp_def [symmetric] doe_def)
qed

lemma of_bool_word_le: "(m :: u32) \<le> 2 \<longleftrightarrow> uint m \<le> 2"
  by (simp add: u32_le_iff)

lemma from_days_civil:
  assumes "civil_days n = (Y, M, D)" and "- 32768 \<le> Y" and "Y \<le> 32767"
  shows "ymd_ints (from_days n) = (Y, M, D)"
proof -
  define z where "z = n + 719468"
  define doe where "doe = z mod 146097"
  define yoe where "yoe = doe_yoe doe"
  define y where "y = yoe + z div 146097 * 400"
  define doy where "doy = doe - yoe_start yoe"
  define mp where "mp = (5 * doy + 2) div 153"
  define d where "d = doy - mp_start mp + 1"
  define m where "m = (if mp < 10 then mp + 3 else mp - 9)"
  have doe: "0 \<le> doe" "doe < 146097" by (auto simp: doe_def)
  then obtain k where k: "0 \<le> k" "k < 400" "yoe_start k \<le> doe" "doe < yoe_end k"
    by (rule year_of_day)
  have yoe: "yoe = k" unfolding yoe_def using doe_yoe_eq k by blast
  have "yoe_end k - yoe_start k = 365 + of_bool (leap (k + 1))" using year_boundary k by blast
  then have doy: "0 \<le> doy" "doy \<le> 365"
    using k by (auto simp: doy_def yoe of_bool_def split: if_splits)
  then have mp: "0 \<le> mp" "mp \<le> 11" by (auto simp: mp_def)
  have mps: "mp_start mp \<le> doy" "0 \<le> mp_start mp" "doy < mp_start (mp + 1)" "mp_start (mp + 1) \<le> mp_start mp + 31"
    using mp_eq_iff [of doy mp] mp by (auto simp: mp_def [symmetric]) (auto simp: mp_start_def)
  have c: "civil_days n = (y + of_bool (m \<le> 2), m, d)"
    unfolding civil_days_def Let_def z_def [symmetric] doe_def [symmetric] yoe_def [symmetric]
      y_def [symmetric] doy_def [symmetric] mp_def [symmetric] d_def [symmetric] m_def [symmetric] ..
  have b: "1 \<le> m" "m \<le> 12" "1 \<le> d" "d \<le> 31" using mp mps by (auto simp: m_def d_def)
  have w1: "z - z div 146097 * 146097 = doe" by (simp add: doe_def minus_div_mult_eq_mod)
  have q: "0 \<le> doe - doe div 1460 + doe div 36524 - doe div 146096"
    "doe - doe div 1460 + doe div 36524 - doe div 146096 < 2 ^ 32" using doe by auto
  have w2: "(word_of_int doe - word_of_int doe div 1460 + word_of_int doe div 36524 -
      word_of_int doe div 146096 :: u32) div 365 = word_of_int yoe"
    using u32_div_of_int [of doe 1460] u32_div_of_int [of doe 36524]
      u32_div_of_int [of doe 146096] u32_div_of_int [OF q, of 365] doe
    by (simp add: yoe_def doe_yoe_def)
  have w3: "sint (word_of_int yoe :: u32) = yoe"
    using k by (intro sint_u32_of_int) (auto simp: yoe)
  have w4: "word_of_int doe - (365 * word_of_int yoe + word_of_int yoe div 4 -
      word_of_int yoe div 100) = (word_of_int doy :: u32)"
    using u32_div_of_int [of yoe 4] u32_div_of_int [of yoe 100] k
    by (simp add: doy_def yoe_start_def yoe)
  have w5: "(5 * word_of_int doy + 2 :: u32) div 153 = word_of_int mp"
    using u32_div_of_int [of "5 * doy + 2" 153] doy by (simp add: mp_def)
  have w6: "word_of_int doy - (153 * word_of_int mp + 2) div 5 + 1 = (word_of_int d :: u32)"
    using u32_div_of_int [of "153 * mp + 2" 5] mp by (simp add: d_def mp_start_def)
  have w7: "(if (word_of_int mp :: u32) < 10 then word_of_int mp + 3 else word_of_int mp - 9) =
      (word_of_int m :: u32)"
    using mp by (simp add: u32_less_iff m_def)
  have w8: "(word_of_int m :: u32) \<le> 2 \<longleftrightarrow> m \<le> 2" using b by (simp add: u32_le_iff)
  have "from_days n = year_month_day_ctor (year_ctor (y + of_bool (m \<le> 2)))
      (month_ctor (word_of_int m)) (day_ctor (word_of_int d))"
    unfolding from_days_def Let_def z_def [symmetric] c_floor146097 w1 w2 w3 y_def [symmetric]
      w4 w5 w6 w7 w8 ..
  with c assms b show ?thesis
    by (simp add: ymd_ints_def year_month_day_ctor_def month_ctor_uint day_ctor_uint)
qed

text \<open>Days around the epoch whose year fits into the 16 bits of \<open>year\<close>.\<close>

definition day_range :: "int \<Rightarrow> bool" where
  "day_range n \<longleftrightarrow> - 12000000 \<le> n \<and> n \<le> 11000000"

lemma civil_year_range:
  assumes "civil_days n = (Y, M, D)" and "day_range n"
  shows "- 32767 \<le> Y" and "Y \<le> 32767"
proof -
  define z where "z = n + 719468"
  have "0 \<le> z mod 146097" "z mod 146097 < 146097" by auto
  then obtain k where k: "0 \<le> k" "k < 400" "yoe_start k \<le> z mod 146097" "z mod 146097 < yoe_end k"
    by (rule year_of_day)
  have yoe: "doe_yoe (z mod 146097) = k" using doe_yoe_eq k by blast
  have "(- 11280532) div 146097 \<le> z div 146097" "z div 146097 \<le> 11719468 div 146097"
    using assms(2) by (auto simp: z_def day_range_def intro!: zdiv_mono1)
  then have "- 78 \<le> z div 146097" "z div 146097 \<le> 80" by simp_all
  moreover have "Y = k + z div 146097 * 400 + of_bool (M \<le> 2)"
    using assms(1) by (auto simp: civil_days_def Let_def z_def [symmetric] yoe)
  ultimately show "- 32767 \<le> Y" "Y \<le> 32767" using k by (auto simp: of_bool_def)
qed

lemma ymd_ints_from_days: "day_range n \<Longrightarrow> ymd_ints (from_days n) = civil_days n"
proof -
  assume r: "day_range n"
  obtain Y M D where c: "civil_days n = (Y, M, D)" by (cases "civil_days n") auto
  from from_days_civil [OF c] civil_year_range [OF c r] c show ?thesis by simp
qed

lemma ymd_ok_valid:
  assumes "ymd_ok x"
  shows "valid_date (ymd_ints x)" and "month_ok (ymd_month x)" and "1 \<le> uint (day_rep (ymd_day x))"
  using assms by (auto simp: ymd_ok_iff valid_date_def ymd_ints_def ok_iff)

lemma to_days_ok: "ymd_ok x \<Longrightarrow> to_days x = days_civil (ymd_ints x)"
  using to_days_civil ymd_ok_valid by blast

lemma from_days_to_days_ok: "ymd_ok x \<Longrightarrow> from_days (to_days x) = x"
proof -
  assume x: "ymd_ok x"
  obtain Y M D where i: "ymd_ints x = (Y, M, D)" by (cases "ymd_ints x") auto
  then have "civil_days (to_days x) = (Y, M, D)"
    using x civil_days_days_civil ymd_ok_valid(1) [OF x] by (simp add: to_days_ok)
  moreover have "- 32768 \<le> Y" "Y \<le> 32767"
    using i year_int_bounds [of "ymd_year x"] by (auto simp: ymd_ints_def)
  ultimately have "ymd_ints (from_days (to_days x)) = ymd_ints x"
    using from_days_civil i by simp
  then show ?thesis by (simp add: ymd_ints_inject)
qed

lemma from_days_ok: "day_range n \<Longrightarrow> ymd_ok (from_days n)"
proof -
  assume r: "day_range n"
  obtain Y M D where c: "civil_days n = (Y, M, D)" by (cases "civil_days n") auto
  then have "year_int (ymd_year (from_days n)) = Y"
    using ymd_ints_from_days [OF r] by (simp add: ymd_ints_def)
  with civil_year_range [OF c r] ymd_ints_from_days [OF r] civil_days_correct(1) [of n]
  show ?thesis by (simp add: ymd_ok_iff)
qed

lemma to_days_from_days: "day_range n \<Longrightarrow> to_days (from_days n) = n"
  by (simp add: to_days_ok from_days_ok ymd_ints_from_days civil_days_correct)

section \<open>Order\<close>

text \<open>The days follow each other in the lexicographic order of their dates.\<close>

lemma civil_days_Suc: "civil_days (n + 1) = next_date (civil_days n)"
proof -
  have "days_civil (next_date (civil_days n)) = n + 1"
    by (simp add: days_civil_next civil_days_correct)
  then show ?thesis
    using days_civil_inject civil_days_correct valid_next_date by metis
qed

lemma next_date_greater: "valid_date x \<Longrightarrow> x < next_date x"
  by (cases x) (auto simp: next_date_def valid_date_def)

lemma civil_days_strict_mono: "m < n \<Longrightarrow> civil_days m < civil_days n"
proof (induction n rule: int_gr_induct)
  case base
  then show ?case by (simp add: civil_days_Suc next_date_greater civil_days_correct)
next
  case (step i)
  then show ?case
    using next_date_greater [OF civil_days_correct(1), of i] by (simp add: civil_days_Suc)
qed

lemma days_civil_less_iff:
  assumes "valid_date x" and "valid_date y"
  shows "days_civil x < days_civil y \<longleftrightarrow> x < y"
proof -
  have inv: "civil_days (days_civil x) = x" "civil_days (days_civil y) = y"
    using assms by (cases x; cases y; simp add: civil_days_days_civil)+
  show ?thesis
  proof
    assume "days_civil x < days_civil y"
    from civil_days_strict_mono [OF this] inv show "x < y" by simp
  next
    assume xy: "x < y"
    have "\<not> days_civil y < days_civil x"
      using civil_days_strict_mono [of "days_civil y" "days_civil x", unfolded inv] xy less_asym
      by blast
    moreover have "days_civil x \<noteq> days_civil y"
      using days_civil_inject [OF assms] xy less_irrefl by metis
    ultimately show "days_civil x < days_civil y" by linarith
  qed
qed

lemma ymd_lt_ints: "ymd_lt x y \<longleftrightarrow> ymd_ints x < ymd_ints y"
  by (auto simp: ymd_lt_def ymd_ints_def year_gt_def month_gt_def order_iff)

lemma ymd_le_ints: "ymd_le x y \<longleftrightarrow> ymd_ints x \<le> ymd_ints y"
  unfolding ymd_le_def ymd_lt_ints by (rule not_less)

lemma ymd_lt_to_days: "ymd_ok x \<Longrightarrow> ymd_ok y \<Longrightarrow> ymd_lt x y \<longleftrightarrow> to_days x < to_days y"
  by (simp add: ymd_lt_ints to_days_ok days_civil_less_iff ymd_ok_valid)

instantiation year_month_day :: linorder
begin

definition less_year_month_day :: "year_month_day \<Rightarrow> year_month_day \<Rightarrow> bool" where
  "less_year_month_day x y = ymd_lt x y"

definition less_eq_year_month_day :: "year_month_day \<Rightarrow> year_month_day \<Rightarrow> bool" where
  "less_eq_year_month_day x y = ymd_le x y"

instance
proof
  fix x y z :: year_month_day
  note ints = less_year_month_day_def less_eq_year_month_day_def ymd_lt_ints ymd_le_ints
  show "x < y \<longleftrightarrow> x \<le> y \<and> \<not> y \<le> x" unfolding ints by (rule less_le_not_le)
  show "x \<le> x" unfolding ints by (rule order_refl)
  show "x \<le> y \<Longrightarrow> y \<le> z \<Longrightarrow> x \<le> z" unfolding ints by (rule order_trans)
  show "x \<le> y \<Longrightarrow> y \<le> x \<Longrightarrow> x = y"
    unfolding ints ymd_ints_inject [symmetric] by (rule antisym)
  show "x \<le> y \<or> y \<le> x" unfolding ints by (rule linear)
qed

end

end
