(* ===== verification/CalWeek.thy ===== *)
theory CalWeek
  imports CalDate
begin

text \<open>
  The calendar library, fourth part: dates given as the n-th or the last weekday of a month.
\<close>

section \<open>The classes\<close>

datatype year_month_weekday =
  Year_month_weekday (ymw_year: year) (ymw_month: month) (ymw_wdi: weekday_indexed)

datatype year_month_weekday_last =
  Year_month_weekday_last (ymwl_year: year) (ymwl_month: month) (ymwl_wdl: weekday_last)

section \<open>\<open>year_month_weekday\<close>\<close>

definition year_month_weekday_ctor :: "year \<Rightarrow> month \<Rightarrow> weekday_indexed \<Rightarrow> year_month_weekday" where
  "year_month_weekday_ctor y m wdi = Year_month_weekday y m wdi"

definition ymw_from_days :: "days \<Rightarrow> year_month_weekday" where
  "ymw_from_days d =
     (let wd = weekday_sys d;
          ymd = year_month_day_sys d
      in year_month_weekday_ctor (ymd_year ymd) (ymd_month ymd)
           (weekday_index wd ((day_unsigned (ymd_day ymd) - 1) div 7 + 1)))"

definition ymw_sys :: "days \<Rightarrow> year_month_weekday" where
  "ymw_sys dp = ymw_from_days dp"

definition ymw_local :: "days \<Rightarrow> year_month_weekday" where
  "ymw_local dp = ymw_from_days dp"

definition ymw_weekday :: "year_month_weekday \<Rightarrow> weekday" where
  "ymw_weekday x = wdi_weekday (ymw_wdi x)"

definition ymw_index :: "year_month_weekday \<Rightarrow> u32" where
  "ymw_index x = wdi_index (ymw_wdi x)"

definition ymw_to_days :: "year_month_weekday \<Rightarrow> days" where
  "ymw_to_days x =
     (let d = ymd_sys_days (ym_slash_int (year_slash_month (ymw_year x) (ymw_month x)) 1)
      in d + (weekday_diff (wdi_weekday (ymw_wdi x)) (weekday_sys d) +
              sint ((wdi_index (ymw_wdi x) - 1) * 7)))"

definition ymw_sys_days :: "year_month_weekday \<Rightarrow> days" where
  "ymw_sys_days x = ymw_to_days x"

definition ymw_local_days :: "year_month_weekday \<Rightarrow> days" where
  "ymw_local_days x = ymw_to_days x"

definition ymw_ok :: "year_month_weekday \<Rightarrow> bool" where
  "ymw_ok x \<longleftrightarrow>
     (let wdi = ymw_wdi x;
          ym = year_slash_month (ymw_year x) (ymw_month x)
      in if \<not> year_ok (ymw_year x) \<or> \<not> month_ok (ymw_month x) \<or>
            \<not> weekday_ok (wdi_weekday wdi) \<or> wdi_index wdi < 1 then False
         else if wdi_index wdi \<le> 4 then True
         else let d2 = weekday_diff (wdi_weekday wdi) (weekday_sys (ymd_sys_days (ym_slash_int ym 1))) +
                  sint ((wdi_index wdi - 1) * 7 + 1)
           in word_of_int d2 \<le> day_unsigned (ymdl_day (ym_slash_last ym ())))"

definition ymw_eq :: "year_month_weekday \<Rightarrow> year_month_weekday \<Rightarrow> bool" where
  "ymw_eq x y \<longleftrightarrow> year_eq (ymw_year x) (ymw_year y) \<and>
     month_eq (ymw_month x) (ymw_month y) \<and> weekday_indexed_eq (ymw_wdi x) (ymw_wdi y)"

definition ymw_ne :: "year_month_weekday \<Rightarrow> year_month_weekday \<Rightarrow> bool" where
  "ymw_ne x y \<longleftrightarrow> \<not> ymw_eq x y"

definition ym_slash_wdi :: "year_month \<Rightarrow> weekday_indexed \<Rightarrow> year_month_weekday" where
  "ym_slash_wdi ym wdi =
     year_month_weekday_ctor (ym_year ym) (ym_month ym) wdi"

definition ymw_plus_months :: "year_month_weekday \<Rightarrow> months \<Rightarrow> year_month_weekday" where
  "ymw_plus_months x dm =
     ym_slash_wdi (year_month_plus_months
       (year_slash_month (ymw_year x) (ymw_month x)) dm) (ymw_wdi x)"

definition months_plus_ymw :: "months \<Rightarrow> year_month_weekday \<Rightarrow> year_month_weekday" where
  "months_plus_ymw dm x = ymw_plus_months x dm"

definition ymw_minus_months :: "year_month_weekday \<Rightarrow> months \<Rightarrow> year_month_weekday" where
  "ymw_minus_months x dm = ymw_plus_months x (- dm)"

definition ymw_plus_years :: "year_month_weekday \<Rightarrow> years \<Rightarrow> year_month_weekday" where
  "ymw_plus_years x dy =
     year_month_weekday_ctor (year_plus (ymw_year x) dy) (ymw_month x) (ymw_wdi x)"

definition years_plus_ymw :: "years \<Rightarrow> year_month_weekday \<Rightarrow> year_month_weekday" where
  "years_plus_ymw dy x = ymw_plus_years x dy"

definition ymw_minus_years :: "year_month_weekday \<Rightarrow> years \<Rightarrow> year_month_weekday" where
  "ymw_minus_years x dy = ymw_plus_years x (- dy)"

definition ymw_add_assign_months :: "year_month_weekday \<Rightarrow> months \<Rightarrow> year_month_weekday" where
  "ymw_add_assign_months x k = ymw_plus_months x k"

definition ymw_add_assign_years :: "year_month_weekday \<Rightarrow> years \<Rightarrow> year_month_weekday" where
  "ymw_add_assign_years x k = ymw_plus_years x k"

definition ymw_sub_assign_months :: "year_month_weekday \<Rightarrow> months \<Rightarrow> year_month_weekday" where
  "ymw_sub_assign_months x k = ymw_minus_months x k"

definition ymw_sub_assign_years :: "year_month_weekday \<Rightarrow> years \<Rightarrow> year_month_weekday" where
  "ymw_sub_assign_years x k = ymw_minus_years x k"

section \<open>\<open>year_month_weekday_last\<close>\<close>

definition year_month_weekday_last_ctor :: "year \<Rightarrow> month \<Rightarrow> weekday_last \<Rightarrow> year_month_weekday_last" where
  "year_month_weekday_last_ctor y m wdl = Year_month_weekday_last y m wdl"

definition ymwl_weekday :: "year_month_weekday_last \<Rightarrow> weekday" where
  "ymwl_weekday x = wdl_wd (ymwl_wdl x)"

definition ymwl_ok :: "year_month_weekday_last \<Rightarrow> bool" where
  "ymwl_ok x \<longleftrightarrow> year_ok (ymwl_year x) \<and>
     month_ok (ymwl_month x) \<and> weekday_last_ok (ymwl_wdl x)"

definition ymwl_to_days :: "year_month_weekday_last \<Rightarrow> days" where
  "ymwl_to_days x =
     (let d = ymdl_sys_days (ym_slash_last (year_slash_month (ymwl_year x) (ymwl_month x)) ())
      in d - weekday_diff (weekday_sys d) (wdl_wd (ymwl_wdl x)))"

definition ymwl_sys_days :: "year_month_weekday_last \<Rightarrow> days" where
  "ymwl_sys_days x = ymwl_to_days x"

definition ymwl_local_days :: "year_month_weekday_last \<Rightarrow> days" where
  "ymwl_local_days x = ymwl_to_days x"

definition ymwl_eq :: "year_month_weekday_last \<Rightarrow> year_month_weekday_last \<Rightarrow> bool" where
  "ymwl_eq x y \<longleftrightarrow> year_eq (ymwl_year x) (ymwl_year y) \<and>
     month_eq (ymwl_month x) (ymwl_month y) \<and> weekday_last_eq (ymwl_wdl x) (ymwl_wdl y)"

definition ymwl_ne :: "year_month_weekday_last \<Rightarrow> year_month_weekday_last \<Rightarrow> bool" where
  "ymwl_ne x y \<longleftrightarrow> \<not> ymwl_eq x y"

definition ym_slash_wdl :: "year_month \<Rightarrow> weekday_last \<Rightarrow> year_month_weekday_last" where
  "ym_slash_wdl ym wdl =
     year_month_weekday_last_ctor (ym_year ym) (ym_month ym) wdl"

definition ymwl_plus_months :: "year_month_weekday_last \<Rightarrow> months \<Rightarrow> year_month_weekday_last" where
  "ymwl_plus_months x dm =
     ym_slash_wdl (year_month_plus_months
       (year_slash_month (ymwl_year x) (ymwl_month x)) dm) (ymwl_wdl x)"

definition months_plus_ymwl :: "months \<Rightarrow> year_month_weekday_last \<Rightarrow> year_month_weekday_last" where
  "months_plus_ymwl dm x = ymwl_plus_months x dm"

definition ymwl_minus_months :: "year_month_weekday_last \<Rightarrow> months \<Rightarrow> year_month_weekday_last" where
  "ymwl_minus_months x dm = ymwl_plus_months x (- dm)"

definition ymwl_plus_years :: "year_month_weekday_last \<Rightarrow> years \<Rightarrow> year_month_weekday_last" where
  "ymwl_plus_years x dy =
     year_month_weekday_last_ctor (year_plus (ymwl_year x) dy) (ymwl_month x) (ymwl_wdl x)"

definition years_plus_ymwl :: "years \<Rightarrow> year_month_weekday_last \<Rightarrow> year_month_weekday_last" where
  "years_plus_ymwl dy x = ymwl_plus_years x dy"

definition ymwl_minus_years :: "year_month_weekday_last \<Rightarrow> years \<Rightarrow> year_month_weekday_last" where
  "ymwl_minus_years x dy = ymwl_plus_years x (- dy)"

definition ymwl_add_assign_months :: "year_month_weekday_last \<Rightarrow> months \<Rightarrow> year_month_weekday_last" where
  "ymwl_add_assign_months x k = ymwl_plus_months x k"

definition ymwl_add_assign_years :: "year_month_weekday_last \<Rightarrow> years \<Rightarrow> year_month_weekday_last" where
  "ymwl_add_assign_years x k = ymwl_plus_years x k"

definition ymwl_sub_assign_months :: "year_month_weekday_last \<Rightarrow> months \<Rightarrow> year_month_weekday_last" where
  "ymwl_sub_assign_months x k = ymwl_minus_months x k"

definition ymwl_sub_assign_years :: "year_month_weekday_last \<Rightarrow> years \<Rightarrow> year_month_weekday_last" where
  "ymwl_sub_assign_years x k = ymwl_minus_years x k"

section \<open>Composition\<close>

definition year_slash_mw :: "year \<Rightarrow> month_weekday \<Rightarrow> year_month_weekday" where
  "year_slash_mw y mwd = year_month_weekday_ctor y (mw_month mwd) (mw_wdi mwd)"

definition int_slash_mw :: "int \<Rightarrow> month_weekday \<Rightarrow> year_month_weekday" where
  "int_slash_mw y mwd = year_slash_mw (year_ctor y) mwd"

definition mw_slash_year :: "month_weekday \<Rightarrow> year \<Rightarrow> year_month_weekday" where
  "mw_slash_year mwd y = year_slash_mw y mwd"

definition mw_slash_int :: "month_weekday \<Rightarrow> int \<Rightarrow> year_month_weekday" where
  "mw_slash_int mwd y = year_slash_mw (year_ctor y) mwd"

definition year_slash_mwl :: "year \<Rightarrow> month_weekday_last \<Rightarrow> year_month_weekday_last" where
  "year_slash_mwl y mwdl =
     year_month_weekday_last_ctor y (mwl_month mwdl) (mwl_wdl mwdl)"

definition int_slash_mwl :: "int \<Rightarrow> month_weekday_last \<Rightarrow> year_month_weekday_last" where
  "int_slash_mwl y mwdl = year_slash_mwl (year_ctor y) mwdl"

definition mwl_slash_year :: "month_weekday_last \<Rightarrow> year \<Rightarrow> year_month_weekday_last" where
  "mwl_slash_year mwdl y = year_slash_mwl y mwdl"

definition mwl_slash_int :: "month_weekday_last \<Rightarrow> int \<Rightarrow> year_month_weekday_last" where
  "mwl_slash_int mwdl y = year_slash_mwl (year_ctor y) mwdl"
section \<open>Weekdays of a month\<close>

lemma ym_slash_fields [simp]:
  "ymd_year (ym_slash_int (year_slash_month y m) 1) = y"
  "ymd_month (ym_slash_int (year_slash_month y m) 1) = m"
  "uint (day_rep (ymd_day (ym_slash_int (year_slash_month y m) 1))) = 1"
  by (simp_all add: ym_slash_int_def ym_slash_day_def year_slash_month_def year_month_ctor_def
    year_month_day_ctor_def day_ctor_def)

lemma wdi_of_index:
  assumes "uint (wd_rep wd) \<le> 6" and "1 \<le> uint ix" and "uint ix \<le> 5"
  shows "wdi_weekday (weekday_index wd ix) = wd" and "wdi_index (weekday_index wd ix) = ix"
proof -
  have w: "uint (ucast (wd_rep wd) :: 4 word) = uint (wd_rep wd)"
    and i: "uint (ucast ix :: 4 word) = uint ix"
    using assms by (simp_all add: unsigned_ucast_eq take_bit_int_eq_self)
  have "uint (ucast (ucast (wd_rep wd) :: 4 word) :: u32) = uint (wd_rep wd)"
    using w by (simp add: uint_up_ucast is_up)
  moreover from this assms have "(ucast (ucast (wd_rep wd) :: 4 word) :: u32) \<noteq> 7"
    by (auto simp: word_uint_eq_iff)
  ultimately have "uint (wd_rep (wdi_weekday (weekday_index wd ix))) = uint (wd_rep wd)"
    by (simp add: wdi_weekday_def weekday_index_def weekday_indexed_ctor_def weekday_ctor_def
      uint_u8_of_u32)
  then show "wdi_weekday (weekday_index wd ix) = wd" by (simp only: wd_rep_inject)
  show "wdi_index (weekday_index wd ix) = ix"
    using i by (simp add: wdi_index_def weekday_index_def weekday_indexed_ctor_def
      word_uint_eq_iff uint_up_ucast is_up)
qed

lemma weekday_sys_mod:
  "day_range n \<Longrightarrow> uint (wd_rep (weekday_sys n)) = (n + 4) mod 7"
  by (simp add: weekday_sys_def weekday_from_days_mod day_range_def)

text \<open>The day of the month splits into a week and the distance from the first of the month.\<close>

lemma first_of_month:
  assumes "ymd_ok x"
  shows "to_days (ym_slash_int (year_slash_month (ymd_year x) (ymd_month x)) 1) =
    to_days x - (uint (day_rep (ymd_day x)) - 1)"
  using assms ymd_ok_valid [OF assms]
  by (subst (1 2) to_days_civil) (auto simp: ymd_ints_def days_civil_def Let_def)

lemma day_index_word:
  assumes "1 \<le> uint (day_rep d)" and "uint (day_rep d) \<le> 31"
  shows "uint ((day_unsigned d - 1) div 7 + 1) = (uint (day_rep d) - 1) div 7 + 1"
    and "sint (((day_unsigned d - 1) div 7 + 1 - 1) * 7) = (uint (day_rep d) - 1) div 7 * 7"
proof -
  let ?k = "(uint (day_rep d) - 1) div 7"
  have k: "0 \<le> ?k" "?k \<le> 4" using assms by auto
  have "day_unsigned d - 1 = word_of_int (uint (day_rep d) - 1)"
    by (simp add: day_unsigned_def)
  moreover have "(word_of_int (uint (day_rep d) - 1) :: u32) div word_of_int 7 = word_of_int ?k"
    using assms by (intro u32_div_of_int) auto
  ultimately have e: "(day_unsigned d - 1) div 7 = word_of_int ?k" by simp
  show "uint ((day_unsigned d - 1) div 7 + 1) = ?k + 1"
    using k uint_u32_of_int [of "?k + 1"] unfolding e by simp
  show "sint (((day_unsigned d - 1) div 7 + 1 - 1) * 7) = ?k * 7"
    using k sint_u32_of_int [of "?k * 7"] unfolding e by simp
qed

text \<open>
  The weekday of a day, with its number in the month, gives the day back.
\<close>

lemma ymw_to_days_from_days:
  assumes "day_range n" and "day_range (n - 31)"
  shows "ymw_to_days (ymw_from_days n) = n"
proof -
  define x where "x = from_days n"
  define D where "D = uint (day_rep (ymd_day x))"
  have ok: "ymd_ok x" unfolding x_def by (rule from_days_ok [OF assms(1)])
  have D: "1 \<le> D" "D \<le> 31"
    using ymd_ok_valid [OF ok] month_length_bounds(2) [of "year_int (ymd_year x)" "uint (month_rep (ymd_month x))"]
    by (auto simp: D_def valid_date_def ymd_ints_def)
  let ?ix = "(day_unsigned (ymd_day x) - 1) div 7 + 1"
  let ?d = "to_days (ym_slash_int (year_slash_month (ymd_year x) (ymd_month x)) 1)"
  note ix = day_index_word [of "ymd_day x", folded D_def, OF D]
  have d: "?d = n - (D - 1)"
    using first_of_month [OF ok] to_days_from_days [OF assms(1)] by (simp add: x_def D_def)
  have rd: "day_range ?d" using assms D by (auto simp: d day_range_def)
  have wi: "wdi_weekday (weekday_index (weekday_sys n) ?ix) = weekday_sys n"
    "wdi_index (weekday_index (weekday_sys n) ?ix) = ?ix"
    using wdi_of_index [of "weekday_sys n" ?ix] ix(1) D weekday_sys_mod [OF assms(1)]
    by (auto simp: zdiv_mono1)
  have "ymw_to_days (ymw_from_days n) =
      ?d + (weekday_diff (weekday_sys n) (weekday_sys ?d) + sint ((?ix - 1) * 7))"
    unfolding ymw_to_days_def ymw_from_days_def Let_def year_month_weekday_ctor_def
      year_month_weekday.sel year_month_day_sys_def x_def [symmetric] ymd_sys_days_def wi ..
  also have "weekday_diff (weekday_sys n) (weekday_sys ?d) = ((n + 4) mod 7 - (?d + 4) mod 7) mod 7"
    by (simp only: weekday_diff_mod weekday_sys_mod [OF assms(1)] weekday_sys_mod [OF rd])
  also have "\<dots> = (D - 1) mod 7" by (simp add: mod_diff_eq d)
  also have "?d + ((D - 1) mod 7 + sint ((?ix - 1) * 7)) = n"
    unfolding ix(2) d by simp
  finally show ?thesis .
qed

text \<open>The last weekday of a month: the weekday asked for, in the last seven days.\<close>

lemma last_of_month_days:
  assumes "ymwl_ok x"
  defines "l \<equiv> ymdl_sys_days (ym_slash_last (year_slash_month (ymwl_year x) (ymwl_month x)) ())"
  assumes "day_range l" and "day_range (l - 7)"
  shows "l - 7 < ymwl_to_days x" and "ymwl_to_days x \<le> l"
    and "weekday_sys (ymwl_to_days x) = ymwl_weekday x"
proof -
  let ?w = "wdl_wd (ymwl_wdl x)"
  have w: "uint (wd_rep ?w) \<le> 6" using assms(1) by (simp add: ymwl_ok_def weekday_last_ok_def ok_iff)
  have e: "ymwl_to_days x = l - ((l + 4) mod 7 - uint (wd_rep ?w)) mod 7"
    unfolding ymwl_to_days_def Let_def l_def [symmetric] weekday_diff_mod
    by (simp only: weekday_sys_mod [OF assms(3)])
  let ?k = "((l + 4) mod 7 - uint (wd_rep ?w)) mod 7"
  have k: "0 \<le> ?k" "?k < 7" by auto
  then show "l - 7 < ymwl_to_days x" "ymwl_to_days x \<le> l" unfolding e by linarith+
  have r: "day_range (ymwl_to_days x)"
    using k assms(3,4) unfolding e day_range_def by linarith
  have "uint (wd_rep (weekday_sys (ymwl_to_days x))) = (l - ?k + 4) mod 7"
    unfolding weekday_sys_mod [OF r] unfolding e ..
  also have "\<dots> = (l + 4 - ((l + 4) - uint (wd_rep ?w))) mod 7"
    by (simp add: mod_simps algebra_simps)
  also have "\<dots> = uint (wd_rep ?w)" using w by simp
  finally show "weekday_sys (ymwl_to_days x) = ymwl_weekday x"
    by (simp only: wd_rep_inject ymwl_weekday_def)
qed

end
