(* ===== verification/CalText.thy ===== *)
theory CalText
  imports CalWeek
begin

text \<open>
  The calendar library, fifth part: the stream output of the calendar classes. A function
  yields the characters its \<open>operator<<\<close> inserts into a stream in the classic locale, whose
  month and weekday names are the ones the library lists for the case that it has no other.
\<close>

section \<open>Stream formatting\<close>

text \<open>Field width with a fill character, adjusted to the right or after the sign.\<close>

definition os_right :: "char \<Rightarrow> nat \<Rightarrow> string \<Rightarrow> string" where
  "os_right fill w s = replicate (w - length s) fill @ s"

definition os_internal :: "char \<Rightarrow> nat \<Rightarrow> string \<Rightarrow> string" where
  "os_internal fill w s = (case s of
      c # cs \<Rightarrow> if c = CHR ''-'' then c # replicate (w - length s) fill @ cs else os_right fill w s
    | [] \<Rightarrow> os_right fill w s)"

definition note_invalid :: "bool \<Rightarrow> string \<Rightarrow> string" where
  "note_invalid ok what = (if ok then [] else '' is not a valid '' @ what)"

definition weekday_names :: "string list" where
  "weekday_names = [''Sunday'', ''Monday'', ''Tuesday'', ''Wednesday'', ''Thursday'', ''Friday'',
     ''Saturday'', ''Sun'', ''Mon'', ''Tue'', ''Wed'', ''Thu'', ''Fri'', ''Sat'']"

definition month_names :: "string list" where
  "month_names = [''January'', ''February'', ''March'', ''April'', ''May'', ''June'', ''July'',
     ''August'', ''September'', ''October'', ''November'', ''December'', ''Jan'', ''Feb'', ''Mar'',
     ''Apr'', ''May'', ''Jun'', ''Jul'', ''Aug'', ''Sep'', ''Oct'', ''Nov'', ''Dec'']"

section \<open>Basic fields\<close>

definition day_fmt :: "day \<Rightarrow> string" where
  "day_fmt d = os_right (CHR ''0'') 2 (to_string (uint (day_unsigned d)))"

definition day_text :: "day \<Rightarrow> string" where
  "day_text x = day_fmt x @
     note_invalid (day_ok x) ''day''"

definition month_fmt :: "month \<Rightarrow> string" where
  "month_fmt m = (if month_ok m then month_names ! (11 + unat (month_unsigned m))
     else to_string (uint (month_unsigned m)))"

definition month_text :: "month \<Rightarrow> string" where
  "month_text x = month_fmt x @
     note_invalid (month_ok x) ''month''"

definition year_fmt :: "year \<Rightarrow> string" where
  "year_fmt y = os_internal (CHR ''0'') (4 + of_bool (year_lt y (year_ctor 0))) (to_string (year_int y))"

definition year_text :: "year \<Rightarrow> string" where
  "year_text x = year_fmt x @
     note_invalid (year_ok x) ''year''"

definition weekday_fmt :: "weekday \<Rightarrow> string" where
  "weekday_fmt wd = (if weekday_ok wd then weekday_names ! (7 + unat (c_encoding wd))
     else to_string (uint (c_encoding wd)))"

definition weekday_text :: "weekday \<Rightarrow> string" where
  "weekday_text x = weekday_fmt x @
     note_invalid (weekday_ok x) ''weekday''"

section \<open>Partial dates\<close>

definition weekday_indexed_fmt :: "weekday_indexed \<Rightarrow> string" where
  "weekday_indexed_fmt wdi = weekday_fmt (wdi_weekday wdi) @ ''['' @
     to_string (uint (wdi_index wdi)) @ '']''"

definition weekday_indexed_text :: "weekday_indexed \<Rightarrow> string" where
  "weekday_indexed_text x = weekday_indexed_fmt x @
     note_invalid (weekday_indexed_ok x) ''weekday_indexed''"

definition weekday_last_fmt :: "weekday_last \<Rightarrow> string" where
  "weekday_last_fmt wdl = weekday_fmt (wdl_wd wdl) @ ''[last]''"

definition weekday_last_text :: "weekday_last \<Rightarrow> string" where
  "weekday_last_text x = weekday_last_fmt x @
     note_invalid (weekday_last_ok x) ''weekday_last''"

definition year_month_fmt :: "year_month \<Rightarrow> string" where
  "year_month_fmt ym = year_fmt (ym_year ym) @ ''/'' @ month_fmt (ym_month ym)"

definition year_month_text :: "year_month \<Rightarrow> string" where
  "year_month_text x = year_month_fmt x @
     note_invalid (year_month_ok x) ''year_month''"

definition month_day_fmt :: "month_day \<Rightarrow> string" where
  "month_day_fmt md = month_fmt (md_month md) @ ''/'' @ day_fmt (md_day md)"

definition month_day_text :: "month_day \<Rightarrow> string" where
  "month_day_text x = month_day_fmt x @
     note_invalid (month_day_ok x) ''month_day''"

definition month_day_last_fmt :: "month_day_last \<Rightarrow> string" where
  "month_day_last_fmt mdl = month_fmt (mdl_month mdl) @ ''/last''"

definition month_day_last_text :: "month_day_last \<Rightarrow> string" where
  "month_day_last_text x = month_day_last_fmt x @
     note_invalid (month_day_last_ok x) ''month_day_last''"

definition month_weekday_fmt :: "month_weekday \<Rightarrow> string" where
  "month_weekday_fmt mwd = month_fmt (mw_month mwd) @ ''/'' @ weekday_indexed_fmt (mw_wdi mwd)"

definition month_weekday_text :: "month_weekday \<Rightarrow> string" where
  "month_weekday_text x = month_weekday_fmt x @
     note_invalid (month_weekday_ok x) ''month_weekday''"

definition month_weekday_last_fmt :: "month_weekday_last \<Rightarrow> string" where
  "month_weekday_last_fmt mwdl = month_fmt (mwl_month mwdl) @ ''/'' @ weekday_last_fmt (mwl_wdl mwdl)"

definition month_weekday_last_text :: "month_weekday_last \<Rightarrow> string" where
  "month_weekday_last_text x = month_weekday_last_fmt x @
     note_invalid (month_weekday_last_ok x) ''month_weekday_last''"

section \<open>Dates\<close>

definition ymdl_fmt :: "year_month_day_last \<Rightarrow> string" where
  "ymdl_fmt ymdl = year_fmt (ymdl_year ymdl) @ ''/'' @ month_day_last_fmt (ymdl_mdl ymdl)"

definition ymdl_text :: "year_month_day_last \<Rightarrow> string" where
  "ymdl_text x = ymdl_fmt x @
     note_invalid (ymdl_ok x) ''year_month_day_last''"

definition ymd_text :: "year_month_day \<Rightarrow> string" where
  "ymd_text x = to_string (year_int (ymd_year x)) @ ''-'' @
     os_right (CHR ''0'') 2 (to_string (uint (month_unsigned (ymd_month x)))) @ ''-'' @
     os_right (CHR ''0'') 2 (to_string (uint (day_unsigned (ymd_day x)))) @
     note_invalid (ymd_ok x) ''year_month_day''"

definition ymw_text :: "year_month_weekday \<Rightarrow> string" where
  "ymw_text x = year_fmt (ymw_year x) @ ''/'' @ month_fmt (ymw_month x) @ ''/'' @
     weekday_indexed_fmt (ymw_wdi x) @
     note_invalid (ymw_ok x) ''year_month_weekday''"

definition ymwl_text :: "year_month_weekday_last \<Rightarrow> string" where
  "ymwl_text x = year_fmt (ymwl_year x) @ ''/'' @ month_fmt (ymwl_month x) @ ''/'' @
     weekday_last_fmt (ymwl_wdl x) @
     note_invalid (ymwl_ok x) ''year_month_weekday_last''"
section \<open>Reading a date back\<close>

lemma os_right_digits: "w \<le> length s \<or> fill = CHR ''0'' \<Longrightarrow> digits_val (os_right fill w s) = digits_val s"
proof -
  have z: "foldl (\<lambda>n c. 10 * n + digit_val c) 0 (replicate k (CHR ''0'') @ s) = digits_val s" for k
    by (induction k) (auto simp: digits_val_def digit_val_def)
  assume "w \<le> length s \<or> fill = CHR ''0''"
  then show ?thesis
    unfolding os_right_def by (metis append_Nil diff_is_0_eq digits_val_def replicate_0 z)
qed

lemma os_right_length: "length s \<le> w \<Longrightarrow> length (os_right fill w s) = w"
  by (simp add: os_right_def)

lemma os_right_set: "set (os_right fill w s) \<subseteq> insert fill (set s)"
  by (auto simp: os_right_def)

lemma to_string_pos_digits: "0 \<le> i \<Longrightarrow> \<forall>c \<in> set (to_string i). is_digit c"
  by (simp add: to_string_def nat_to_string_digits)

lemma digits_val_to_string: "0 \<le> i \<Longrightarrow> digits_val (to_string i) = nat i"
  by (simp add: to_string_def)

text \<open>Up to two digits are printed as exactly two, and mean the same number.\<close>

lemma two_digits:
  assumes "0 \<le> i" and "i < 100"
  shows "length (os_right (CHR ''0'') 2 (to_string i)) = 2"
    and "digits_val (os_right (CHR ''0'') 2 (to_string i)) = nat i"
  using assms length_nat_to_string_le [of "nat i" 2]
  by (simp_all add: os_right_length os_right_digits digits_val_to_string to_string_def)

lemma ymd_text_ok:
  assumes "ymd_ok x"
  shows "ymd_text x = to_string (year_int (ymd_year x)) @ ''-'' @
    os_right (CHR ''0'') 2 (to_string (uint (month_rep (ymd_month x)))) @ ''-'' @
    os_right (CHR ''0'') 2 (to_string (uint (day_rep (ymd_day x))))"
  using assms by (simp add: ymd_text_def note_invalid_def)

end
