(* ===== verification/TimeOfDay.thy ===== *)
theory TimeOfDay
  imports CalText
begin

text \<open>
  The calendar library, sixth part: durations. \<open>floor\<close> of a duration, \<open>hh_mm_ss\<close> (a duration
  split into hours, minutes, seconds and a decimal fraction), the twelve-hour clock, and the
  output of points in time. A duration is a number of ticks, \<open>den\<close> of them to the second: the
  type parameter \<open>Duration\<close> for periods that divide the second.
\<close>

section \<open>Rounding\<close>

text \<open>\<open>trunc\<close> and \<open>floor\<close> to a unit of \<open>n\<close> ticks.\<close>

definition duration_trunc :: "int \<Rightarrow> int \<Rightarrow> int" where
  "duration_trunc n d = c_div d n"

definition duration_floor :: "int \<Rightarrow> int \<Rightarrow> int" where
  "duration_floor n d =
     (let t = duration_trunc n d in if t * n > d then t - 1 else t)"

definition duration_ceil :: "int \<Rightarrow> int \<Rightarrow> int" where
  "duration_ceil n d =
     (let t = duration_trunc n d in if t * n < d then t + 1 else t)"

text \<open>To the nearest, to the even one in the middle.\<close>

definition duration_round :: "int \<Rightarrow> int \<Rightarrow> int" where
  "duration_round n d =
     (let t0 = duration_floor n d;
          t1 = t0 + 1;
          diff0 = d - t0 * n;
          diff1 = t1 * n - d
      in if diff0 = diff1 then (if t0 - c_div t0 2 * 2 = 0 then t0 else t1)
         else if diff0 < diff1 then t0 else t1)"

definition duration_abs :: "int \<Rightarrow> int" where
  "duration_abs d = (if d \<ge> 0 then d else - d)"

section \<open>Decimal fractions of a second\<close>

text \<open>\<open>width<n, d>\<close>: the number of decimal digits of the fraction \<open>n / d\<close>, at most 19.\<close>

function frac_width :: "nat \<Rightarrow> nat \<Rightarrow> nat \<Rightarrow> nat" where
  "frac_width n d w =
     (if n mod d \<noteq> 0 \<and> w < 19 then 1 + frac_width (n mod d * 10) d (w + 1) else 0)"
  by pat_completeness auto
termination
  by (relation "measure (\<lambda>(n, d, w). 19 - w)") auto

declare frac_width.simps [simp del]

function static_pow10 :: "nat \<Rightarrow> int" where
  "static_pow10 e =
     (if e = 0 then 1
      else let h = static_pow10 (e div 2) in h * h * (if e mod 2 \<noteq> 0 then 10 else 1))"
  by pat_completeness auto
termination
  by (relation "measure id") auto

declare static_pow10.simps [simp del]

record decimal_format_seconds =
  dfs_s :: int
  dfs_sub_s :: int

definition dfs_width :: "int \<Rightarrow> nat" where
  "dfs_width den =
     (let trial_width = frac_width 1 (nat den) 0 in if trial_width < 19 then trial_width else 6)"

definition dfs_precision :: "int \<Rightarrow> int" where
  "dfs_precision den = static_pow10 (dfs_width den)"

definition dfs_ctor :: "int \<Rightarrow> int \<Rightarrow> decimal_format_seconds" where
  "dfs_ctor den d =
     (let s = c_div d den
      in \<lparr>dfs_s = s, dfs_sub_s = c_div ((d - s * den) * dfs_precision den) den\<rparr>)"

definition dfs_to_duration :: "int \<Rightarrow> decimal_format_seconds \<Rightarrow> int" where
  "dfs_to_duration den x = dfs_s x * dfs_precision den + dfs_sub_s x"

definition dfs_in_conventional_range :: "int \<Rightarrow> decimal_format_seconds \<Rightarrow> bool" where
  "dfs_in_conventional_range den x \<longleftrightarrow> dfs_sub_s x < dfs_precision den \<and> dfs_s x < 60"

definition dfs_print :: "int \<Rightarrow> decimal_format_seconds \<Rightarrow> string" where
  "dfs_print den x = os_right (CHR ''0'') 2 (to_string (dfs_s x)) @
     (if dfs_width den > 0
      then ''.'' @ os_right (CHR ''0'') (dfs_width den) (to_string (dfs_sub_s x)) else [])"

section \<open>Hours, minutes, seconds\<close>

record hh_mm_ss =
  tod_h :: int
  tod_m :: int
  tod_s :: decimal_format_seconds
  tod_neg :: bool

definition hh_mm_ss_ctor :: "int \<Rightarrow> int \<Rightarrow> hh_mm_ss" where
  "hh_mm_ss_ctor den d =
     (let a = duration_abs d;
          h = c_div a (3600 * den);
          m = c_div a (60 * den) - h * 60
      in \<lparr>tod_h = h, tod_m = m,
          tod_s = dfs_ctor den (a - h * (3600 * den) - m * (60 * den)),
          tod_neg = (d < 0)\<rparr>)"

definition hours :: "hh_mm_ss \<Rightarrow> int" where
  "hours x = tod_h x"

definition minutes :: "hh_mm_ss \<Rightarrow> int" where
  "minutes x = tod_m x"

definition seconds :: "hh_mm_ss \<Rightarrow> int" where
  "seconds x = dfs_s (tod_s x)"

definition subseconds :: "hh_mm_ss \<Rightarrow> int" where
  "subseconds x = dfs_sub_s (tod_s x)"

definition is_negative :: "hh_mm_ss \<Rightarrow> bool" where
  "is_negative x = tod_neg x"

definition to_duration :: "int \<Rightarrow> hh_mm_ss \<Rightarrow> int" where
  "to_duration den x =
     (dfs_to_duration den (tod_s x) + tod_m x * (60 * dfs_precision den)
        + tod_h x * (3600 * dfs_precision den)) * (1 - 2 * of_bool (tod_neg x))"

definition in_conventional_range :: "int \<Rightarrow> hh_mm_ss \<Rightarrow> bool" where
  "in_conventional_range den x \<longleftrightarrow> \<not> tod_neg x \<and> tod_h x < 24 \<and> tod_m x < 60 \<and>
     dfs_in_conventional_range den (tod_s x)"

definition hh_mm_ss_text :: "int \<Rightarrow> hh_mm_ss \<Rightarrow> string" where
  "hh_mm_ss_text den tod =
     (if is_negative tod then ''-'' else []) @
     (if tod_h tod < 10 then ''0'' else []) @ to_string (tod_h tod) @ '':'' @
     (if tod_m tod < 10 then ''0'' else []) @ to_string (tod_m tod) @ '':'' @
     dfs_print den (tod_s tod)"

definition make_time :: "int \<Rightarrow> int \<Rightarrow> hh_mm_ss" where
  "make_time den d = hh_mm_ss_ctor den d"

section \<open>The twelve-hour clock\<close>

definition is_am :: "int \<Rightarrow> bool" where
  "is_am h \<longleftrightarrow> 0 \<le> h \<and> h < 12"

definition is_pm :: "int \<Rightarrow> bool" where
  "is_pm h \<longleftrightarrow> 12 \<le> h \<and> h < 24"

definition make12 :: "int \<Rightarrow> int" where
  "make12 h = (if h < 12 then (if h = 0 then 12 else h) else (if h \<noteq> 12 then h - 12 else h))"

definition make24 :: "int \<Rightarrow> bool \<Rightarrow> int" where
  "make24 h pm = (if pm then (if h \<noteq> 12 then h + 12 else h) else if h = 12 then 0 else h)"

section \<open>Points in time\<close>

definition sys_time_text :: "int \<Rightarrow> int \<Rightarrow> string" where
  "sys_time_text den tp =
     (let dp = duration_floor (86400 * den) tp
      in ymd_text (year_month_day_sys dp) @ '' '' @
         hh_mm_ss_text den (make_time den (tp - dp * (86400 * den))))"

definition sys_days_text :: "days \<Rightarrow> string" where
  "sys_days_text dp = ymd_text (year_month_day_sys dp)"

definition local_time_text :: "int \<Rightarrow> int \<Rightarrow> string" where
  "local_time_text den ut = sys_time_text den ut"

section \<open>Facts\<close>

lemma duration_floor_div:
  assumes "0 < n"
  shows "duration_floor n d = d div n"
proof (cases "0 \<le> d")
  case True
  have "d div n * n \<le> d"
    using minus_mod_eq_div_mult [of d n] pos_mod_sign [OF assms, of d] by linarith
  then show ?thesis
    using True assms by (simp add: duration_floor_def duration_trunc_def c_div_nonneg)
next
  case False
  let ?t = "- (- d div n)"
  have t: "c_div d n = ?t" using False assms by (simp add: c_div_neg)
  have "d div n * n \<le> d" "d < d div n * n + n"
    using assms by (simp_all add: minus_mod_eq_div_mult [symmetric])
  moreover have "- d < (- d div n) * n + n" "(- d div n) * n \<le> - d"
    using assms by (simp_all add: minus_mod_eq_div_mult [symmetric])
  ultimately have b: "d div n * n \<le> d" "d < d div n * n + n" "d \<le> ?t * n" "?t * n - n < d"
    by simp_all
  show ?thesis
  proof (cases "?t * n > d")
    case True
    with b have "(?t - 1) * n < d" "d < (?t - 1) * n + n" by (auto simp: algebra_simps)
    then have "d div n = ?t - 1"
      by (intro int_div_pos_eq [of _ _ _ "d - (?t - 1) * n"]) (auto simp: algebra_simps)
    with True t show ?thesis by (simp add: duration_floor_def duration_trunc_def)
  next
    case False
    with b have "d = ?t * n" by simp
    then have "d div n = ?t" using assms by (metis nonzero_mult_div_cancel_right less_irrefl)
    with False t show ?thesis by (simp add: duration_floor_def duration_trunc_def)
  qed
qed

lemma static_pow10_power: "static_pow10 e = 10 ^ e"
proof (induction e rule: static_pow10.induct)
  case (1 e)
  show ?case
  proof (cases "e = 0")
    case False
    have e: "e = e div 2 + e div 2 + e mod 2" by presburger
    from 1 False have "static_pow10 e =
        10 ^ (e div 2) * 10 ^ (e div 2) * (if e mod 2 \<noteq> 0 then 10 else 1)"
      by (subst static_pow10.simps) (simp add: Let_def)
    also have "\<dots> = 10 ^ e"
      by (subst (3) e) (simp add: power_add mod_2_eq_odd)
    finally show ?thesis .
  qed (simp add: static_pow10.simps)
qed

text \<open>Ticks of a power of ten have that many digits, and no tick is lost.\<close>

lemma frac_width_pow10: "j \<le> k \<Longrightarrow> w + j \<le> 19 \<Longrightarrow> frac_width (10 ^ (k - j)) (10 ^ k) w = j"
proof (induction j arbitrary: w)
  case 0
  then show ?case by (simp add: frac_width.simps)
next
  case (Suc j)
  have less: "(10 :: nat) ^ (k - Suc j) < 10 ^ k"
    using Suc.prems by (intro power_strict_increasing) auto
  have "10 ^ (k - Suc j) * 10 = (10 :: nat) ^ (k - j)"
    using Suc.prems by (metis Suc_diff_Suc Suc_le_lessD mult.commute power_Suc)
  with Suc less show ?case by (subst frac_width.simps) simp
qed

lemma dfs_pow10:
  assumes "k \<le> 18"
  shows "dfs_width (10 ^ k) = k" and "dfs_precision (10 ^ k) = 10 ^ k"
proof -
  have "frac_width 1 (10 ^ k) 0 = k" using frac_width_pow10 [of k k 0] assms by simp
  then show "dfs_width (10 ^ k) = k" using assms by (simp add: dfs_width_def nat_power_eq)
  then show "dfs_precision (10 ^ k) = 10 ^ k" by (simp add: dfs_precision_def static_pow10_power)
qed

text \<open>
  The fields of a duration. With a power of ten of ticks to the second nothing is lost.
\<close>

lemma hh_mm_ss_fields:
  fixes d :: int and k :: nat
  assumes "k \<le> 18"
  defines "den \<equiv> 10 ^ k" and "a \<equiv> \<bar>d\<bar>"
  shows "tod_h (hh_mm_ss_ctor den d) = a div (3600 * den)"
    and "tod_m (hh_mm_ss_ctor den d) = a div (60 * den) mod 60"
    and "dfs_s (tod_s (hh_mm_ss_ctor den d)) = a div den mod 60"
    and "dfs_sub_s (tod_s (hh_mm_ss_ctor den d)) = a mod den"
    and "tod_neg (hh_mm_ss_ctor den d) \<longleftrightarrow> d < 0"
proof -
  have den: "0 < den" by (simp add: den_def)
  have prec: "dfs_precision den = den" using dfs_pow10(2) [OF assms(1)] by (simp add: den_def)
  have a: "duration_abs d = a" "0 \<le> a" by (simp_all add: duration_abs_def a_def)
  let ?h = "a div (3600 * den)" and ?mm = "a div (60 * den)" and ?ss = "a div den"
  have h: "c_div a (3600 * den) = ?h" and mm: "c_div a (60 * den) = ?mm"
    using den a by (simp_all add: c_div_nonneg)
  have hm: "?h = ?mm div 60" and ms: "?mm = ?ss div 60"
    by (simp_all add: zdiv_zmult2_eq [symmetric] mult.commute)
  have m: "?mm - ?h * 60 = ?mm mod 60" unfolding hm by (rule minus_div_mult_eq_mod)
  let ?r = "a - ?h * (3600 * den) - ?mm mod 60 * (60 * den)"
  have "?h * 3600 + ?mm mod 60 * 60 = ?mm * 60"
    using div_mult_mod_eq [of ?mm 60] hm by linarith
  then have "?h * (3600 * den) + ?mm mod 60 * (60 * den) = ?mm * 60 * den"
    by (metis (no_types) mult.assoc distrib_right)
  then have r: "?r = a - ?mm * 60 * den" by linarith
  also have "\<dots> = a mod den + ?ss mod 60 * den"
  proof -
    have "?ss = ?mm * 60 + ?ss mod 60" unfolding ms by simp
    then have "?ss * den = ?mm * 60 * den + ?ss mod 60 * den"
      by (metis (no_types) distrib_right)
    with div_mult_mod_eq [of a den] show ?thesis by linarith
  qed
  finally have r: "?r = ?ss mod 60 * den + a mod den" by simp
  have "0 \<le> ?r" using r den by simp
  moreover have "?r div den = ?ss mod 60" unfolding r using den by simp
  ultimately have s: "c_div ?r den = ?ss mod 60" using den by (simp add: c_div_nonneg)
  have sub: "c_div ((?r - ?ss mod 60 * den) * den) den = a mod den"
    unfolding r using den by (simp add: c_div_nonneg)
  show "tod_h (hh_mm_ss_ctor den d) = ?h" "tod_m (hh_mm_ss_ctor den d) = ?mm mod 60"
    "dfs_s (tod_s (hh_mm_ss_ctor den d)) = ?ss mod 60"
    "dfs_sub_s (tod_s (hh_mm_ss_ctor den d)) = a mod den"
    "tod_neg (hh_mm_ss_ctor den d) \<longleftrightarrow> d < 0"
    by (simp_all add: hh_mm_ss_ctor_def dfs_ctor_def Let_def a h mm m s prec sub)
qed

lemma hh_mm_ss_to_duration:
  assumes "k \<le> 18"
  shows "to_duration (10 ^ k) (hh_mm_ss_ctor (10 ^ k) d) = d"
proof -
  define den :: int where "den = 10 ^ k"
  let ?a = "\<bar>d\<bar>"
  note f = hh_mm_ss_fields [OF assms, of d, folded den_def]
  have prec: "dfs_precision den = den" using dfs_pow10(2) [OF assms] by (simp add: den_def)
  have h: "?a div (3600 * den) = ?a div (60 * den) div 60" and m: "?a div (60 * den) = ?a div den div 60"
    by (simp_all add: zdiv_zmult2_eq [symmetric] mult.commute)
  have "?a div den mod 60 + ?a div (60 * den) mod 60 * 60 + ?a div (3600 * den) * 3600 = ?a div den"
    using div_mult_mod_eq [of "?a div den" 60] div_mult_mod_eq [of "?a div (60 * den)" 60]
    unfolding h m by linarith
  then have "(?a div den mod 60 + ?a div (60 * den) mod 60 * 60 + ?a div (3600 * den) * 3600) * den
      + ?a mod den = ?a" by simp
  then have "?a div den mod 60 * den + ?a mod den + ?a div (60 * den) mod 60 * (60 * den) +
      ?a div (3600 * den) * (3600 * den) = ?a" by (simp add: algebra_simps)
  then have "to_duration den (hh_mm_ss_ctor den d) = ?a * (1 - 2 * of_bool (d < 0))"
    by (simp add: to_duration_def dfs_to_duration_def f prec)
  then show ?thesis by (simp add: den_def)
qed

lemma make24_make12: "0 \<le> h \<Longrightarrow> h < 24 \<Longrightarrow> make24 (make12 h) (is_pm h) = h"
  by (simp add: make24_def make12_def is_pm_def)

end
