(* ===== verification/StringUtils.thy ===== *)
theory StringUtils
  imports Prelude "HOL-Library.Sublist"
begin

text \<open>
  The string helpers of \<open>utils/vp_utils.h\<close>: formatting, suffix test, splitting, padding,
  rounding. \<open>snprintf\<close> and the arithmetic on \<open>double\<close> are parameters.
\<close>

section \<open>Definitions\<close>

text \<open>
  \<open>string_format\<close>: the first \<open>snprintf\<close> measures, the second one prints into a buffer of that
  size, and \<open>std::string(bytes)\<close> reads it up to the first NUL.
\<close>

definition string_format :: "(string \<Rightarrow> 'args \<Rightarrow> string) \<Rightarrow> string \<Rightarrow> 'args \<Rightarrow> string" where
  "string_format snprintf format args =
     (let size = 1 + length (snprintf format args);
          bytes = take (size - 1) (snprintf format args) @ [CHR 0x00]
      in takeWhile (\<lambda>c. c \<noteq> CHR 0x00) bytes)"

text \<open>\<open>std::equal\<close> on a range and the start of another one that is long enough.\<close>

fun std_equal :: "'a list \<Rightarrow> 'a list \<Rightarrow> bool" where
  "std_equal [] ys = True"
| "std_equal (x # xs) (y # ys) = (x = y \<and> std_equal xs ys)"
| "std_equal (x # xs) [] = False"

definition ends_with :: "string \<Rightarrow> string \<Rightarrow> bool" where
  "ends_with value ending =
     (if length ending > length value then False else std_equal (rev ending) (rev value))"

text \<open>
  \<open>std::getline\<close>: the characters before the delimiter, which is taken out as well, the rest,
  and whether the end of the stream was reached instead.
\<close>

fun getline :: "char \<Rightarrow> string \<Rightarrow> string \<times> string \<times> bool" where
  "getline delimiter [] = ([], [], True)"
| "getline delimiter (c # cs) =
     (if c = delimiter then ([], cs, False)
      else case getline delimiter cs of (token, rest, eof) \<Rightarrow> (c # token, rest, eof))"

lemma getline_rest: "getline d s = (token, rest, eof) \<Longrightarrow> s \<noteq> [] \<Longrightarrow> length rest < length s"
  by (induction s arbitrary: token rest eof) (fastforce split: if_splits prod.splits)+

text \<open>
  The loop of \<open>string_split\<close>: \<open>getline\<close> fails when there is nothing left to read, which is
  also the state after it has met the end of the stream.
\<close>

function string_split :: "string \<Rightarrow> char \<Rightarrow> string list" where
  "string_split s delimiter =
     (if s = [] then []
      else case getline delimiter s of (token, rest, eof) \<Rightarrow>
        token # (if eof then [] else string_split rest delimiter))"
  by pat_completeness auto
termination
  by (relation "measure (\<lambda>(s, d). length s)") (auto dest: getline_rest [OF sym])

declare string_split.simps [simp del]

text \<open>
  The loop of \<open>set_width_and_fill\<close> compares a \<open>size_t\<close> with the \<open>int\<close> \<open>width\<close>, which is
  converted: a negative width is a huge one.
\<close>

function set_width_and_fill :: "string \<Rightarrow> int \<Rightarrow> char \<Rightarrow> bool \<Rightarrow> string" where
  "set_width_and_fill str width fill fill_left =
     (if length str < size_t_of_int width
      then set_width_and_fill (if fill_left then fill # str else str @ [fill]) width fill fill_left
      else str)"
  by pat_completeness auto
termination
  by (relation "measure (\<lambda>(str, width, fill, left). size_t_of_int width - length str)") auto

declare set_width_and_fill.simps [simp del]

text \<open>The \<open>double\<close> operations \<open>round_any\<close> uses.\<close>

record 'd double_ops =
  d_pow10 :: "int \<Rightarrow> 'd"
  d_mul :: "'d \<Rightarrow> 'd \<Rightarrow> 'd"
  d_add_half :: "'d \<Rightarrow> 'd"
  d_floor :: "'d \<Rightarrow> 'd"
  d_div :: "'d \<Rightarrow> 'd \<Rightarrow> 'd"
  d_to_string :: "'d \<Rightarrow> string"

definition trim_number :: "string \<Rightarrow> string" where
  "trim_number output =
     (let erased = rev (dropWhile (\<lambda>c. c = CHR ''0'') (rev output))
      in if ends_with erased ''.'' then butlast erased else erased)"

definition round_any :: "'d double_ops \<Rightarrow> 'd \<Rightarrow> int \<Rightarrow> string" where
  "round_any dbl input precision =
     (let scaled = d_add_half dbl (d_mul dbl input (d_pow10 dbl precision))
      in trim_number (d_to_string dbl
           (d_div dbl (d_floor dbl scaled) (d_pow10 dbl precision))))"

section \<open>Facts\<close>

lemma std_equal_prefix: "std_equal xs ys \<longleftrightarrow> prefix xs ys"
  by (induction xs ys rule: std_equal.induct) auto

lemma ends_with_suffix: "ends_with value ending \<longleftrightarrow> suffix ending value"
  by (auto simp: ends_with_def std_equal_prefix suffix_to_prefix dest: prefix_length_le)

lemma getline_eof: "getline d s = (token, rest, True) \<Longrightarrow> s = token \<and> d \<notin> set token"
  by (induction s arbitrary: token) (auto split: if_splits prod.splits)

lemma getline_delim:
  "getline d s = (token, rest, False) \<Longrightarrow> s = token @ d # rest \<and> d \<notin> set token"
  by (induction s arbitrary: token) (auto split: if_splits prod.splits)

lemma getline_token [simp]: "d \<notin> set t \<Longrightarrow> getline d (t @ d # rest) = (t, rest, False)"
  by (induction t) auto

lemma getline_last [simp]: "d \<notin> set t \<Longrightarrow> getline d t = (t, [], True)"
  by (induction t) auto

text \<open>Joining with the delimiter; a delimiter at the very end leaves no token behind.\<close>

fun join :: "char \<Rightarrow> string list \<Rightarrow> string" where
  "join d [] = []"
| "join d [t] = t"
| "join d (t # ts) = t @ d # join d ts"

lemma join_Cons: "ts \<noteq> [] \<Longrightarrow> join d (t # ts) = t @ d # join d ts"
  by (cases ts) auto

lemma string_split_Nil_iff [simp]: "string_split s d = [] \<longleftrightarrow> s = []"
  by (subst string_split.simps) (auto split: prod.split)

lemma string_split_tokens: "t \<in> set (string_split s d) \<Longrightarrow> d \<notin> set t"
proof (induction s d rule: string_split.induct)
  case (1 s d)
  obtain token rest eof where g: "getline d s = (token, rest, eof)" by (metis prod_cases3)
  have "d \<notin> set token" using g by (cases eof) (auto dest: getline_eof getline_delim)
  with 1 g show ?case
    by (subst (asm) string_split.simps) (auto split: if_splits)
qed

lemma string_split_join:
  "join d (string_split s d) @ (if s \<noteq> [] \<and> last s = d then [d] else []) = s"
proof (induction s d rule: string_split.induct)
  case (1 s d)
  show ?case
  proof (cases "s = []")
    case True
    then show ?thesis by (simp add: string_split.simps)
  next
    case False
    obtain token rest eof where g: "getline d s = (token, rest, eof)" by (metis prod_cases3)
    show ?thesis
    proof (cases eof)
      case True
      with g have s: "s = token" "d \<notin> set token" by (auto dest: getline_eof)
      have "string_split s d = [token]" using g True False by (subst string_split.simps) simp
      moreover have "last s \<noteq> d" using s False last_in_set by metis
      ultimately show ?thesis using s by simp
    next
      case e: False
      with g have s: "s = token @ d # rest" by (auto dest: getline_delim)
      have IH: "join d (string_split rest d) @ (if rest \<noteq> [] \<and> last rest = d then [d] else []) = rest"
        using 1 False g e by auto
      have sp: "string_split s d = token # string_split rest d"
        using g e False by (subst string_split.simps) simp
      show ?thesis
      proof (cases "rest = []")
        case True
        then have "string_split rest d = []" by simp
        with sp have "string_split s d = [token]" by metis
        with s True show ?thesis by simp
      next
        case ne: False
        then have "string_split rest d \<noteq> []" by simp
        with sp have "join d (string_split s d) = token @ d # join d (string_split rest d)"
          by (simp add: join_Cons)
        with IH s ne show ?thesis by simp
      qed
    qed
  qed
qed

lemma join_string_split:
  "ts \<noteq> [] \<Longrightarrow> last ts \<noteq> [] \<Longrightarrow> \<forall>t \<in> set ts. d \<notin> set t \<Longrightarrow> string_split (join d ts) d = ts"
proof (induction d ts rule: join.induct)
  case (2 d t)
  then show ?case by (subst string_split.simps) auto
next
  case (3 d t u us)
  then show ?case by (subst string_split.simps) auto
qed simp

lemma set_width_and_fill_eq:
  "set_width_and_fill str width fill fill_left =
     (let pad = replicate (size_t_of_int width - length str) fill
      in if fill_left then pad @ str else str @ pad)"
proof (induction str width fill fill_left rule: set_width_and_fill.induct)
  case (1 str width fill fill_left)
  show ?case
  proof (cases "length str < size_t_of_int width")
    case True
    then have k: "size_t_of_int width - length str = Suc (size_t_of_int width - Suc (length str))"
      by simp
    from 1 True show ?thesis
      by (subst set_width_and_fill.simps) (auto simp: Let_def k replicate_app_Cons_same)
  next
    case False
    then show ?thesis by (subst set_width_and_fill.simps) (simp add: Let_def)
  qed
qed

text \<open>What \<open>trim_number\<close> does to a number printed with a fraction.\<close>

lemma suffix_single: "suffix [c] ys \<longleftrightarrow> ys \<noteq> [] \<and> last ys = c"
  by (cases ys rule: rev_cases) (auto simp: suffix_def)

lemma trim_number_eq:
  assumes "CHR ''.'' \<notin> set fraction"
  shows "trim_number (whole @ ''.'' @ fraction) =
    (let f = rev (dropWhile (\<lambda>c. c = CHR ''0'') (rev fraction))
     in if f = [] then whole else whole @ ''.'' @ f)"
proof -
  let ?z = "\<lambda>c. c = CHR ''0''"
  have dw: "dropWhile ?z (rev fraction @ CHR ''.'' # rev whole) =
      dropWhile ?z (rev fraction) @ CHR ''.'' # rev whole"
    by (cases "dropWhile ?z (rev fraction) = []") (auto simp: dropWhile_append)
  have l: "last (rev (dropWhile ?z (rev fraction))) \<noteq> CHR ''.''"
    if "dropWhile ?z (rev fraction) \<noteq> []"
  proof -
    have "last (rev (dropWhile ?z (rev fraction))) \<in> set fraction"
      using that set_dropWhileD [of _ ?z "rev fraction"] by (metis hd_in_set last_rev set_rev)
    with assms show ?thesis by auto
  qed
  then show ?thesis
    by (auto simp: trim_number_def Let_def dw ends_with_suffix suffix_single butlast_append)
qed

end
