(* ===== verification/TimeUtils.thy ===== *)
theory TimeUtils
  imports TimeOfDay StringUtils
begin

text \<open>
  \<open>time_split\<close> and \<open>time_format\<close> of \<open>utils/vp_utils.h\<close>. A \<open>system_clock\<close> time point counts
  nanoseconds, as in libstdc++. \<open>std::regex_replace\<close> with a pattern that has no special
  character, and a replacement that has none, replaces every occurrence from left to right.
\<close>

section \<open>Definitions\<close>

abbreviation ns_per_second :: int where
  "ns_per_second \<equiv> 1000000000"

definition time_split :: "int \<Rightarrow> int \<Rightarrow> int list" where
  "time_split tp time_zone =
     (let tp = tp + time_zone * (3600 * ns_per_second);
          dp = duration_floor (86400 * ns_per_second) tp;
          ymd = year_month_day_sys dp;
          time = make_time 1000 (c_div (tp - dp * (86400 * ns_per_second)) 1000000)
      in [year_int (ymd_year ymd), uint (month_unsigned (ymd_month ymd)),
          uint (day_unsigned (ymd_day ymd)),
          hours time, minutes time, seconds time, subseconds time])"

function regex_replace :: "string \<Rightarrow> string \<Rightarrow> string \<Rightarrow> string" where
  "regex_replace s pat rep = (case s of
      [] \<Rightarrow> []
    | c # cs \<Rightarrow>
        if pat \<noteq> [] \<and> prefix pat s then rep @ regex_replace (drop (length pat) s) pat rep
        else c # regex_replace cs pat rep)"
  by pat_completeness auto
termination
  by (relation "measure (\<lambda>(s, pat, rep). length s)") auto

declare regex_replace.simps [simp del]

definition two :: "int \<Rightarrow> string" where
  "two i = set_width_and_fill (to_string i) 2 (CHR ''0'') True"

definition time_format :: "int \<Rightarrow> string \<Rightarrow> int \<Rightarrow> string" where
  "time_format tp template_str time_zone =
     (let tp = tp + time_zone * (3600 * ns_per_second);
          time_parts = time_split tp 0;
          time_str = regex_replace template_str ''<year>'' (to_string (time_parts ! 0));
          time_str = regex_replace time_str ''<mon>'' (two (time_parts ! 1));
          time_str = regex_replace time_str ''<day>'' (two (time_parts ! 2));
          time_str = regex_replace time_str ''<hour>'' (two (time_parts ! 3));
          time_str = regex_replace time_str ''<min>'' (two (time_parts ! 4));
          time_str = regex_replace time_str ''<sec>'' (two (time_parts ! 5));
          time_str = regex_replace time_str ''<mili>''
            (set_width_and_fill (to_string (time_parts ! 6)) 3 (CHR ''0'') True)
      in time_str)"

definition default_template :: string where
  "default_template = ''<year>-<mon>-<day> <hour>:<min>:<sec>.<mili>''"

section \<open>Splitting a point in time\<close>

lemma mod_mult_div:
  fixes a :: int
  assumes "0 < a" and "0 \<le> b"
  shows "t mod (a * b) div a = t div a mod b"
proof -
  have "(a * (t div a mod b) + t mod a) div a = t div a mod b"
    using assms(1) by (simp add: div_pos_pos_trivial)
  then show ?thesis using zmod_zmult2_eq [OF assms(2), of t a] by simp
qed

text \<open>The parts of a point in time: its date, and the milliseconds of its day.\<close>

lemma time_split_parts:
  fixes tp tz :: int
  defines "t \<equiv> tp + tz * (3600 * ns_per_second)"
  defines "n \<equiv> t div (86400 * ns_per_second)" and "ms \<equiv> t div 1000000 mod 86400000"
  assumes "day_range n"
  shows "\<exists>Y M D. civil_days n = (Y, M, D) \<and> time_split tp tz =
    [Y, M, D, ms div 3600000, ms div 60000 mod 60, ms div 1000 mod 60, ms mod 1000]"
proof -
  obtain Y M D where c: "civil_days n = (Y, M, D)" by (cases "civil_days n") auto
  have i: "year_int (ymd_year (from_days n)) = Y" "uint (month_rep (ymd_month (from_days n))) = M"
    "uint (day_rep (ymd_day (from_days n))) = D"
    using ymd_ints_from_days [OF assms(4)] c by (simp_all add: ymd_ints_def)
  have fl: "duration_floor (86400 * ns_per_second) t = n"
    unfolding n_def by (rule duration_floor_div) simp
  have rest: "t - n * (86400 * ns_per_second) = t mod (86400 * ns_per_second)"
    unfolding n_def by (rule minus_div_mult_eq_mod)
  have "t mod (1000000 * 86400000) div 1000000 = t div 1000000 mod 86400000"
    by (rule mod_mult_div) simp_all
  then have cast: "c_div (t mod (86400 * ns_per_second)) 1000000 = ms"
    by (simp add: c_div_nonneg ms_def)
  have ms0: "0 \<le> ms" by (simp add: ms_def)
  have ten3: "(10 :: int) ^ 3 = 1000" "(3600 :: int) * 1000 = 3600000" "(60 :: int) * 1000 = 60000"
    by simp_all
  have f: "tod_h (hh_mm_ss_ctor 1000 ms) = ms div 3600000"
    "tod_m (hh_mm_ss_ctor 1000 ms) = ms div 60000 mod 60"
    "dfs_s (tod_s (hh_mm_ss_ctor 1000 ms)) = ms div 1000 mod 60"
    "dfs_sub_s (tod_s (hh_mm_ss_ctor 1000 ms)) = ms mod 1000"
    by (rule hh_mm_ss_fields [of 3 ms, unfolded ten3 abs_of_nonneg [OF ms0]], simp)+
  have "time_split tp tz =
      [Y, M, D, ms div 3600000, ms div 60000 mod 60, ms div 1000 mod 60, ms mod 1000]"
    unfolding time_split_def Let_def t_def [symmetric] fl rest cast year_month_day_sys_def
      unsigned_simps i make_time_def hours_def minutes_def seconds_def subseconds_def f ..
  with c show ?thesis by blast
qed

section \<open>Filling in a template\<close>

lemma regex_replace_Nil [simp]: "regex_replace [] pat rep = []"
  by (subst regex_replace.simps) simp

lemma regex_replace_Cons:
  "regex_replace (c # s) pat rep =
    (if pat \<noteq> [] \<and> prefix pat (c # s) then rep @ regex_replace (drop (length pat) (c # s)) pat rep
     else c # regex_replace s pat rep)"
  by (subst regex_replace.simps) simp

lemma regex_replace_match:
  assumes "pat \<noteq> []"
  shows "regex_replace (pat @ s) pat rep = rep @ regex_replace s pat rep"
proof -
  obtain p ps where p: "pat = p # ps" using assms by (cases pat) auto
  have "regex_replace (p # (ps @ s)) (p # ps) rep = rep @ regex_replace s (p # ps) rep"
    by (subst regex_replace_Cons) simp
  then show ?thesis using p by simp
qed

lemma regex_replace_skip: "c \<noteq> d \<Longrightarrow> regex_replace (c # s) (d # ds) rep = c # regex_replace s (d # ds) rep"
  by (subst regex_replace_Cons) simp

lemma regex_replace_other:
  "\<not> prefix ds s \<Longrightarrow> regex_replace (d # s) (d # ds) rep = d # regex_replace s (d # ds) rep"
  by (subst regex_replace_Cons) simp

lemma regex_replace_text:
  "d \<notin> set x \<Longrightarrow> regex_replace (x @ s) (d # ds) rep = x @ regex_replace s (d # ds) rep"
  by (induction x) (auto simp: regex_replace_skip)

definition template_keywords :: "string list" where
  "template_keywords = [''<year>'', ''<mon>'', ''<day>'', ''<hour>'', ''<min>'', ''<sec>'', ''<mili>'']"

lemma keyword_Cons: "k \<in> set template_keywords \<Longrightarrow> \<exists>ds. k = CHR ''<'' # ds \<and> CHR ''<'' \<notin> set ds"
  by (auto simp: template_keywords_def)

lemma keyword_not_prefix:
  "\<lbrakk>k \<in> set template_keywords; k' \<in> set template_keywords; k \<noteq> k'\<rbrakk> \<Longrightarrow> \<not> prefix (tl k') (tl k @ s)"
  unfolding template_keywords_def set_simps by (elim insertE emptyE) simp_all

lemma regex_replace_keyword:
  assumes k: "k \<in> set template_keywords" and k': "k' \<in> set template_keywords"
  shows "regex_replace (k @ s) k' rep =
    (if k = k' then rep @ regex_replace s k' rep else k @ regex_replace s k' rep)"
proof -
  obtain ds where ds: "k = CHR ''<'' # ds" "CHR ''<'' \<notin> set ds" using keyword_Cons [OF k] by blast
  obtain ds' where ds': "k' = CHR ''<'' # ds'" using keyword_Cons [OF k'] by blast
  show ?thesis
  proof (cases "k = k'")
    case False
    then have "\<not> prefix ds' (ds @ s)" using keyword_not_prefix [OF k k'] ds ds' by simp
    then show ?thesis using False ds ds' by (simp add: regex_replace_other regex_replace_text)
  qed (use ds' in \<open>simp add: regex_replace_match del: append_Cons\<close>)
qed

text \<open>A template is a sequence of plain text, which has no \<open><\<close>, and of keywords.\<close>

datatype piece = Text string | Key string

fun piece_ok :: "piece \<Rightarrow> bool" where
  "piece_ok (Text x) = (CHR ''<'' \<notin> set x)"
| "piece_ok (Key k) = (k \<in> set template_keywords)"

fun piece_str :: "piece \<Rightarrow> string" where
  "piece_str (Text x) = x"
| "piece_str (Key k) = k"

fun fill_in :: "string \<Rightarrow> string \<Rightarrow> piece \<Rightarrow> piece" where
  "fill_in k r (Text x) = Text x"
| "fill_in k r (Key k') = (if k = k' then Text r else Key k')"

lemma regex_replace_pieces:
  assumes "list_all piece_ok ps" and k: "k \<in> set template_keywords"
  shows "regex_replace (concat (map piece_str ps)) k r = concat (map (piece_str \<circ> fill_in k r) ps)"
  using assms(1)
proof (induction ps)
  case (Cons p ps)
  obtain ds where "k = CHR ''<'' # ds" using keyword_Cons [OF k] by blast
  then show ?case using Cons k
    by (cases p) (simp_all add: regex_replace_text regex_replace_keyword)
qed simp

lemma fill_in_ok: "\<lbrakk>list_all piece_ok ps; CHR ''<'' \<notin> set r\<rbrakk> \<Longrightarrow> list_all piece_ok (map (fill_in k r) ps)"
  by (induction ps) (auto elim!: piece_ok.elims)

lemma replace_fill_in:
  "\<lbrakk>list_all piece_ok ps; k \<in> set template_keywords\<rbrakk> \<Longrightarrow>
    regex_replace (concat (map piece_str ps)) k r = concat (map piece_str (map (fill_in k r) ps))"
  using regex_replace_pieces by simp

text \<open>What each keyword stands for.\<close>

definition key_text :: "int list \<Rightarrow> string \<Rightarrow> string" where
  "key_text parts k =
     (if k = ''<year>'' then to_string (parts ! 0)
      else if k = ''<mon>'' then two (parts ! 1)
      else if k = ''<day>'' then two (parts ! 2)
      else if k = ''<hour>'' then two (parts ! 3)
      else if k = ''<min>'' then two (parts ! 4)
      else if k = ''<sec>'' then two (parts ! 5)
      else set_width_and_fill (to_string (parts ! 6)) 3 (CHR ''0'') True)"

fun render :: "int list \<Rightarrow> piece \<Rightarrow> string" where
  "render parts (Text x) = x"
| "render parts (Key k) = key_text parts k"

lemma to_string_no_lt: "CHR ''<'' \<notin> set (to_string i)"
proof -
  have "\<not> is_digit (CHR ''<'')" by (simp add: is_digit_def)
  then have "CHR ''<'' \<notin> set (nat_to_string n)" for n using nat_to_string_digits [of n] by blast
  then show ?thesis by (simp add: to_string_def)
qed

lemma two_no_lt [simp]: "CHR ''<'' \<notin> set (two i)"
  using to_string_no_lt [of i] by (simp add: two_def set_width_and_fill_eq)

lemma three_no_lt [simp]: "CHR ''<'' \<notin> set (set_width_and_fill (to_string i) 3 (CHR ''0'') True)"
  using to_string_no_lt [of i] by (simp add: set_width_and_fill_eq)

lemma key_text_no_lt: "CHR ''<'' \<notin> set (key_text parts k)"
  by (simp add: key_text_def to_string_no_lt)

lemma fold_replace:
  assumes "set ks \<subseteq> set template_keywords" and "list_all piece_ok ps"
  shows "fold (\<lambda>k s. regex_replace s k (key_text parts k)) ks (concat (map piece_str ps)) =
    concat (map piece_str (fold (\<lambda>k. map (fill_in k (key_text parts k))) ks ps))"
  using assms
proof (induction ks arbitrary: ps)
  case (Cons k ks)
  from Cons.IH [OF _ fill_in_ok [OF Cons.prems(2) key_text_no_lt]] Cons.prems
  show ?case by (simp add: replace_fill_in del: map_map)
qed simp

lemma fold_map_map: "fold (\<lambda>k. map (f k)) ks ps = map (fold f ks) ps"
  by (induction ks arbitrary: ps) simp_all

lemma fold_fill_in_Text: "fold (\<lambda>k. fill_in k (r k)) ks (Text x) = Text x"
  by (induction ks) simp_all

lemma fold_fill_in_Key:
  "k \<in> set ks \<Longrightarrow> fold (\<lambda>k. fill_in k (r k)) ks (Key k) = Text (r k)"
  by (induction ks) (auto simp: fold_fill_in_Text)

lemma fill_in_render:
  "piece_ok p \<Longrightarrow> fold (\<lambda>k. fill_in k (key_text parts k)) template_keywords p = Text (render parts p)"
  by (cases p) (simp_all add: fold_fill_in_Text fold_fill_in_Key)

lemma time_format_fold:
  "time_format tp tmpl tz =
    fold (\<lambda>k s. regex_replace s k (key_text (time_split tp tz) k)) template_keywords tmpl"
  by (simp add: time_format_def time_split_def Let_def template_keywords_def key_text_def)

lemma time_format_pieces:
  assumes "list_all piece_ok ps"
  shows "time_format tp (concat (map piece_str ps)) tz = concat (map (render (time_split tp tz)) ps)"
proof -
  have "fold (\<lambda>k. map (fill_in k (key_text (time_split tp tz) k))) template_keywords ps =
      map (\<lambda>p. Text (render (time_split tp tz) p)) ps"
    using assms by (auto simp: fold_map_map fill_in_render list_all_iff)
  then show ?thesis using assms
    by (simp add: time_format_fold fold_replace o_def)
qed

end
