(* ===== verification/DataProperties.thy ===== *)
theory DataProperties
  imports PyMat TimeUtils CalWeek
begin

text \<open>
  Metas, images, strings and the calendar: the properties C29 to C34 of the development.
\<close>

section \<open>Metas and images\<close>

definition small_mat :: cv_mat where
  "small_mat = \<lparr>mat_rows = 1, mat_cols = 2, mat_channels = 1, mat_step0 = 2, mat_step1 = 1,
     mat_buffer = 0, mat_offset = 0\<rparr>"

definition small_memory :: memory where
  "small_memory = [0 \<mapsto> [10, 20]]"

definition small_clone :: "cv_mat \<Rightarrow> memory \<Rightarrow> cv_mat \<times> memory" where
  "small_clone m mem = (m\<lparr>mat_buffer := 1\<rparr>, mem(1 \<mapsto> the (mem (mat_buffer m))))"

definition small_frame :: vp_frame_meta where
  "small_frame = projr (vp_frame_meta_ctor 0 small_mat 3 1 2 1 25)"

lemma frame_small_frame [simp]: "frame small_frame = small_mat"
  by (simp add: small_frame_def vp_frame_meta_ctor_def mat_empty_def small_mat_def vp_meta.defs
    vp_meta_ctor_def vp_frame_meta.defs)

text \<open>
  C29. A cloned frame meta is the original in every field but the image, and its image is a copy
  in a buffer of its own: of the same size and with the same pixels, such that writing to the
  clone leaves every pixel of the original as it was, and writing to the original every pixel
  of the clone. That \<open>cv::Mat::clone\<close> copies deeply is OpenCV's documented behaviour.
\<close>

theorem clone_is_independent:
  assumes "frame_clone cl m mem = (m', mem')" and "clones_deeply cl (frame m) mem"
    and "mem (mat_buffer (frame m)) \<noteq> None"
    and "int r < mat_rows (frame m)" and "int c < mat_cols (frame m)" and "int k < mat_channels (frame m)"
  shows "m' = m\<lparr>frame := frame m'\<rparr> \<and> mat_buffer (frame m') \<noteq> mat_buffer (frame m) \<and>
    get_size m' = get_size m \<and> mat_channels (frame m') = mat_channels (frame m) \<and>
    mat_at mem' (frame m') r c k = mat_at mem (frame m) r c k \<and>
    mat_at (mat_set mem' (frame m') r' c' k' v) (frame m) r c k = mat_at mem (frame m) r c k \<and>
    mat_at (mat_set mem' (frame m) r' c' k' v) (frame m') r c k = mat_at mem (frame m) r c k"
proof -
  note f = frame_clone_fields [OF assms(1)] and fresh = frame_clone_fresh [OF assms(1-3)]
  have other: "mem' (mat_buffer (frame m)) = mem (mat_buffer (frame m))"
    and size: "get_size m' = get_size m" "mat_channels (frame m') = mat_channels (frame m)"
    and pixel: "mat_at mem' (frame m') r c k = mat_at mem (frame m) r c k"
    using assms(2,4-6) f fresh by (auto simp: clones_deeply_def get_size_def split: prod.splits)
  have "mat_at (mat_set mem' (frame m') r' c' k' v) (frame m) r c k = mat_at mem (frame m) r c k"
    using other fresh by (simp add: mat_at_def mat_set_def read_write_other) (simp add: read_byte_def)
  moreover have "mat_at (mat_set mem' (frame m) r' c' k' v) (frame m') r c k = mat_at mem (frame m) r c k"
    using pixel fresh by (simp add: mat_at_def mat_set_def read_write_other)
  ultimately show ?thesis using frame_clone_all [OF assms(1)] fresh size pixel by simp
qed

lemma small_clone_deep: "clones_deeply small_clone small_mat small_memory"
  by (auto simp: clones_deeply_def small_clone_def small_mat_def small_memory_def mat_at_def
    mat_address_def read_byte_def)

theorem clone_is_independent_witness:
  "\<exists>m' mem'. frame_clone small_clone small_frame small_memory = (m', mem') \<and>
    mat_at (mat_set mem' (frame m') 0 1 0 99) small_mat 0 1 0 = Some 20"
proof -
  obtain m' mem' where c: "frame_clone small_clone small_frame small_memory = (m', mem')"
    by (cases "frame_clone small_clone small_frame small_memory") auto
  have "mat_at (mat_set mem' (frame m') 0 1 0 99) (frame small_frame) 0 1 0 =
      mat_at small_memory (frame small_frame) 0 1 0"
    using clone_is_independent [OF c, of 0 1 0 0 1 0 99] small_clone_deep
    by (simp add: small_memory_def small_mat_def)
  also have "\<dots> = Some 20"
    by (simp add: mat_at_def mat_address_def read_byte_def small_mat_def small_memory_def)
  finally show ?thesis using c by auto
qed

text \<open>
  An image is assigned to a frame as an array: for an array in C order without gaps, of one, three or
  four channels (with one also without a channel axis) and lengths below 2^31, \<open>set_frame_numpy\<close>
  succeeds and changes nothing of the meta but its frame, which has the array's height, width and
  channels and shows each element of the array at its row, column and channel. Without \<open>copy\<close> the
  frame is a view: it shows whatever the array's buffer holds later. With \<open>copy\<close> it has a buffer
  of its own with the elements the array had then, given that \<open>cv::Mat::clone\<close> copies deeply, as
  documented. An array is refused exactly when it has neither two nor three dimensions.
\<close>

lemma array_becomes_frame:
  assumes "image_array h w c a" and "mem (np_buffer a) \<noteq> None"
    and "\<forall>f. to_mat a = Inr f \<longrightarrow> clones_deeply cl f mem"
  shows "(\<exists>f. set_frame_numpy cl a False m mem = Inr (m\<lparr>frame := f\<rparr>, mem) \<and>
      get_size (m\<lparr>frame := f\<rparr>) = (int w, int h) \<and> mat_channels f = int c \<and>
      (\<forall>now. \<forall>i < h. \<forall>j < w. \<forall>k < c. mat_at now f i j k = np_pixel now a i j k)) \<and>
    (\<exists>g mem'. set_frame_numpy cl a True m mem = Inr (m\<lparr>frame := g\<rparr>, mem') \<and>
      get_size (m\<lparr>frame := g\<rparr>) = (int w, int h) \<and> mat_channels g = int c \<and>
      mat_buffer g \<noteq> np_buffer a \<and> mem' (np_buffer a) = mem (np_buffer a) \<and>
      (\<forall>i < h. \<forall>j < w. \<forall>k < c. mat_at mem' g i j k = np_pixel mem a i j k)) \<and>
    ((\<exists>e. set_frame_numpy cl b copy m mem = Inl e) \<longleftrightarrow> length (np_shape b) \<notin> {2, 3})"
proof -
  obtain f where f: "to_mat a = Inr f" using to_mat_image [OF assms(1)] by blast
  obtain g mem' where g: "cl f mem = (g, mem')" by fastforce
  note copied = clone_image [OF assms(1) f assms(3) [rule_format, OF f] assms(2) g]
  have size: "mat_rows f = int h" "mat_cols f = int w" "mat_channels f = int c"
    using f to_mat_image [OF assms(1)] by auto
  have "(\<exists>e. set_frame_numpy cl b copy m mem = Inl e) \<longleftrightarrow> (\<exists>e. to_mat b = Inl e)"
    by (cases "to_mat b") (auto simp: set_frame_numpy_def split: prod.split)
  then have err: "(\<exists>e. set_frame_numpy cl b copy m mem = Inl e) \<longleftrightarrow> length (np_shape b) \<notin> {2, 3}"
    by (simp add: to_mat_fails_iff)
  have view: "\<exists>f. set_frame_numpy cl a False m mem = Inr (m\<lparr>frame := f\<rparr>, mem) \<and>
      get_size (m\<lparr>frame := f\<rparr>) = (int w, int h) \<and> mat_channels f = int c \<and>
      (\<forall>now. \<forall>i < h. \<forall>j < w. \<forall>k < c. mat_at now f i j k = np_pixel now a i j k)"
    using f size image_elements [OF assms(1) f]
    by (intro exI [of _ f]) (simp add: set_frame_numpy_def get_size_def)
  have "set_frame_numpy cl a True m mem = Inr (m\<lparr>frame := g\<rparr>, mem')"
    using f g by (simp add: set_frame_numpy_def)
  with copied have "\<exists>g mem'. set_frame_numpy cl a True m mem = Inr (m\<lparr>frame := g\<rparr>, mem') \<and>
      get_size (m\<lparr>frame := g\<rparr>) = (int w, int h) \<and> mat_channels g = int c \<and>
      mat_buffer g \<noteq> np_buffer a \<and> mem' (np_buffer a) = mem (np_buffer a) \<and>
      (\<forall>i < h. \<forall>j < w. \<forall>k < c. mat_at mem' g i j k = np_pixel mem a i j k)"
    by (intro exI [of _ g] exI [of _ mem']) (simp add: get_size_def)
  with view err show ?thesis by blast
qed

definition small_array :: np_array where
  "small_array = \<lparr>np_shape = [1, 2], np_strides = [2, 1], np_buffer = 0, np_offset = 0\<rparr>"

lemma array_becomes_frame_witness:
  "\<exists>g mem'. set_frame_numpy small_clone small_array True small_frame small_memory =
    Inr (small_frame\<lparr>frame := g\<rparr>, mem') \<and> mat_at mem' g 0 1 0 = Some 20"
proof -
  have arr: "image_array 1 2 1 small_array" by (simp add: image_array_def small_array_def)
  have pixel: "np_pixel small_memory small_array 0 1 0 = Some 20"
    by (simp add: np_pixel_def np_at_def read_byte_def small_array_def small_memory_def)
  have deep: "\<forall>f. to_mat small_array = Inr f \<longrightarrow> clones_deeply small_clone f small_memory"
    using small_clone_deep by (simp add: to_mat_image [OF arr] small_mat_def) (simp add: small_array_def)
  have held: "small_memory (np_buffer small_array) \<noteq> None"
    by (simp add: small_memory_def small_array_def)
  note becomes = array_becomes_frame [OF arr held deep, of small_frame]
  from becomes [THEN conjunct2, THEN conjunct1] obtain g mem'
    where set: "set_frame_numpy small_clone small_array True small_frame small_memory =
      Inr (small_frame\<lparr>frame := g\<rparr>, mem')"
    and "\<forall>i < 1. \<forall>j < 2. \<forall>k < 1. mat_at mem' g i j k = np_pixel small_memory small_array i j k"
    by (elim exE conjE)
  with pixel have "mat_at mem' g 0 1 0 = Some 20" by simp
  with set show ?thesis by (intro exI conjI)
qed

text \<open>
  C30. \<open>to_mat\<close> takes an array of two channels for one of four: for lengths below 2^31 the matrix
  it returns covers bytes behind the end of the array's buffer.
\<close>

theorem two_channel_array_over_read:
  assumes "h < 2 ^ 31" and "w < 2 ^ 31" and "0 < h" and "0 < w"
    and "to_mat \<lparr>np_shape = [int h, int w, 2], np_strides = [2 * w, 2, 1], np_buffer = b,
      np_offset = 0\<rparr> = Inr m"
    and "mem b = Some bs" and "length bs = h * w * 2"
  shows "mat_channels m = 4 \<and> mat_at mem m (h - 1) (w - 1) 3 = None"
  using assms by (rule two_channels_over_read)

theorem two_channel_array_over_read_witness:
  "\<exists>m. to_mat \<lparr>np_shape = [1, 1, 2], np_strides = [2, 2, 1], np_buffer = 0, np_offset = 0\<rparr> = Inr m \<and>
    mat_at small_memory m 0 0 3 = None"
proof -
  obtain m where m: "to_mat \<lparr>np_shape = [1, 1, 2], np_strides = [2, 2, 1], np_buffer = 0,
      np_offset = 0\<rparr> = Inr m"
    by (auto simp: to_mat_def Let_def)
  with two_channel_array_over_read [of 1 1 0 m small_memory "[10, 20]"] show ?thesis
    by (auto simp: small_memory_def)
qed

section \<open>Text\<close>

text \<open>
  C31. \<open>string_split\<close> loses nothing but a delimiter at the very end: its tokens contain no
  delimiter, and joined with the delimiter they give the text back.
\<close>

theorem split_join:
  "list_all (\<lambda>t. d \<notin> set t) (string_split s d) \<and>
   join d (string_split s d) @ (if s \<noteq> [] \<and> last s = d then [d] else []) = s"
  using string_split_join [of d s] string_split_tokens by (auto simp: list_all_iff)

text \<open>
  C32. \<open>time_format\<close> prints the calendar date and the time of day of the shifted point in time:
  for every template that is a sequence of plain text and keywords, each keyword becomes its
  part, padded with zeros, and the parts are the date of the proleptic Gregorian calendar and
  the hours, minutes, seconds and milliseconds of the day.
\<close>

theorem time_format_prints_date:
  assumes "list_all piece_ok ps" and "t = tp + tz * (3600 * ns_per_second)"
    and "n = t div (86400 * ns_per_second)" and "ms = t div 1000000 mod 86400000"
    and "day_range n"
  shows "\<exists>Y M D. valid_date (Y, M, D) \<and> days_civil (Y, M, D) = n \<and>
    time_format tp (concat (map piece_str ps)) tz = concat (map (render
      [Y, M, D, ms div 3600000, ms div 60000 mod 60, ms div 1000 mod 60, ms mod 1000]) ps)"
proof -
  obtain Y M D where "civil_days n = (Y, M, D)" and "time_split tp tz =
      [Y, M, D, ms div 3600000, ms div 60000 mod 60, ms div 1000 mod 60, ms mod 1000]"
    using time_split_parts [of tp tz] assms(5) unfolding assms(2-4) by blast
  then show ?thesis
    using time_format_pieces [OF assms(1), of tp tz] civil_days_correct [of n] by auto
qed

definition default_pieces :: "piece list" where
  "default_pieces = [Key ''<year>'', Text ''-'', Key ''<mon>'', Text ''-'', Key ''<day>'', Text '' '',
     Key ''<hour>'', Text '':'', Key ''<min>'', Text '':'', Key ''<sec>'', Text ''.'', Key ''<mili>'']"

lemma default_pieces_ok: "list_all piece_ok default_pieces"
  "concat (map piece_str default_pieces) = default_template"
  by (simp_all add: default_pieces_def default_template_def template_keywords_def)

theorem time_format_prints_date_witness:
  "\<exists>Y M D. days_civil (Y, M, D) = 0 \<and>
    time_format 1500000000 default_template 8 = concat (map (render [Y, M, D, 8, 0, 1, 500]) default_pieces)"
proof -
  have "(28801500000000 :: int) = 1500000000 + 8 * (3600 * ns_per_second)"
    "(0 :: int) = 28801500000000 div (86400 * ns_per_second)"
    "(28801500 :: int) = 28801500000000 div 1000000 mod 86400000" "day_range 0"
    by (simp_all add: day_range_def)
  note p = time_format_prints_date [OF default_pieces_ok(1) this, unfolded default_pieces_ok(2)]
  have "(28801500 :: int) div 3600000 = 8" "(28801500 :: int) div 60000 mod 60 = 0"
    "(28801500 :: int) div 1000 mod 60 = 1" "(28801500 :: int) mod 1000 = 500"
    by simp_all
  from p [unfolded this] show ?thesis by blast
qed

section \<open>The calendar\<close>

text \<open>
  C33. Dates and day numbers: converting a valid \<open>year_month_day\<close> to its day number and back
  gives the date again, and the comparison of dates is the comparison of their day numbers.
\<close>

theorem date_to_days_roundtrip:
  assumes "ymd_ok x" and "ymd_ok y"
  shows "from_days (to_days x) = x \<and> (ymd_lt x y \<longleftrightarrow> to_days x < to_days y)"
  using from_days_to_days_ok [OF assms(1)] ymd_lt_to_days [OF assms] by simp

definition epoch :: year_month_day where
  "epoch = from_days 0"

lemma epoch_ok: "ymd_ok epoch"
  unfolding epoch_def by (rule from_days_ok) (simp add: day_range_def)

theorem date_to_days_roundtrip_witness: "from_days (to_days epoch) = epoch \<and> \<not> ymd_lt epoch epoch"
  using date_to_days_roundtrip [OF epoch_ok epoch_ok] by simp

text \<open>
  C34. The other way round, for every day number in the range of the 16-bit years: \<open>from_days\<close>
  gives a valid date whose day number it is; the date of the next day is the calendar's next
  date, over month ends, leap days and centuries; and day 0 is the first of January 1970. With
  these the conversion is determined for every day.
\<close>

theorem days_to_date_correct:
  assumes "day_range n" and "day_range (n + 1)"
  shows "ymd_ok (from_days n) \<and> to_days (from_days n) = n \<and>
    ymd_ints (from_days (n + 1)) = next_date (ymd_ints (from_days n)) \<and>
    ymd_ints (from_days 0) = (1970, 1, 1)"
proof -
  have "civil_days 0 = (1970, 1, 1)"
    using civil_days_days_civil [of 1970 1 1] days_civil_epoch by (simp add: valid_date_def month_length_def)
  moreover have "ymd_ints (from_days 0) = civil_days 0"
    by (rule ymd_ints_from_days) (simp add: day_range_def)
  ultimately show ?thesis
    using from_days_ok [OF assms(1)] to_days_from_days [OF assms(1)]
      ymd_ints_from_days [OF assms(1)] ymd_ints_from_days [OF assms(2)] civil_days_Suc [of n] by simp
qed

theorem days_to_date_correct_witness:
  "to_days (from_days 20000) = 20000 \<and> ymd_ints (from_days 1) = next_date (1970, 1, 1)"
  using days_to_date_correct [of 20000] days_to_date_correct [of 0] by (simp add: day_range_def)

text \<open>
  The day of the week of a day number is \<open>(n + 4) mod 7\<close>, Sunday being 0, for dates before the
  epoch as well, where the code takes the other branch; it is always a valid weekday.
\<close>

lemma weekday_of_day:
  assumes "day_range n"
  shows "uint (wd_rep (weekday_sys n)) = (n + 4) mod 7 \<and> weekday_ok (weekday_sys n)"
  using weekday_sys_mod [OF assms] by (simp add: weekday_ok_def word_le_def)

text \<open>
  Splitting a duration into hours, minutes, seconds and a decimal fraction loses nothing,
  for every period of a power of ten down to the attosecond, negative durations included, and
  the minutes and seconds are below 60.
\<close>

lemma time_of_day_roundtrip:
  assumes "k \<le> 18"
  shows "to_duration (10 ^ k) (make_time (10 ^ k) d) = d \<and>
    0 \<le> minutes (make_time (10 ^ k) d) \<and> minutes (make_time (10 ^ k) d) < 60 \<and>
    0 \<le> seconds (make_time (10 ^ k) d) \<and> seconds (make_time (10 ^ k) d) < 60 \<and>
    0 \<le> subseconds (make_time (10 ^ k) d) \<and> subseconds (make_time (10 ^ k) d) < 10 ^ k"
  using hh_mm_ss_to_duration [OF assms, of d] hh_mm_ss_fields(2-4) [OF assms, of d]
  by (simp add: make_time_def minutes_def seconds_def subseconds_def)

end
