(* ===== verification/CalNames.thy ===== *)
theory CalNames
  imports Prelude
begin

text \<open>
  The calendar library: the names of builds with \<open>ONLY_C_LOCALE\<close>, the full ones before the short
  ones (\<open>detail::weekday_names\<close>, \<open>detail::month_names\<close>, \<open>detail::ampm_names\<close>).
\<close>

definition weekday_names :: "string list" where
  "weekday_names =
     [''Sunday'', ''Monday'', ''Tuesday'', ''Wednesday'', ''Thursday'', ''Friday'', ''Saturday'',
      ''Sun'', ''Mon'', ''Tue'', ''Wed'', ''Thu'', ''Fri'', ''Sat'']"

definition month_names :: "string list" where
  "month_names =
     [''January'', ''February'', ''March'', ''April'', ''May'', ''June'', ''July'', ''August'',
      ''September'', ''October'', ''November'', ''December'',
      ''Jan'', ''Feb'', ''Mar'', ''Apr'', ''May'', ''Jun'', ''Jul'', ''Aug'', ''Sep'', ''Oct'', ''Nov'', ''Dec'']"

definition ampm_names :: "string list" where
  "ampm_names = [''AM'', ''PM'']"

text \<open>
  A name by its index. The code reads outside of the table when the index is out of range, which
  it is only once the stream has failed, so that nothing is printed.
\<close>

definition name_at :: "string list \<Rightarrow> int \<Rightarrow> string" where
  "name_at names i = (if 0 \<le> i \<and> nat i < length names then names ! nat i else [])"

end
