(* ===== verification/CalFormat.thy ===== *)
theory CalFormat
  imports TimeOfDay CalNames Excepts
begin

text \<open>
  The calendar library, seventh part: formatting by a pattern (\<open>to_stream\<close> and \<open>format\<close>). The
  state of the loop over the pattern is a record: the characters written, the fail bit of the
  stream, and the local variables of \<open>to_stream\<close>. A formatted insertion into a failed stream does
  nothing; the \<open>time_put\<close> facet of the stream's locale writes to the buffer whatever the state. The
  facet is a parameter, the digits and the decimal point of the seconds are those of the classic
  locale (the source takes the point from the \<open>numpunct\<close> facet of the stream's locale). Builds with \<open>ONLY_C_LOCALE\<close>
  have no facets and print the names themselves.
\<close>

section \<open>State\<close>

record tm =
  tm_sec :: int
  tm_min :: int
  tm_hour :: int
  tm_mday :: int
  tm_mon :: int
  tm_year :: int
  tm_wday :: int
  tm_yday :: int

definition tm_zero :: tm where
  "tm_zero = \<lparr>tm_sec = 0, tm_min = 0, tm_hour = 0, tm_mday = 0, tm_mon = 0, tm_year = 0,
     tm_wday = 0, tm_yday = 0\<rparr>"

text \<open>
  What the \<open>time_put\<close> facet writes for a conversion specification and a broken-down time, and what
  the \<open>time_get\<close> facet makes of a specification, a time to fill in and the characters that follow:
  the time, the characters it has left, and the bits to be set. No facets are the build
  \<open>ONLY_C_LOCALE\<close>.
\<close>

type_synonym time_put = "string \<Rightarrow> tm \<Rightarrow> string"

type_synonym time_get = "string \<Rightarrow> tm \<Rightarrow> string \<Rightarrow> tm \<times> string \<times> bool \<times> bool"

type_synonym std_locale = "(time_put \<times> time_get) option"

text \<open>The fields to print, with \<open>den\<close> ticks to the second; those not given are invalid.\<close>

record fields =
  f_ymd :: year_month_day
  f_wd :: weekday
  f_tod :: hh_mm_ss
  f_has_tod :: bool

definition nanyear :: year where
  "nanyear = year_ctor (- 32768)"

definition no_ymd :: year_month_day where
  "no_ymd = ym_slash_int (year_slash_int nanyear 0) 0"

definition fields_default :: "int \<Rightarrow> fields" where
  "fields_default den = \<lparr>f_ymd = no_ymd, f_wd = weekday_ctor 8, f_tod = hh_mm_ss_ctor den 0,
     f_has_tod = False\<rparr>"

definition fields_ymd :: "int \<Rightarrow> year_month_day \<Rightarrow> fields" where
  "fields_ymd den x = (fields_default den)\<lparr>f_ymd := x\<rparr>"

definition fields_wd :: "int \<Rightarrow> weekday \<Rightarrow> fields" where
  "fields_wd den x = (fields_default den)\<lparr>f_wd := x\<rparr>"

definition fields_tod :: "int \<Rightarrow> hh_mm_ss \<Rightarrow> fields" where
  "fields_tod den x = (fields_default den)\<lparr>f_tod := x, f_has_tod := True\<rparr>"

definition fields_ymd_tod :: "int \<Rightarrow> year_month_day \<Rightarrow> hh_mm_ss \<Rightarrow> fields" where
  "fields_ymd_tod den x t = (fields_default den)\<lparr>f_ymd := x, f_tod := t, f_has_tod := True\<rparr>"

record fmt_state =
  fs_out :: string
  fs_fail :: bool
  fs_tm :: tm
  fs_negative :: bool
  fs_command :: bool
  fs_modified :: "char option"

definition os_put :: "string \<Rightarrow> fmt_state \<Rightarrow> fmt_state" where
  "os_put s st = (if fs_fail st then st else st\<lparr>fs_out := fs_out st @ s\<rparr>)"

definition set_fail :: "bool \<Rightarrow> fmt_state \<Rightarrow> fmt_state" where
  "set_fail b st = st\<lparr>fs_fail := fs_fail st \<or> b\<rparr>"

definition facet_put :: "std_locale \<Rightarrow> string \<Rightarrow> tm \<Rightarrow> fmt_state \<Rightarrow> fmt_state" where
  "facet_put loc f t st = st\<lparr>fs_out := fs_out st @ (case loc of None \<Rightarrow> [] | Some (put, _) \<Rightarrow> put f t), fs_tm := t\<rparr>"

text \<open>A number is printed by the library itself without a modifier, and always without facets.\<close>

definition own_form :: "std_locale \<Rightarrow> fmt_state \<Rightarrow> bool" where
  "own_form loc st \<longleftrightarrow> loc = None \<or> fs_modified st = None"

text \<open>The ends of the branches: \<open>command = nullptr\<close>, with \<open>modified\<close> reset, and an early return.\<close>

definition cmd_done :: "fmt_state \<Rightarrow> fmt_state \<times> bool" where
  "cmd_done st = (st\<lparr>fs_command := False, fs_modified := None\<rparr>, True)"

definition fmt_return :: "fmt_state \<Rightarrow> fmt_state \<times> bool" where
  "fmt_return st = (st, False)"

text \<open>A modifier the conversion does not take: the specification is printed as it is.\<close>

definition put_spec :: "char \<Rightarrow> char \<Rightarrow> fmt_state \<Rightarrow> fmt_state \<times> bool" where
  "put_spec m c st = cmd_done (os_put [CHR ''%'', m, c] st)"

definition zero2 :: "int \<Rightarrow> string" where
  "zero2 i = os_right (CHR ''0'') 2 (to_string i)"

text \<open>A number after a leading zero when it is below ten.\<close>

definition lead0 :: "int \<Rightarrow> string" where
  "lead0 i = (if i < 10 then ''0'' else []) @ to_string i"

definition put_negative :: "fmt_state \<Rightarrow> fmt_state" where
  "put_negative st = (if fs_negative st then (os_put ''-'' st)\<lparr>fs_negative := False\<rparr> else st)"

definition Sunday :: weekday where "Sunday = weekday_ctor 7"
definition Monday :: weekday where "Monday = weekday_ctor 1"
definition Thursday :: weekday where "Thursday = weekday_ctor 4"
definition January :: month where "January = month_ctor 1"
definition December :: month where "December = month_ctor 12"

section \<open>Weekday and month\<close>

definition extract_weekday :: "fields \<Rightarrow> fmt_state \<Rightarrow> int \<times> fmt_state" where
  "extract_weekday fds st =
     (if \<not> ymd_ok (f_ymd fds) \<and> \<not> weekday_ok (f_wd fds) then (8, set_fail True st)
      else if ymd_ok (f_ymd fds) then
        (let wd = weekday_sys (ymd_sys_days (f_ymd fds))
         in if weekday_ok (f_wd fds) \<and> weekday_ne wd (f_wd fds) then (8, set_fail True st)
            else (weekday_diff wd Sunday, st))
      else (weekday_diff (f_wd fds) Sunday, st))"

definition extract_month :: "fields \<Rightarrow> fmt_state \<Rightarrow> int \<times> fmt_state" where
  "extract_month fds st =
     (if \<not> month_ok (ymd_month (f_ymd fds)) then (0, set_fail True st)
      else (uint (month_unsigned (ymd_month (f_ymd fds))), st))"

definition fmt_a :: "std_locale \<Rightarrow> fields \<Rightarrow> char \<Rightarrow> fmt_state \<Rightarrow> fmt_state \<times> bool" where
  "fmt_a loc fds c st = (case fs_modified st of
      Some m \<Rightarrow> put_spec m c st
    | None \<Rightarrow> (case extract_weekday fds st of (wd, st1) \<Rightarrow>
        let t = (fs_tm st1)\<lparr>tm_wday := wd\<rparr>
        in if fs_fail st1 then fmt_return (st1\<lparr>fs_tm := t\<rparr>)
           else cmd_done (if loc = None
             then os_put (name_at weekday_names (wd + 7 * of_bool (c = CHR ''a''))) (st1\<lparr>fs_tm := t\<rparr>)
             else facet_put loc [CHR ''%'', c] t st1)))"

definition fmt_b :: "std_locale \<Rightarrow> fields \<Rightarrow> char \<Rightarrow> fmt_state \<Rightarrow> fmt_state \<times> bool" where
  "fmt_b loc fds c st = (case fs_modified st of
      Some m \<Rightarrow> put_spec m c st
    | None \<Rightarrow> (case extract_month fds st of (mon, st1) \<Rightarrow>
        let t = (fs_tm st1)\<lparr>tm_mon := mon - 1\<rparr>
        in cmd_done (if loc = None
             then os_put (name_at month_names (mon - 1 + 12 * of_bool (c \<noteq> CHR ''B''))) (st1\<lparr>fs_tm := t\<rparr>)
             else facet_put loc [CHR ''%'', c] t st1)))"

definition day_of_year :: "year_month_day \<Rightarrow> days" where
  "day_of_year ymd = ymd_local_days ymd - ymd_local_days (ym_slash_int (year_slash_int (ymd_year ymd) 1) 1)"

text \<open>Date and time with the facet, and by the library itself.\<close>

definition fmt_c_facet :: "std_locale \<Rightarrow> fields \<Rightarrow> char \<Rightarrow> fmt_state \<Rightarrow> fmt_state \<times> bool" where
  "fmt_c_facet loc fds c st1 =
     (let ymd = f_ymd fds;
          t1 = (if c = CHR ''c''
            then tm_zero\<lparr>tm_sec := seconds (f_tod fds), tm_min := minutes (f_tod fds),
              tm_hour := hours (f_tod fds)\<rparr>
            else tm_zero);
          (mon, st2) = extract_month fds st1;
          (wd, st3) = extract_weekday fds st2;
          t2 = t1\<lparr>tm_mday := uint (day_unsigned (ymd_day ymd)), tm_mon := mon - 1,
            tm_year := year_int (ymd_year ymd) - 1900, tm_wday := wd\<rparr>
      in if fs_fail st3 then fmt_return (st3\<lparr>fs_tm := t2\<rparr>)
         else cmd_done (facet_put loc
           (''%'' @ (if fs_modified st3 = Some (CHR ''E'') then ''E'' else []) @ [c])
           (t2\<lparr>tm_yday := day_of_year ymd\<rparr>) st3))"

definition slash_date :: "year_month_day \<Rightarrow> string" where
  "slash_date ymd = zero2 (uint (month_unsigned (ymd_month ymd))) @ ''/'' @
     zero2 (uint (day_unsigned (ymd_day ymd))) @ ''/'' @ zero2 (c_mod (year_int (ymd_year ymd)) 100)"

text \<open>The time of day cut to whole seconds.\<close>

definition whole_seconds :: "int \<Rightarrow> hh_mm_ss \<Rightarrow> hh_mm_ss" where
  "whole_seconds den tod = make_time 1 (c_div (to_duration den tod) (dfs_precision den))"

definition fmt_c_own :: "int \<Rightarrow> fields \<Rightarrow> fmt_state \<Rightarrow> fmt_state" where
  "fmt_c_own den fds st1 =
     (let (wd, st2) = extract_weekday fds st1;
          st3 = os_put (name_at weekday_names (wd + 7) @ '' '') st2;
          (mon, st4) = extract_month fds st3;
          d = uint (day_unsigned (ymd_day (f_ymd fds)))
      in os_put (name_at month_names (mon - 1 + 12) @ '' '' @ (if d < 10 then '' '' else []) @
           to_string d @ '' '' @ hh_mm_ss_text 1 (whole_seconds den (f_tod fds)) @ '' '' @
           year_text (ymd_year (f_ymd fds))) st4)"

definition fmt_c :: "std_locale \<Rightarrow> int \<Rightarrow> fields \<Rightarrow> char \<Rightarrow> fmt_state \<Rightarrow> fmt_state \<times> bool" where
  "fmt_c loc den fds c st =
     (if fs_modified st = Some (CHR ''O'') then put_spec (CHR ''O'') c st
      else
        let st1 = set_fail (c = CHR ''c'' \<and> \<not> f_has_tod fds) (set_fail (\<not> ymd_ok (f_ymd fds)) st)
        in if loc \<noteq> None then fmt_c_facet loc fds c st1
           else if c = CHR ''c'' then cmd_done (fmt_c_own den fds st1)
           else cmd_done (os_put (slash_date (f_ymd fds)) st1))"

section \<open>Year, month and day\<close>

definition century_text :: "int \<Rightarrow> string" where
  "century_text y =
     (if y \<ge> 0 then zero2 (c_div y 100) else ''-'' @ zero2 (c_div (- (y - 99)) 100))"

definition fmt_C :: "std_locale \<Rightarrow> fields \<Rightarrow> char \<Rightarrow> fmt_state \<Rightarrow> fmt_state \<times> bool" where
  "fmt_C loc fds c st =
     (if fs_modified st = Some (CHR ''O'') then put_spec (CHR ''O'') c st
      else
        let st1 = set_fail (\<not> year_ok (ymd_year (f_ymd fds))) st;
            y = year_int (ymd_year (f_ymd fds))
        in cmd_done (if own_form loc st1 then os_put (century_text y) st1
             else if fs_modified st1 = Some (CHR ''E'')
             then facet_put loc ''%EC'' ((fs_tm st1)\<lparr>tm_year := y - 1900\<rparr>) st1 else st1))"

definition fmt_d :: "std_locale \<Rightarrow> fields \<Rightarrow> char \<Rightarrow> fmt_state \<Rightarrow> fmt_state \<times> bool" where
  "fmt_d loc fds c st =
     (if fs_modified st = Some (CHR ''E'') then put_spec (CHR ''E'') c st
      else
        let st1 = set_fail (\<not> day_ok (ymd_day (f_ymd fds))) st;
            d = uint (day_unsigned (ymd_day (f_ymd fds)))
        in cmd_done (if own_form loc st1
             then os_put (os_right (if c = CHR ''d'' then CHR ''0'' else CHR '' '') 2 (to_string d)) st1
             else if fs_modified st1 = Some (CHR ''O'')
             then facet_put loc [CHR ''%'', CHR ''O'', c] ((fs_tm st1)\<lparr>tm_mday := d\<rparr>) st1 else st1))"

definition fmt_D :: "fields \<Rightarrow> char \<Rightarrow> fmt_state \<Rightarrow> fmt_state \<times> bool" where
  "fmt_D fds c st = (case fs_modified st of
      Some m \<Rightarrow> put_spec m c st
    | None \<Rightarrow> cmd_done (os_put (slash_date (f_ymd fds)) (set_fail (\<not> ymd_ok (f_ymd fds)) st)))"

definition iso_date_text :: "year_month_day \<Rightarrow> string" where
  "iso_date_text ymd = os_right (CHR ''0'') 4 (to_string (year_int (ymd_year ymd))) @ ''-'' @
     zero2 (uint (month_unsigned (ymd_month ymd))) @ ''-'' @
     zero2 (uint (day_unsigned (ymd_day ymd)))"

definition fmt_F :: "fields \<Rightarrow> char \<Rightarrow> fmt_state \<Rightarrow> fmt_state \<times> bool" where
  "fmt_F fds c st = (case fs_modified st of
      Some m \<Rightarrow> put_spec m c st
    | None \<Rightarrow> cmd_done (os_put (iso_date_text (f_ymd fds)) (set_fail (\<not> ymd_ok (f_ymd fds)) st)))"

definition fmt_m :: "std_locale \<Rightarrow> fields \<Rightarrow> char \<Rightarrow> fmt_state \<Rightarrow> fmt_state \<times> bool" where
  "fmt_m loc fds c st =
     (if fs_modified st = Some (CHR ''E'') then put_spec (CHR ''E'') c st
      else
        let st1 = set_fail (\<not> month_ok (ymd_month (f_ymd fds))) st;
            m = uint (month_unsigned (ymd_month (f_ymd fds)))
        in cmd_done (if own_form loc st1 then os_put (lead0 m) st1
             else if fs_modified st1 = Some (CHR ''O'')
             then facet_put loc [CHR ''%'', CHR ''O'', c] ((fs_tm st1)\<lparr>tm_mon := m - 1\<rparr>) st1 else st1))"

definition fmt_y :: "std_locale \<Rightarrow> fields \<Rightarrow> char \<Rightarrow> fmt_state \<Rightarrow> fmt_state \<times> bool" where
  "fmt_y loc fds c st =
     (let st1 = set_fail (\<not> year_ok (ymd_year (f_ymd fds))) st;
          y = year_int (ymd_year (f_ymd fds))
      in cmd_done (if own_form loc st1 then os_put (lead0 (\<bar>y\<bar> mod 100)) st1
           else facet_put loc (''%'' @ (case fs_modified st1 of None \<Rightarrow> [] | Some m \<Rightarrow> [m]) @ [c])
             ((fs_tm st1)\<lparr>tm_year := y - 1900\<rparr>) st1))"

definition fmt_Y :: "std_locale \<Rightarrow> fields \<Rightarrow> char \<Rightarrow> fmt_state \<Rightarrow> fmt_state \<times> bool" where
  "fmt_Y loc fds c st =
     (if fs_modified st = Some (CHR ''O'') then put_spec (CHR ''O'') c st
      else
        let st1 = set_fail (\<not> year_ok (ymd_year (f_ymd fds))) st;
            y = ymd_year (f_ymd fds)
        in cmd_done (if own_form loc st1 then os_put (year_text y) st1
             else if fs_modified st1 = Some (CHR ''E'')
             then facet_put loc [CHR ''%'', CHR ''E'', c] ((fs_tm st1)\<lparr>tm_year := year_int y - 1900\<rparr>) st1
             else st1))"

section \<open>Weeks and days of the year\<close>

text \<open>The Monday of the first week of year \<open>y\<close> by ISO 8601, and the year and week of a day.\<close>

definition iso_week_start :: "year \<Rightarrow> days" where
  "iso_week_start y = ymwl_local_days (ym_slash_wdl (year_slash_month (year_minus y 1) December)
     (weekday_last_ctor Thursday)) + weekday_diff Monday Thursday"

definition iso_year :: "days \<Rightarrow> year" where
  "iso_year ld =
     (let y = ymd_year (year_month_day_local (ld + 3))
      in if ld < iso_week_start y then year_decr y else y)"

definition iso_week :: "days \<Rightarrow> int" where
  "iso_week ld = c_div (ld - iso_week_start (iso_year ld)) 7 + 1"

definition fmt_g :: "fields \<Rightarrow> char \<Rightarrow> fmt_state \<Rightarrow> fmt_state \<times> bool" where
  "fmt_g fds c st = (case fs_modified st of
      Some m \<Rightarrow> put_spec m c st
    | None \<Rightarrow>
        let st1 = set_fail (\<not> ymd_ok (f_ymd fds)) st;
            y = iso_year (ymd_local_days (f_ymd fds))
        in cmd_done (os_put (if c = CHR ''G'' then year_text y else zero2 (\<bar>year_int y\<bar> mod 100)) st1))"

definition put_yday :: "std_locale \<Rightarrow> fields \<Rightarrow> char \<Rightarrow> char \<Rightarrow> fmt_state \<Rightarrow> fmt_state \<times> bool" where
  "put_yday loc fds m c st = (case extract_weekday fds st of (wd, st1) \<Rightarrow>
     let t = (fs_tm st1)\<lparr>tm_year := year_int (ymd_year (f_ymd fds)) - 1900, tm_wday := wd\<rparr>
     in if fs_fail st1 then fmt_return (st1\<lparr>fs_tm := t\<rparr>)
        else cmd_done (facet_put loc [CHR ''%'', m, c] (t\<lparr>tm_yday := day_of_year (f_ymd fds)\<rparr>) st1))"

definition fmt_V :: "std_locale \<Rightarrow> fields \<Rightarrow> char \<Rightarrow> fmt_state \<Rightarrow> fmt_state \<times> bool" where
  "fmt_V loc fds c st =
     (if fs_modified st = Some (CHR ''E'') then put_spec (CHR ''E'') c st
      else
        let st1 = set_fail (\<not> ymd_ok (f_ymd fds)) st
        in if own_form loc st1 then cmd_done (os_put (lead0 (iso_week (ymd_local_days (f_ymd fds)))) st1)
           else if fs_modified st1 = Some (CHR ''O'') then put_yday loc fds (CHR ''O'') c st1
           else cmd_done st1)"

text \<open>The number of the week in the year, weeks beginning on \<open>wd\<close>; 0 before the first one.\<close>

definition week_of_year :: "weekday \<Rightarrow> year_month_day \<Rightarrow> string" where
  "week_of_year wd ymd =
     (let ld = ymd_local_days ymd;
          st = ymw_local_days (mw_slash_year (wdi_slash_month (weekday_index wd 1) January) (ymd_year ymd))
      in if ld < st then ''00'' else lead0 (c_div (ld - st) 7 + 1))"

definition fmt_U :: "std_locale \<Rightarrow> fields \<Rightarrow> weekday \<Rightarrow> char \<Rightarrow> fmt_state \<Rightarrow> fmt_state \<times> bool" where
  "fmt_U loc fds wd c st =
     (if fs_modified st = Some (CHR ''E'') then put_spec (CHR ''E'') c st
      else
        let st1 = set_fail (\<not> ymd_ok (f_ymd fds)) st
        in if own_form loc st1 then cmd_done (os_put (week_of_year wd (f_ymd fds)) st1)
           else if fs_modified st1 = Some (CHR ''O'') then put_yday loc fds (CHR ''O'') c st1
           else cmd_done st1)"

definition fmt_j :: "int \<Rightarrow> fields \<Rightarrow> char \<Rightarrow> fmt_state \<Rightarrow> fmt_state \<times> bool" where
  "fmt_j den fds c st = (case fs_modified st of
      Some m \<Rightarrow> put_spec m c st
    | None \<Rightarrow>
        if ymd_ok (f_ymd fds) \<or> f_has_tod fds
        then
          let doy = (if ymd_ok (f_ymd fds)
            then ymd_local_days (f_ymd fds)
              - ymd_local_days (ym_slash_int (year_slash_month (ymd_year (f_ymd fds)) January) 1) + 1
            else c_div (to_duration den (f_tod fds)) (86400 * dfs_precision den))
          in cmd_done (os_put (os_right (CHR ''0'') 3 (to_string doy)) st)
        else cmd_done (set_fail True st))"

definition fmt_u :: "std_locale \<Rightarrow> fields \<Rightarrow> char \<Rightarrow> fmt_state \<Rightarrow> fmt_state \<times> bool" where
  "fmt_u loc fds c st =
     (if fs_modified st = Some (CHR ''E'') then put_spec (CHR ''E'') c st
      else (case extract_weekday fds st of (wd, st1) \<Rightarrow>
        cmd_done (if own_form loc st1 then os_put (to_string (if wd \<noteq> 0 then wd else 7)) st1
          else if fs_modified st1 = Some (CHR ''O'')
          then facet_put loc [CHR ''%'', CHR ''O'', c] ((fs_tm st1)\<lparr>tm_wday := wd\<rparr>) st1 else st1)))"

definition fmt_w :: "std_locale \<Rightarrow> fields \<Rightarrow> char \<Rightarrow> fmt_state \<Rightarrow> fmt_state \<times> bool" where
  "fmt_w loc fds c st = (case extract_weekday fds st of (wd, st1) \<Rightarrow>
     if fs_fail st1 then fmt_return st1
     else (case fs_modified st1 of
         None \<Rightarrow> cmd_done (os_put (to_string wd) st1)
       | Some m \<Rightarrow> if m \<noteq> CHR ''O'' then put_spec m c st1
           else cmd_done (if loc = None then os_put (to_string wd) st1
             else facet_put loc [CHR ''%'', m, c] ((fs_tm st1)\<lparr>tm_wday := wd\<rparr>) st1)))"

section \<open>Time of day\<close>

definition fmt_H :: "std_locale \<Rightarrow> fields \<Rightarrow> char \<Rightarrow> fmt_state \<Rightarrow> fmt_state \<times> bool" where
  "fmt_H loc fds c st =
     (if fs_modified st = Some (CHR ''E'') then put_spec (CHR ''E'') c st
      else
        let st1 = put_negative (set_fail (\<not> f_has_tod fds) st);
            h = hours (f_tod fds)
        in cmd_done (if own_form loc st1 then os_put (lead0 (if c = CHR ''I'' then make12 h else h)) st1
             else if fs_modified st1 = Some (CHR ''O'')
             then facet_put loc [CHR ''%'', CHR ''O'', c] ((fs_tm st1)\<lparr>tm_hour := h\<rparr>) st1 else st1))"

definition fmt_M :: "std_locale \<Rightarrow> fields \<Rightarrow> char \<Rightarrow> fmt_state \<Rightarrow> fmt_state \<times> bool" where
  "fmt_M loc fds c st =
     (if fs_modified st = Some (CHR ''E'') then put_spec (CHR ''E'') c st
      else
        let st1 = put_negative (set_fail (\<not> f_has_tod fds) st);
            m = minutes (f_tod fds)
        in cmd_done (if own_form loc st1 then os_put (lead0 m) st1
             else if fs_modified st1 = Some (CHR ''O'')
             then facet_put loc [CHR ''%'', CHR ''O'', c] ((fs_tm st1)\<lparr>tm_min := m\<rparr>) st1 else st1))"

definition fmt_S :: "std_locale \<Rightarrow> int \<Rightarrow> fields \<Rightarrow> char \<Rightarrow> fmt_state \<Rightarrow> fmt_state \<times> bool" where
  "fmt_S loc den fds c st =
     (if fs_modified st = Some (CHR ''E'') then put_spec (CHR ''E'') c st
      else
        let st1 = put_negative (set_fail (\<not> f_has_tod fds) st)
        in cmd_done (if own_form loc st1 then os_put (dfs_print den (tod_s (f_tod fds))) st1
             else if fs_modified st1 = Some (CHR ''O'')
             then facet_put loc [CHR ''%'', CHR ''O'', c]
               ((fs_tm st1)\<lparr>tm_sec := dfs_s (tod_s (f_tod fds))\<rparr>) st1
             else st1))"

definition ampm_text :: "int \<Rightarrow> string" where
  "ampm_text h = name_at ampm_names (if is_am h then 0 else 1)"

definition fmt_p :: "std_locale \<Rightarrow> fields \<Rightarrow> char \<Rightarrow> fmt_state \<Rightarrow> fmt_state \<times> bool" where
  "fmt_p loc fds c st = (case fs_modified st of
      Some m \<Rightarrow> put_spec m c st
    | None \<Rightarrow>
        let st1 = set_fail (\<not> f_has_tod fds) st
        in cmd_done (if loc = None then os_put (ampm_text (hours (f_tod fds))) st1
             else facet_put loc [CHR ''%'', c] ((fs_tm st1)\<lparr>tm_hour := hours (f_tod fds)\<rparr>) st1))"

text \<open>Units: the period \<open>num / den\<close> of a duration, in lowest terms.\<close>

definition si_prefix :: "int \<Rightarrow> int \<Rightarrow> string option" where
  "si_prefix num den =
     (if num = 1 then
        (if den = 10 ^ 18 then Some ''a'' else if den = 10 ^ 15 then Some ''f''
         else if den = 10 ^ 12 then Some ''p'' else if den = 10 ^ 9 then Some ''n''
         else if den = 10 ^ 6 then Some [CHR 0xC2, CHR 0xB5] else if den = 10 ^ 3 then Some ''m''
         else if den = 10 ^ 2 then Some ''c'' else if den = 10 then Some ''d'' else None)
      else if den = 1 then
        (if num = 10 then Some ''da'' else if num = 10 ^ 2 then Some ''h''
         else if num = 10 ^ 3 then Some ''k'' else if num = 10 ^ 6 then Some ''M''
         else if num = 10 ^ 9 then Some ''G'' else if num = 10 ^ 12 then Some ''T''
         else if num = 10 ^ 15 then Some ''P'' else if num = 10 ^ 18 then Some ''E'' else None)
      else None)"

definition msl :: "int \<Rightarrow> int \<Rightarrow> string" where
  "msl num den = (case si_prefix num den of
      Some p \<Rightarrow> p
    | None \<Rightarrow> if den \<noteq> 1 then ''['' @ to_string num @ ''/'' @ to_string den @ '']''
        else ''['' @ to_string num @ '']'')"

definition get_units :: "int \<Rightarrow> int \<Rightarrow> string" where
  "get_units num den =
     (if (num, den) = (1, 1) then ''s'' else if (num, den) = (3600, 1) then ''h''
      else if (num, den) = (60, 1) then ''min'' else if (num, den) = (86400, 1) then ''d''
      else msl num den @ ''s'')"

definition fmt_Q :: "int \<Rightarrow> fields \<Rightarrow> char \<Rightarrow> fmt_state \<Rightarrow> fmt_state \<times> bool" where
  "fmt_Q den fds c st = (case fs_modified st of
      Some m \<Rightarrow> put_spec m c st
    | None \<Rightarrow>
        let st1 = set_fail (\<not> f_has_tod fds) st
        in cmd_done (os_put (if c = CHR ''q'' then get_units 1 (dfs_precision den)
             else to_string (to_duration den (f_tod fds))) st1))"

definition clock_text :: "hh_mm_ss \<Rightarrow> string" where
  "clock_text tod = zero2 (make12 (hours tod)) @ '':'' @ zero2 (minutes tod) @ '':'' @
     zero2 (seconds tod) @ '' '' @ ampm_text (hours tod)"

definition fmt_r :: "std_locale \<Rightarrow> int \<Rightarrow> fields \<Rightarrow> char \<Rightarrow> fmt_state \<Rightarrow> fmt_state \<times> bool" where
  "fmt_r loc den fds c st = (case fs_modified st of
      Some m \<Rightarrow> put_spec m c st
    | None \<Rightarrow>
        let st1 = set_fail (\<not> f_has_tod fds) st
        in cmd_done (if loc = None then os_put (clock_text (whole_seconds den (f_tod fds))) st1
             else facet_put loc [CHR ''%'', c] ((fs_tm st1)\<lparr>tm_hour := hours (f_tod fds),
               tm_min := minutes (f_tod fds), tm_sec := seconds (f_tod fds)\<rparr>) st1))"

definition fmt_R :: "fields \<Rightarrow> char \<Rightarrow> fmt_state \<Rightarrow> fmt_state \<times> bool" where
  "fmt_R fds c st = (case fs_modified st of
      Some m \<Rightarrow> put_spec m c st
    | None \<Rightarrow>
        let st1 = set_fail (\<not> f_has_tod fds) st
        in cmd_done (os_put (lead0 (hours (f_tod fds)) @ '':'' @ lead0 (minutes (f_tod fds))) st1))"

definition fmt_T :: "int \<Rightarrow> fields \<Rightarrow> char \<Rightarrow> fmt_state \<Rightarrow> fmt_state \<times> bool" where
  "fmt_T den fds c st = (case fs_modified st of
      Some m \<Rightarrow> put_spec m c st
    | None \<Rightarrow>
        let st1 = set_fail (\<not> f_has_tod fds) st
        in cmd_done (os_put (hh_mm_ss_text den (f_tod fds)) st1))"

definition fmt_X :: "std_locale \<Rightarrow> int \<Rightarrow> fields \<Rightarrow> char \<Rightarrow> fmt_state \<Rightarrow> fmt_state \<times> bool" where
  "fmt_X loc den fds c st =
     (if fs_modified st = Some (CHR ''O'') then put_spec (CHR ''O'') c st
      else
        let st1 = set_fail (\<not> f_has_tod fds) st;
            t = tm_zero\<lparr>tm_sec := seconds (f_tod fds), tm_min := minutes (f_tod fds),
              tm_hour := hours (f_tod fds)\<rparr>
        in cmd_done (if loc = None then os_put (hh_mm_ss_text den (f_tod fds)) st1
             else facet_put loc
               (''%'' @ (if fs_modified st1 = Some (CHR ''E'') then ''E'' else []) @ [c]) t st1))"

section \<open>Characters and time zone\<close>

definition fmt_white :: "char \<Rightarrow> fmt_state \<Rightarrow> fmt_state \<times> bool" where
  "fmt_white c st = (case fs_modified st of
      Some m \<Rightarrow> put_spec m c st
    | None \<Rightarrow> cmd_done (os_put [if c = CHR ''n'' then CHR 0x0A else CHR 0x09] st))"

definition offset_text :: "int \<Rightarrow> bool \<Rightarrow> string" where
  "offset_text offset colon =
     (let m = c_div offset 60;
          neg = m < 0;
          m = duration_abs m;
          h = c_div m 60;
          m = m - h * 60
      in (if neg then ''-'' else ''+'') @ lead0 h @ (if colon then '':'' else []) @ lead0 m)"

definition fmt_z :: "int option \<Rightarrow> fmt_state \<Rightarrow> fmt_state \<times> bool" where
  "fmt_z offset st = (case offset of
      None \<Rightarrow> fmt_return (set_fail True st)
    | Some x \<Rightarrow> cmd_done (os_put (offset_text x (fs_modified st \<noteq> None)) st))"

definition fmt_Z :: "string option \<Rightarrow> char \<Rightarrow> fmt_state \<Rightarrow> fmt_state \<times> bool" where
  "fmt_Z abbrev c st = (case fs_modified st of
      Some m \<Rightarrow> put_spec m c st
    | None \<Rightarrow> (case abbrev of
        None \<Rightarrow> fmt_return (set_fail True st)
      | Some a \<Rightarrow> cmd_done (os_put a st)))"

definition fmt_modifier :: "char \<Rightarrow> fmt_state \<Rightarrow> fmt_state \<times> bool" where
  "fmt_modifier c st = (case fs_modified st of
      None \<Rightarrow> (st\<lparr>fs_modified := Some c\<rparr>, True)
    | Some m \<Rightarrow> put_spec m c st)"

definition fmt_percent :: "fmt_state \<Rightarrow> fmt_state \<times> bool" where
  "fmt_percent st =
     (if fs_command st then (case fs_modified st of
         None \<Rightarrow> cmd_done (os_put ''%'' st)
       | Some m \<Rightarrow> put_spec m (CHR ''%'') st)
      else (st\<lparr>fs_command := True\<rparr>, True))"

definition fmt_default :: "char \<Rightarrow> fmt_state \<Rightarrow> fmt_state \<times> bool" where
  "fmt_default c st =
     cmd_done (os_put ((if fs_command st then ''%'' else []) @
       (case fs_modified st of None \<Rightarrow> [] | Some m \<Rightarrow> [m]) @ [c]) st)"

section \<open>The loop over the pattern\<close>

text \<open>
  The letters that follow a percent sign; without one a letter stands for itself. A pattern ends
  with its first zero character.
\<close>

definition fmt_command ::
    "std_locale \<Rightarrow> int \<Rightarrow> fields \<Rightarrow> string option \<Rightarrow> int option \<Rightarrow> char \<Rightarrow> (fmt_state \<Rightarrow> fmt_state \<times> bool) option" where
  "fmt_command loc den fds abbrev offset c =
     (if c \<in> set ''aA'' then Some (fmt_a loc fds c)
      else if c \<in> set ''bBh'' then Some (fmt_b loc fds c)
      else if c \<in> set ''cx'' then Some (fmt_c loc den fds c)
      else if c = CHR ''C'' then Some (fmt_C loc fds c)
      else if c \<in> set ''de'' then Some (fmt_d loc fds c)
      else if c = CHR ''D'' then Some (fmt_D fds c)
      else if c = CHR ''F'' then Some (fmt_F fds c)
      else if c \<in> set ''gG'' then Some (fmt_g fds c)
      else if c \<in> set ''HI'' then Some (fmt_H loc fds c)
      else if c = CHR ''j'' then Some (fmt_j den fds c)
      else if c = CHR ''m'' then Some (fmt_m loc fds c)
      else if c = CHR ''M'' then Some (fmt_M loc fds c)
      else if c \<in> set ''nt'' then Some (fmt_white c)
      else if c = CHR ''p'' then Some (fmt_p loc fds c)
      else if c \<in> set ''Qq'' then Some (fmt_Q den fds c)
      else if c = CHR ''r'' then Some (fmt_r loc den fds c)
      else if c = CHR ''R'' then Some (fmt_R fds c)
      else if c = CHR ''S'' then Some (fmt_S loc den fds c)
      else if c = CHR ''T'' then Some (fmt_T den fds c)
      else if c = CHR ''u'' then Some (fmt_u loc fds c)
      else if c = CHR ''U'' then Some (fmt_U loc fds Sunday c)
      else if c = CHR ''V'' then Some (fmt_V loc fds c)
      else if c = CHR ''w'' then Some (fmt_w loc fds c)
      else if c = CHR ''W'' then Some (fmt_U loc fds Monday c)
      else if c = CHR ''X'' then Some (fmt_X loc den fds c)
      else if c = CHR ''y'' then Some (fmt_y loc fds c)
      else if c = CHR ''Y'' then Some (fmt_Y loc fds c)
      else if c = CHR ''z'' then Some (fmt_z offset)
      else if c = CHR ''Z'' then Some (fmt_Z abbrev c)
      else if c \<in> set ''EO'' then Some (fmt_modifier c)
      else None)"

definition fmt_char ::
    "std_locale \<Rightarrow> int \<Rightarrow> fields \<Rightarrow> string option \<Rightarrow> int option \<Rightarrow> char \<Rightarrow> fmt_state \<Rightarrow> fmt_state \<times> bool" where
  "fmt_char loc den fds abbrev offset c st =
     (if c = CHR ''%'' then fmt_percent st
      else (case fmt_command loc den fds abbrev offset c of
          None \<Rightarrow> fmt_default c st
        | Some f \<Rightarrow> if fs_command st then f st else (os_put [c] st, True)))"

definition fmt_end :: "fmt_state \<Rightarrow> fmt_state" where
  "fmt_end st = os_put ((if fs_command st then ''%'' else []) @
     (case fs_modified st of None \<Rightarrow> [] | Some m \<Rightarrow> [m])) st"

fun fmt_loop ::
    "std_locale \<Rightarrow> int \<Rightarrow> fields \<Rightarrow> string option \<Rightarrow> int option \<Rightarrow> string \<Rightarrow> fmt_state \<Rightarrow> fmt_state" where
  "fmt_loop loc den fds abbrev offset [] st = fmt_end st"
| "fmt_loop loc den fds abbrev offset (c # cs) st =
     (if c = CHR 0x00 then fmt_end st
      else (case fmt_char loc den fds abbrev offset c st of
        (st', go_on) \<Rightarrow> if go_on then fmt_loop loc den fds abbrev offset cs st' else st'))"

definition to_stream ::
    "std_locale \<Rightarrow> int \<Rightarrow> string \<Rightarrow> fields \<Rightarrow> string option \<Rightarrow> int option \<Rightarrow> fmt_state" where
  "to_stream loc den fmt fds abbrev offset = fmt_loop loc den fds abbrev offset fmt
     \<lparr>fs_out = [], fs_fail = False, fs_tm = tm_zero,
      fs_negative = (f_has_tod fds \<and> to_duration den (f_tod fds) < 0),
      fs_command = False, fs_modified = None\<rparr>"

section \<open>The types that can be formatted\<close>

definition year_stream :: "std_locale \<Rightarrow> string \<Rightarrow> year \<Rightarrow> fmt_state" where
  "year_stream loc fmt y = to_stream loc 1 fmt (fields_ymd 1 (ym_slash_int (year_slash_int y 0) 0)) None None"

definition month_stream :: "std_locale \<Rightarrow> string \<Rightarrow> month \<Rightarrow> fmt_state" where
  "month_stream loc fmt m =
     to_stream loc 1 fmt (fields_ymd 1 (md_slash_year (month_slash_int m 0) nanyear)) None None"

definition day_stream :: "std_locale \<Rightarrow> string \<Rightarrow> day \<Rightarrow> fmt_state" where
  "day_stream loc fmt d =
     to_stream loc 1 fmt (fields_ymd 1 (md_slash_year (day_slash_int d 0) nanyear)) None None"

definition weekday_stream :: "std_locale \<Rightarrow> string \<Rightarrow> weekday \<Rightarrow> fmt_state" where
  "weekday_stream loc fmt wd = to_stream loc 1 fmt (fields_wd 1 wd) None None"

definition year_month_stream :: "std_locale \<Rightarrow> string \<Rightarrow> year_month \<Rightarrow> fmt_state" where
  "year_month_stream loc fmt ym = to_stream loc 1 fmt (fields_ymd 1 (ym_slash_int ym 0)) None None"

definition month_day_stream :: "std_locale \<Rightarrow> string \<Rightarrow> month_day \<Rightarrow> fmt_state" where
  "month_day_stream loc fmt md = to_stream loc 1 fmt (fields_ymd 1 (md_slash_year md nanyear)) None None"

definition ymd_stream :: "std_locale \<Rightarrow> string \<Rightarrow> year_month_day \<Rightarrow> fmt_state" where
  "ymd_stream loc fmt ymd = to_stream loc 1 fmt (fields_ymd 1 ymd) None None"

definition duration_stream :: "std_locale \<Rightarrow> int \<Rightarrow> string \<Rightarrow> int \<Rightarrow> fmt_state" where
  "duration_stream loc den fmt d =
     to_stream loc den fmt (fields_tod den (hh_mm_ss_ctor den d)) None None"

text \<open>The date and the time of day of a point in time: truncation, corrected before the epoch.\<close>

definition point_fields :: "int \<Rightarrow> int \<Rightarrow> fields" where
  "point_fields den tp =
     (let day = 86400 * den;
          ld = duration_trunc day tp
      in if ld * day \<le> tp
         then fields_ymd_tod den (year_month_day_sys ld) (hh_mm_ss_ctor den (tp - ld * day))
         else fields_ymd_tod den (year_month_day_sys (ld - 1))
           (hh_mm_ss_ctor den (day - (ld * day - tp))))"

definition local_time_stream ::
    "std_locale \<Rightarrow> int \<Rightarrow> string \<Rightarrow> int \<Rightarrow> string option \<Rightarrow> int option \<Rightarrow> fmt_state" where
  "local_time_stream loc den fmt tp abbrev offset =
     to_stream loc den fmt (point_fields den tp) abbrev offset"

definition sys_time_stream :: "std_locale \<Rightarrow> int \<Rightarrow> string \<Rightarrow> int \<Rightarrow> fmt_state" where
  "sys_time_stream loc den fmt tp =
     to_stream loc den fmt (point_fields den tp) (Some ''UTC'') (Some 0)"

text \<open>\<open>format\<close> writes to a string stream that throws as soon as the fail bit is set.\<close>

definition format_result :: "fmt_state \<Rightarrow> string result" where
  "format_result st = (if fs_fail st then Inl (std_ios_failure []) else Inr (fs_out st))"

end
