(* ===== verification/IsoWeek.thy ===== *)
theory IsoWeek
  imports CalFormat
begin

text \<open>
  Years and weeks: the year of a day number lies between two first days of January, and the year
  and the week that \<open>%G\<close> and \<open>%V\<close> print are those of ISO 8601: the year of the Thursday of the
  week, and the number of Thursdays of that year up to it. The same for the weeks of \<open>%U\<close> and \<open>%W\<close>.
\<close>

section \<open>Years\<close>

definition jan1 :: "int \<Rightarrow> int" where
  "jan1 y = days_civil (y, 1, 1)"

lemma valid_jan1 [simp]: "valid_date (y, 1, 1)"
  by (simp add: valid_date_def month_length_def)

lemma jan1_mono: "y < z \<Longrightarrow> jan1 y < jan1 z"
  by (simp add: jan1_def days_civil_less_iff)

lemma jan1_mono_le: "y \<le> z \<Longrightarrow> jan1 y \<le> jan1 z"
  using jan1_mono [of y z] by (cases "y = z") auto

lemma year_of_days: "fst (civil_days n) = y \<longleftrightarrow> jan1 y \<le> n \<and> n < jan1 (y + 1)"
proof -
  obtain Y M D where c: "civil_days n = (Y, M, D)" by (cases "civil_days n") auto
  have v: "valid_date (Y, M, D)" and n: "days_civil (Y, M, D) = n"
    using civil_days_correct [of n] c by simp_all
  have "\<not> (Y, M, D) < (Y, 1, 1)" and less: "(Y, M, D) < (Y + 1, 1, 1)"
    using v by (auto simp: valid_date_def)
  then have b: "jan1 Y \<le> n" "n < jan1 (Y + 1)"
    using days_civil_less_iff [OF v valid_jan1 [of Y]] days_civil_less_iff [OF v valid_jan1 [of "Y + 1"]]
    by (auto simp: jan1_def n not_less)
  show ?thesis
  proof
    assume "fst (civil_days n) = y"
    with b c show "jan1 y \<le> n \<and> n < jan1 (y + 1)" by simp
  next
    assume "jan1 y \<le> n \<and> n < jan1 (y + 1)"
    with b have "\<not> Y < y" "\<not> y < Y"
      using jan1_mono_le [of "Y + 1" y] jan1_mono_le [of "y + 1" Y] by auto
    with c show "fst (civil_days n) = y" by simp
  qed
qed

lemma december_end: "days_civil (y, 12, 31) = jan1 (y + 1) - 1"
proof -
  have "days_civil (next_date (y, 12, 31)) = days_civil (y, 12, 31) + 1"
    by (rule days_civil_next) (simp add: valid_date_def month_length_def)
  then show ?thesis by (simp add: next_date_def month_length_def jan1_def)
qed

lemma year_length: "365 \<le> jan1 (y + 1) - jan1 y \<and> jan1 (y + 1) - jan1 y \<le> 366"
  using era_step [of "y - 1"]
  by (cases "leap y"; simp add: jan1_def days_civil_def Let_def; linarith)

section \<open>The Monday of week one\<close>

text \<open>The first day of the year that is \<open>k\<close> days after a Thursday, counted modulo 7.\<close>

definition first_weekday :: "int \<Rightarrow> int \<Rightarrow> int" where
  "first_weekday k y = jan1 y + (k - jan1 y) mod 7"

lemma first_weekday_facts:
  "jan1 y \<le> first_weekday k y" "first_weekday k y < jan1 y + 7" "(first_weekday k y - k) mod 7 = 0"
proof -
  show "jan1 y \<le> first_weekday k y" "first_weekday k y < jan1 y + 7"
    by (simp_all add: first_weekday_def)
  have "first_weekday k y - k = (k - jan1 y) mod 7 - (k - jan1 y)" by (simp add: first_weekday_def)
  also have "\<dots> = - ((k - jan1 y) div 7) * 7"
    using minus_mod_eq_div_mult [of "k - jan1 y" 7] by linarith
  finally show "(first_weekday k y - k) mod 7 = 0" by simp
qed

lemma Thursday_rep: "uint (wd_rep Thursday) = 4" "uint (wd_rep Monday) = 1" "uint (wd_rep Sunday) = 0"
  by (simp_all add: Thursday_def Monday_def Sunday_def weekday_ctor_def)

lemma december_days:
  assumes "- 32766 \<le> year_int y"
  shows "ymdl_sys_days (ym_slash_last (year_slash_month (year_minus y 1) December) ()) =
    jan1 (year_int y) - 1"
proof -
  have y: "year_int (year_minus y 1) = year_int y - 1"
    using assms year_int_bounds [of y] by (simp add: year_minus_def)
  have m: "uint (month_rep December) = 12" by (simp add: December_def month_ctor_def)
  define x where "x = ym_slash_last (year_slash_month (year_minus y 1) December) ()"
  have f: "ymdl_month x = December" "ymdl_year x = year_minus y 1"
    by (simp_all add: x_def ym_slash_last_def year_slash_month_def year_month_ctor_def
      year_month_day_last_ctor_def month_day_last_ctor_def ymdl_month_def)
  have "uint (day_rep (ymdl_day x)) = 31"
    using ymdl_day_length [of x] by (simp add: f m ok_iff month_length_def)
  then have "ymdl_sys_days x = days_civil (year_int y - 1, 12, 31)"
    by (simp add: ymdl_sys_days_def ymd_sys_days_def f ym_slash_day_def year_slash_month_def
      year_month_ctor_def year_month_day_ctor_def to_days_civil ymd_ints_def y m ok_iff)
  then show ?thesis using december_end [of "year_int y - 1"] by (simp add: x_def)
qed

lemma mult7_le: "(a :: int) mod 7 = 0 \<Longrightarrow> b mod 7 = 0 \<Longrightarrow> a < b + 7 \<Longrightarrow> a \<le> b"
  by presburger

lemma first_weekday_unique:
  assumes "jan1 y \<le> n" and "n < jan1 y + 7" and "(n - k) mod 7 = 0"
  shows "n = first_weekday k y"
proof -
  have "n - k \<le> first_weekday k y - k" "first_weekday k y - k \<le> n - k"
    using assms first_weekday_facts [where y = y and k = k] by (intro mult7_le; simp)+
  then show ?thesis by simp
qed

lemma iso_week_start_eq:
  assumes "- 32766 \<le> year_int y" and "day_range (jan1 (year_int y))" and "day_range (jan1 (year_int y) - 8)"
  shows "iso_week_start y = first_weekday 0 (year_int y) - 3"
proof -
  define x where "x = ym_slash_wdl (year_slash_month (year_minus y 1) December) (weekday_last_ctor Thursday)"
  have f: "ymwl_year x = year_minus y 1" "ymwl_month x = December" "ymwl_weekday x = Thursday"
    "ymwl_wdl x = weekday_last_ctor Thursday"
    by (simp_all add: x_def ym_slash_wdl_def year_slash_month_def year_month_ctor_def
      year_month_weekday_last_ctor_def ymwl_weekday_def weekday_last_ctor_def)
  have "year_int (year_minus y 1) = year_int y - 1"
    using assms(1) year_int_bounds [of y] by (simp add: year_minus_def)
  then have ok: "ymwl_ok x"
    using assms(1) by (simp add: ymwl_ok_def f ok_iff weekday_last_ok_def weekday_last_ctor_def
      Thursday_rep December_def month_ctor_def)
  let ?T = "ymwl_to_days x"
  have l: "ymdl_sys_days (ym_slash_last (year_slash_month (ymwl_year x) (ymwl_month x)) ()) =
      jan1 (year_int y) - 1"
    using december_days [OF assms(1)] by (simp add: f)
  have r: "day_range (jan1 (year_int y) - 1)" "day_range (jan1 (year_int y) - 1 - 7)"
    using assms(2,3) by (simp_all add: day_range_def)
  note T = last_of_month_days [OF ok, unfolded l, OF r]
  have "day_range ?T" using T(1,2) r by (simp add: day_range_def)
  from weekday_sys_mod [OF this] have "(?T + 4) mod 7 = 4" by (simp add: T(3) f Thursday_rep)
  then have "(?T + 7 - 0) mod 7 = 0" by presburger
  then have "?T + 7 = first_weekday 0 (year_int y)"
    using T(1,2) by (intro first_weekday_unique) simp_all
  moreover have "iso_week_start y = ?T + 4"
    by (simp add: iso_week_start_def ymwl_local_days_def x_def weekday_diff_mod Thursday_rep)
  ultimately show ?thesis by simp
qed

section \<open>ISO weeks\<close>

text \<open>The Thursday of the week, beginning on Monday, of a day.\<close>

definition thursday_of :: "int \<Rightarrow> int" where
  "thursday_of n = n - (n + 3) mod 7 + 3"

lemma from_days_year: "day_range n \<Longrightarrow> year_int (ymd_year (from_days n)) = fst (civil_days n)"
  using ymd_ints_from_days [of n] by (cases "civil_days n") (simp add: ymd_ints_def)

lemma jan1_range:
  assumes "day_range (n - 800)" and "day_range (n + 3)" and "fst (civil_days m) = y"
    and "n - 400 \<le> m" and "m \<le> n + 3"
  shows "day_range (jan1 y)" "day_range (jan1 y - 8)" "- 32766 \<le> y" "y \<le> 32767"
proof -
  have j: "jan1 y \<le> m" "m < jan1 (y + 1)" "jan1 (y + 1) \<le> jan1 y + 366"
    using year_of_days [of m y] assms(3) year_length [of y] by auto
  then show "day_range (jan1 y)" "day_range (jan1 y - 8)"
    using assms by (auto simp: day_range_def)
  have r: "day_range m" "day_range (jan1 y - 8)" using assms j by (auto simp: day_range_def)
  obtain M D where c: "civil_days m = (y, M, D)" using assms(3) by (cases "civil_days m") auto
  show "y \<le> 32767" using civil_year_range(2) [OF c r(1)] .
  have "fst (civil_days (jan1 y - 1)) = y - 1"
    using year_of_days [of "jan1 y - 1" "y - 1"] year_length [of "y - 1"] by auto
  then obtain M' D' where c': "civil_days (jan1 y - 1) = (y - 1, M', D')"
    by (cases "civil_days (jan1 y - 1)") auto
  have "day_range (jan1 y - 1)" using r assms j by (auto simp: day_range_def)
  from civil_year_range(1) [OF c' this] show "- 32766 \<le> y" by simp
qed

lemma year_decr_int: "- 32768 < year_int y \<Longrightarrow> year_int (year_decr y) = year_int y - 1"
proof -
  assume "- 32768 < year_int y"
  moreover have "year_decr y = year_ctor (year_int y - 1)"
    by (cases y) (simp add: year_decr_def year_ctor_def year_int_def)
  ultimately show ?thesis using year_int_bounds [of y] by simp
qed

lemma week_count:
  fixes F :: int
  assumes "J \<le> F" and "F < J + 7" and "F mod 7 = 0"
  shows "(n - (F - 3)) div 7 = (thursday_of n - J) div 7"
proof -
  define a where "a = (n + 3) div 7"
  define b where "b = F div 7"
  have F: "F = 7 * b" using assms(3) by (auto simp: b_def)
  have n: "n + 3 = 7 * a + (n + 3) mod 7" by (simp add: a_def)
  have "(n - (F - 3)) div 7 = a - b"
    using n F by (intro int_div_pos_eq [of _ _ _ "(n + 3) mod 7"]) auto
  moreover have "(thursday_of n - J) div 7 = a - b"
    using n F assms(1,2) by (intro int_div_pos_eq [of _ _ _ "F - J"]) (auto simp: thursday_of_def)
  ultimately show ?thesis by simp
qed

lemma iso_year_correct:
  assumes "day_range (n - 800)" and "day_range (n + 3)"
  shows "year_int (iso_year n) = fst (civil_days (thursday_of n))"
    and "iso_week n = (thursday_of n - jan1 (year_int (iso_year n))) div 7 + 1"
proof -
  let ?y0 = "ymd_year (from_days (n + 3))" and ?th = "thursday_of n"
  define Y where "Y = fst (civil_days (n + 3))"
  have y0: "year_int ?y0 = Y" using from_days_year [OF assms(2)] by (simp add: Y_def)
  have J: "jan1 Y \<le> n + 3" "n + 3 < jan1 (Y + 1)"
    using year_of_days [of "n + 3" Y] by (simp_all add: Y_def)
  note r = jan1_range [OF assms Y_def [symmetric]]
  have S: "iso_week_start ?y0 = first_weekday 0 Y - 3"
    using iso_week_start_eq [of ?y0] r y0 by simp
  have th: "(?th - 0) mod 7 = 0" "n - 3 \<le> ?th" "?th \<le> n + 3" "n - ?th \<le> 3"
    by (simp_all add: thursday_of_def) presburger+
  note F = first_weekday_facts [where y = Y and k = 0]
  have "year_int (iso_year n) = fst (civil_days ?th) \<and>
    iso_week n = (?th - jan1 (year_int (iso_year n))) div 7 + 1"
  proof (cases "n < first_weekday 0 Y - 3")
    case False
    then have y: "iso_year n = ?y0" by (simp add: iso_year_def year_month_day_local_def S)
    have "first_weekday 0 Y \<le> ?th" using False th F by (intro mult7_le) simp_all
    then have "fst (civil_days ?th) = Y"
      using F(1) J th(3) by (simp add: year_of_days)
    moreover have "(n - (first_weekday 0 Y - 3)) div 7 = (?th - jan1 Y) div 7"
      using F by (intro week_count) simp_all
    ultimately show ?thesis
      using False by (simp add: y y0 iso_week_def S c_div_nonneg)
  next
    case True
    then have y: "iso_year n = year_decr ?y0" by (simp add: iso_year_def year_month_day_local_def S)
    have y1: "year_int (year_decr ?y0) = Y - 1"
      using r(3) y0 year_decr_int [of ?y0] by simp
    have L: "jan1 (Y - 1) + 365 \<le> jan1 Y" using year_length [of "Y - 1"] by simp
    have "fst (civil_days (jan1 Y - 1)) = Y - 1" using L by (simp add: year_of_days)
    moreover have "n - 400 \<le> jan1 Y - 1" "jan1 Y - 1 \<le> n + 3" using J True F by simp_all
    ultimately have r': "day_range (jan1 (Y - 1))" "day_range (jan1 (Y - 1) - 8)" "- 32766 \<le> Y - 1"
      using jan1_range [OF assms, of "jan1 Y - 1" "Y - 1"] by auto
    have S': "iso_week_start (year_decr ?y0) = first_weekday 0 (Y - 1) - 3"
      using iso_week_start_eq [of "year_decr ?y0"] r' y1 by simp
    note F' = first_weekday_facts [where y = "Y - 1" and k = 0]
    have "(first_weekday 0 Y - 7) mod 7 = 0" using F(3) by presburger
    then have "?th \<le> first_weekday 0 Y - 7" using True th by (intro mult7_le) simp_all
    then have t: "?th < jan1 Y" "jan1 Y - 6 \<le> ?th" using F(2) J(1) th(2) by simp_all
    then have "fst (civil_days ?th) = Y - 1" using L by (simp add: year_of_days)
    moreover have "(n - (first_weekday 0 (Y - 1) - 3)) div 7 = (?th - jan1 (Y - 1)) div 7"
      using F' by (intro week_count) simp_all
    moreover have "0 \<le> n - (first_weekday 0 (Y - 1) - 3)" using t F' th L by simp
    ultimately show ?thesis by (simp add: y y1 iso_week_def S' c_div_nonneg)
  qed
  then show "year_int (iso_year n) = fst (civil_days ?th)"
    "iso_week n = (?th - jan1 (year_int (iso_year n))) div 7 + 1" by simp_all
qed

lemma iso_week_bounds:
  assumes "day_range (n - 800)" and "day_range (n + 3)"
  shows "1 \<le> iso_week n" "iso_week n \<le> 53"
proof -
  let ?th = "thursday_of n" and ?y = "fst (civil_days (thursday_of n))"
  have "jan1 ?y \<le> ?th" "?th < jan1 (?y + 1)" using year_of_days [of ?th ?y] by simp_all
  then have "0 \<le> ?th - jan1 ?y" "?th - jan1 ?y \<le> 366" using year_length [of ?y] by simp_all
  then have "0 \<le> (?th - jan1 ?y) div 7" "(?th - jan1 ?y) div 7 \<le> 366 div 7"
    by (auto intro: zdiv_mono1)
  with iso_year_correct [OF assms] show "1 \<le> iso_week n" "iso_week n \<le> 53" by simp_all
qed

end
