(* ===== verification/FormatRef.thy ===== *)
theory FormatRef
  imports IsoWeek
begin

text \<open>
  What formatting a point in time prints, by the calendar on integers: \<open>conv_text\<close> gives the text
  of each conversion, in the terms of \<open>strftime\<close> and the classic locale, years before 0 with their
  sign in front and the digits of their absolute value behind it, and the loop of
  \<open>to_stream\<close> over a pattern prints the plain characters and those texts one after the other.
\<close>

section \<open>The reference\<close>

definition day_of :: "nat \<Rightarrow> int \<Rightarrow> int" where
  "day_of k tp = tp div (86400 * 10 ^ k)"

definition second_of_day :: "nat \<Rightarrow> int \<Rightarrow> int" where
  "second_of_day k tp = tp mod (86400 * 10 ^ k) div 10 ^ k"

definition two :: "int \<Rightarrow> string" where
  "two i = (if i < 10 then ''0'' else []) @ to_string i"

definition clock12 :: "int \<Rightarrow> int" where
  "clock12 h = (h + 11) mod 12 + 1"

text \<open>Weeks of the year by the formula of \<open>strftime\<close>; \<open>k\<close> are the days since the week began.\<close>

definition week_number :: "int \<Rightarrow> int \<Rightarrow> int" where
  "week_number yday k = (yday + 7 - k) div 7"

definition seconds_text :: "nat \<Rightarrow> int \<Rightarrow> string" where
  "seconds_text k tp = two (second_of_day k tp mod 60) @
     (if k = 0 then [] else ''.'' @ os_right (CHR ''0'') k (to_string (tp mod 10 ^ k)))"

definition year4 :: "int \<Rightarrow> string" where
  "year4 y = (if y < 0 then ''-'' else []) @ os_right (CHR ''0'') 4 (to_string \<bar>y\<bar>)"

lemma year4_nonneg: "0 \<le> y \<Longrightarrow> year4 y = os_right (CHR ''0'') 4 (to_string y)"
  by (simp add: year4_def)

text \<open>The century is rounded down.\<close>

definition century :: "int \<Rightarrow> string" where
  "century y = (if y < 0 then ''-'' else []) @ two \<bar>y div 100\<bar>"

text \<open>The last two digits of a year.\<close>

definition year2 :: "int \<Rightarrow> string" where
  "year2 y = two (\<bar>y\<bar> mod 100)"

text \<open>The unit of a clock whose seconds have \<open>k\<close> digits: the SI prefix, where there is one.\<close>

definition clock_unit :: "nat \<Rightarrow> string" where
  "clock_unit k = (case map_of [(0, []), (1, ''d''), (2, ''c''), (3, ''m''), (6, [CHR 0xC2, CHR 0xB5]),
       (9, ''n''), (12, ''p''), (15, ''f''), (18, ''a'')] k of
     Some prefix \<Rightarrow> prefix
   | None \<Rightarrow> ''[1/1'' @ replicate k (CHR ''0'') @ '']'') @ ''s''"

definition day_name :: "int \<Rightarrow> string" where
  "day_name w = weekday_names ! nat w"

definition month_name :: "int \<Rightarrow> string" where
  "month_name m = month_names ! nat (m - 1)"

definition half_of_day :: "int \<Rightarrow> string" where
  "half_of_day hour = (if hour < 12 then ''AM'' else ''PM'')"

definition conv_text :: "nat \<Rightarrow> int \<Rightarrow> char \<Rightarrow> string" where
  "conv_text k tp c =
     (let n = day_of k tp;
          (y, m, d) = civil_days n;
          s = second_of_day k tp;
          hour = s div 3600;
          minute = s div 60 mod 60;
          yday = n - jan1 y;
          th = thursday_of n;
          iso = fst (civil_days th);
          short_day = take 3 (day_name ((n + 4) mod 7));
          short_month = take 3 (month_name m);
          whole = two minute @ '':'' @ two (s mod 60)
      in if c = CHR ''C'' then century y
         else if c = CHR ''d'' then two d
         else if c = CHR ''e'' then os_right (CHR '' '') 2 (to_string d)
         else if c = CHR ''D'' then two m @ ''/'' @ two d @ ''/'' @ year2 y
         else if c = CHR ''F'' then year4 y @ ''-'' @ two m @ ''-'' @ two d
         else if c = CHR ''g'' then year2 iso
         else if c = CHR ''G'' then year4 iso
         else if c = CHR ''H'' then two hour
         else if c = CHR ''I'' then two (clock12 hour)
         else if c = CHR ''j'' then os_right (CHR ''0'') 3 (to_string (yday + 1))
         else if c = CHR ''m'' then two m
         else if c = CHR ''M'' then two minute
         else if c = CHR ''n'' then [CHR 0x0A]
         else if c = CHR ''t'' then [CHR 0x09]
         else if c = CHR ''Q'' then to_string (tp mod (86400 * 10 ^ k))
         else if c = CHR ''q'' then clock_unit k
         else if c = CHR ''R'' then two hour @ '':'' @ two minute
         else if c = CHR ''S'' then seconds_text k tp
         else if c = CHR ''T'' then two hour @ '':'' @ two minute @ '':'' @ seconds_text k tp
         else if c = CHR ''u'' then to_string ((n + 3) mod 7 + 1)
         else if c = CHR ''U'' then two (week_number yday ((n + 4) mod 7))
         else if c = CHR ''V'' then two ((th - jan1 iso) div 7 + 1)
         else if c = CHR ''w'' then to_string ((n + 4) mod 7)
         else if c = CHR ''W'' then two (week_number yday ((n + 3) mod 7))
         else if c = CHR ''y'' then year2 y
         else if c = CHR ''Y'' then year4 y
         else if c = CHR ''z'' then ''+0000''
         else if c = CHR ''Z'' then ''UTC''
         else if c = CHR ''a'' then short_day
         else if c = CHR ''A'' then day_name ((n + 4) mod 7)
         else if c \<in> set ''bh'' then short_month
         else if c = CHR ''B'' then month_name m
         else if c = CHR ''c'' then short_day @ '' '' @ short_month @ '' '' @ os_right (CHR '' '') 2 (to_string d) @
           '' '' @ two hour @ '':'' @ whole @ '' '' @ year4 y
         else if c = CHR ''x'' then two m @ ''/'' @ two d @ ''/'' @ year2 y
         else if c = CHR ''X'' then two hour @ '':'' @ two minute @ '':'' @ seconds_text k tp
         else if c = CHR ''p'' then half_of_day hour
         else if c = CHR ''r'' then two (clock12 hour) @ '':'' @ whole @ '' '' @ half_of_day hour
         else ''%'')"

definition own_conversions :: string where
  "own_conversions = ''CdeDFgGHIjmMntQqRSTuUVwWyYzZ%''"

text \<open>Those with names are the facet's, and the library's in builds with \<open>ONLY_C_LOCALE\<close>.\<close>

definition name_conversions :: string where
  "name_conversions = ''aAbBhcxXpr''"

definition conversions :: "std_locale \<Rightarrow> string" where
  "conversions loc = own_conversions @ (if loc = None then name_conversions else [])"

text \<open>A pattern is plain characters and conversions.\<close>

datatype fmt_piece = Plain char | Conv char

fun pattern :: "fmt_piece \<Rightarrow> string" where
  "pattern (Plain c) = [c]"
| "pattern (Conv c) = [CHR ''%'', c]"

fun pattern_ok :: "string \<Rightarrow> fmt_piece \<Rightarrow> bool" where
  "pattern_ok cs (Plain c) \<longleftrightarrow> c \<noteq> CHR ''%'' \<and> c \<noteq> CHR 0x00"
| "pattern_ok cs (Conv c) \<longleftrightarrow> c \<in> set cs"

fun piece_text :: "nat \<Rightarrow> int \<Rightarrow> fmt_piece \<Rightarrow> string" where
  "piece_text k tp (Plain c) = [c]"
| "piece_text k tp (Conv c) = conv_text k tp c"

text \<open>
  Points in time on either side of the epoch, as far as the day numbers and those of the weeks and
  years around them are in the range of the library's 16-bit years: these are all the days of the years -30882 to 32085, and some more.
\<close>

definition point_ok :: "nat \<Rightarrow> int \<Rightarrow> bool" where
  "point_ok k tp \<longleftrightarrow> k \<le> 18 \<and> day_range (day_of k tp + 3) \<and> day_range (day_of k tp - 800)"

text \<open>
  The conversions that print what \<open>conv_text\<close> says: before the year 0 the library's \<open>%D\<close>, \<open>%F\<close> and
  \<open>%x\<close> put the sign of the year into the padding.
\<close>

definition conversions_at :: "std_locale \<Rightarrow> nat \<Rightarrow> int \<Rightarrow> string" where
  "conversions_at loc k tp =
     (if 0 \<le> fst (civil_days (day_of k tp)) then conversions loc
      else filter (\<lambda>c. c \<notin> set ''DFx'') (conversions loc))"

section \<open>Digits\<close>

lemma length_nat_to_string_1: "length (nat_to_string n) = 1 \<longleftrightarrow> n < 10"
proof (cases "n < 10")
  case True
  then show ?thesis by (simp add: nat_to_string.simps [of n])
next
  case False
  then show ?thesis by (subst nat_to_string.simps) simp
qed

lemma zero2_two: "0 \<le> i \<Longrightarrow> zero2 i = two i"
  using length_nat_to_string_1 [of "nat i"]
  by (cases "nat_to_string (nat i)"; cases "tl (nat_to_string (nat i))")
    (auto simp: zero2_def two_def os_right_def to_string_def)

lemma lead0_two: "lead0 i = two i"
  by (simp add: lead0_def two_def)

section \<open>The fields of a point in time\<close>

lemma point_fields_div:
  assumes "0 < den"
  shows "point_fields den tp = fields_ymd_tod den (from_days (tp div (86400 * den)))
    (hh_mm_ss_ctor den (tp mod (86400 * den)))"
proof -
  let ?day = "86400 * den" and ?t = "duration_trunc (86400 * den) tp"
  have t: "(if ?t * ?day > tp then ?t - 1 else ?t) = tp div ?day"
    using duration_floor_div [of ?day tp] assms by (simp add: duration_floor_def Let_def)
  have m: "tp mod ?day = tp - tp div ?day * ?day" by (simp add: minus_div_mult_eq_mod)
  show ?thesis
  proof (cases "?t * ?day \<le> tp")
    case True
    with t m show ?thesis by (simp add: point_fields_def Let_def year_month_day_sys_def)
  next
    case False
    with t have e: "?t - 1 = tp div ?day" by simp
    then have "?day - (?t * ?day - tp) = tp mod ?day"
      using m by (simp add: e [symmetric] left_diff_distrib)
    with False e show ?thesis by (simp add: point_fields_def Let_def year_month_day_sys_def)
  qed
qed

lemma point_date:
  assumes "point_ok k tp"
  defines "n \<equiv> day_of k tp" and "x \<equiv> f_ymd (point_fields (10 ^ k) tp)"
  shows "x = from_days n" "day_range n" "day_range (n + 3)" "day_range (n - 800)"
    "ymd_ok x" "ymd_ints x = civil_days n" "to_days x = n"
proof -
  show "day_range (n + 3)" "day_range (n - 800)" using assms(1) by (simp_all add: point_ok_def n_def)
  then show r: "day_range n" by (simp add: day_range_def)
  show x: "x = from_days n"
    by (simp add: x_def n_def day_of_def point_fields_div fields_ymd_tod_def)
  show "ymd_ok x" "ymd_ints x = civil_days n" "to_days x = n"
    using r by (simp_all add: x from_days_ok ymd_ints_from_days to_days_from_days)
qed

lemma int_div_lt: "0 < (d :: int) \<Longrightarrow> r < c * d \<Longrightarrow> r div d < c"
  by (smt (verit) mult_less_cancel_right_pos minus_mod_eq_div_mult pos_mod_sign)

lemma point_time:
  fixes k :: nat and tp :: int
  assumes "k \<le> 18"
  defines "f \<equiv> point_fields (10 ^ k) tp" and "s \<equiv> second_of_day k tp"
  shows "f_has_tod f" "f_wd f = weekday_ctor 8" "hours (f_tod f) = s div 3600"
    "minutes (f_tod f) = s div 60 mod 60" "dfs_s (tod_s (f_tod f)) = s mod 60"
    "dfs_sub_s (tod_s (f_tod f)) = tp mod 10 ^ k" "to_duration (10 ^ k) (f_tod f) = tp mod (86400 * 10 ^ k)"
    "\<not> is_negative (f_tod f)" "0 \<le> s" "s < 86400"
proof -
  let ?r = "tp mod (86400 * 10 ^ k)"
  have r: "0 \<le> ?r" "?r < 86400 * 10 ^ k" by simp_all
  have f: "f_tod f = hh_mm_ss_ctor (10 ^ k) ?r" by (simp add: f_def point_fields_div fields_ymd_tod_def)
  have ab: "\<bar>?r\<bar> = ?r" using r by (rule abs_of_nonneg [OF conjunct1, OF conjI])
  have neg: "\<not> ?r < 0" using r by linarith
  note h = hh_mm_ss_fields [OF assms(1), of ?r, unfolded ab]
  show "f_has_tod f" "f_wd f = weekday_ctor 8"
    by (simp_all add: f_def point_fields_div fields_ymd_tod_def fields_default_def)
  have s: "s = ?r div 10 ^ k" by (simp add: s_def second_of_day_def)
  have d: "?r div (3600 * 10 ^ k) = s div 3600" "?r div (60 * 10 ^ k) = s div 60"
    unfolding s by (simp_all add: zdiv_zmult2_eq [symmetric] mult.commute)
  show "hours (f_tod f) = s div 3600" unfolding f hours_def h(1) d ..
  show "minutes (f_tod f) = s div 60 mod 60" unfolding f minutes_def h(2) d ..
  show "dfs_s (tod_s (f_tod f)) = s mod 60" unfolding f h(3) s ..
  show "\<not> is_negative (f_tod f)" unfolding f is_negative_def h(5) by (rule neg)
  show "dfs_sub_s (tod_s (f_tod f)) = tp mod 10 ^ k"
    unfolding f h(4) by (simp add: mod_mod_cancel)
  show "to_duration (10 ^ k) (f_tod f) = ?r" by (simp add: f hh_mm_ss_to_duration [OF assms(1)])
  show "0 \<le> s" using r by (simp add: s_def second_of_day_def pos_imp_zdiv_nonneg_iff)
  show "s < 86400" using r by (simp add: s int_div_lt)
qed

end
