(* ===== verification/FormatText.thy ===== *)
theory FormatText
  imports FormatRef
begin

text \<open>
  Formatting a point in time prints what the reference says: first each conversion, its field taken
  from the calendar on integers, then the loop over the pattern.
\<close>

section \<open>The conversions\<close>

text \<open>The state in which a conversion starts when nothing has failed and no modifier was given.\<close>

definition fmt_ready :: "fmt_state \<Rightarrow> bool" where
  "fmt_ready st \<longleftrightarrow> \<not> fs_fail st \<and> \<not> fs_negative st \<and> fs_modified st = None"

lemma set_fail_False [simp]: "set_fail False st = st"
  by (simp add: set_fail_def)

lemma fmt_readyD:
  assumes "fmt_ready st"
  shows "fs_modified st = None" "\<not> fs_fail st" "put_negative st = st" "own_form loc st"
  using assms by (simp_all add: fmt_ready_def put_negative_def own_form_def)

lemma point_calendar:
  assumes "point_ok k tp" and c: "civil_days (day_of k tp) = (y, m, d)"
  defines "x \<equiv> f_ymd (point_fields (10 ^ k) tp)"
  shows "ymd_ok x" "year_ok (ymd_year x)" "month_ok (ymd_month x)" "day_ok (ymd_day x)"
    "year_int (ymd_year x) = y" "uint (month_rep (ymd_month x)) = m"
    "uint (day_rep (ymd_day x)) = d" "ymd_local_days x = day_of k tp"
    "ymd_sys_days x = day_of k tp" "1 \<le> m" "1 \<le> d"
proof -
  note p = point_date [OF assms(1), folded x_def, unfolded c]
  have i: "year_int (ymd_year x) = y" "uint (month_rep (ymd_month x)) = m" "uint (day_rep (ymd_day x)) = d"
    using p(6) by (simp_all add: ymd_ints_def)
  have v: "1 \<le> m" "m \<le> 12" "1 \<le> d" "d \<le> 31"
    using civil_days_correct(1) [of "day_of k tp"] c month_length_bounds [of y m] by (auto simp: valid_date_def)
  show "ymd_ok x" by (rule p(5))
  show "year_ok (ymd_year x)" "month_ok (ymd_month x)" "day_ok (ymd_day x)"
    using i v p(5) by (simp_all add: ok_iff ymd_ok_iff)
  show "year_int (ymd_year x) = y" "uint (month_rep (ymd_month x)) = m"
    "uint (day_rep (ymd_day x)) = d" "1 \<le> m" "1 \<le> d"
    using i v by simp_all
  show "ymd_local_days x = day_of k tp" "ymd_sys_days x = day_of k tp"
    using p(7) by (simp_all add: ymd_local_days_def ymd_sys_days_def)
qed

lemma to_string_nonneg: "0 \<le> i \<Longrightarrow> to_string i \<noteq> [] \<and> hd (to_string i) \<noteq> CHR ''-''"
proof -
  obtain c cs where s: "nat_to_string (nat i) = c # cs" by (cases "nat_to_string (nat i)") auto
  then have "is_digit c" using nat_to_string_digits [of "nat i"] by simp
  moreover assume "0 \<le> i"
  ultimately show ?thesis by (auto simp: to_string_def s is_digit_def)
qed

lemma year_text_year4:
  assumes "year_ok y"
  shows "year_text y = year4 (year_int y)"
proof (cases "year_int y < 0")
  case True
  then have "to_string (year_int y) = CHR ''-'' # to_string \<bar>year_int y\<bar>"
    by (simp add: to_string_def)
  with True assms show ?thesis
    by (simp add: year_text_def year_fmt_def year4_def note_invalid_def year_lt_def os_internal_def
      os_right_def cal_simps)
next
  case False
  with assms show ?thesis
    using to_string_nonneg [of "year_int y"]
    by (auto simp: year_text_def year_fmt_def year4_def note_invalid_def year_lt_def os_internal_def
        cal_simps split: list.split)
qed

lemma century_text_century: "century_text y = century y"
proof (cases "y < 0")
  case True
  then have "c_div (- (y - 99)) 100 = \<bar>y div 100\<bar>" by (simp add: c_div_nonneg)
  with True show ?thesis by (simp add: century_text_def century_def zero2_two)
next
  case False
  then show ?thesis
    by (simp add: century_text_def century_def c_div_nonneg zero2_two pos_imp_zdiv_nonneg_iff)
qed

lemma slash_year: "0 \<le> y \<Longrightarrow> zero2 (c_mod y 100) = year2 y"
  by (simp add: c_mod_def c_div_nonneg minus_div_mult_eq_mod zero2_two year2_def)

lemma conv_dates:
  assumes "point_ok k tp" and "fmt_ready st"
  defines "f \<equiv> point_fields (10 ^ k) tp" and "Y \<equiv> fst (civil_days (day_of k tp))"
  shows "fmt_C loc f (CHR ''C'') st = cmd_done (os_put (conv_text k tp (CHR ''C'')) st)"
    "fmt_d loc f (CHR ''d'') st = cmd_done (os_put (conv_text k tp (CHR ''d'')) st)"
    "fmt_d loc f (CHR ''e'') st = cmd_done (os_put (conv_text k tp (CHR ''e'')) st)"
    "0 \<le> Y \<Longrightarrow> fmt_D f (CHR ''D'') st = cmd_done (os_put (conv_text k tp (CHR ''D'')) st)"
    "0 \<le> Y \<Longrightarrow> fmt_F f (CHR ''F'') st = cmd_done (os_put (conv_text k tp (CHR ''F'')) st)"
    "fmt_m loc f (CHR ''m'') st = cmd_done (os_put (conv_text k tp (CHR ''m'')) st)"
    "fmt_y loc f (CHR ''y'') st = cmd_done (os_put (conv_text k tp (CHR ''y'')) st)"
    "fmt_Y loc f (CHR ''Y'') st = cmd_done (os_put (conv_text k tp (CHR ''Y'')) st)"
proof -
  obtain y m d where c: "civil_days (day_of k tp) = (y, m, d)" by (cases "civil_days (day_of k tp)") auto
  note p = point_calendar [OF assms(1) c, folded f_def]
  have z: "zero2 m = two m" "zero2 d = two d"
    using p(10,11) by (simp_all add: zero2_two)
  have yt: "year_text (ymd_year (f_ymd f)) = year4 y"
    using year_text_year4 [OF p(2)] p(5) by simp
  note d = conv_text_def c p z yt fmt_readyD [OF assms(2)] lead0_two century_text_century
    iso_date_text_def slash_date_def
  have d2: "os_right (CHR ''0'') 2 (to_string d) = two d"
    using z by (simp add: zero2_def)
  show "fmt_C loc f (CHR ''C'') st = cmd_done (os_put (conv_text k tp (CHR ''C'')) st)"
    by (simp add: fmt_C_def d)
  show "fmt_d loc f (CHR ''d'') st = cmd_done (os_put (conv_text k tp (CHR ''d'')) st)"
    using d2 by (simp add: fmt_d_def d)
  show "fmt_d loc f (CHR ''e'') st = cmd_done (os_put (conv_text k tp (CHR ''e'')) st)"
    by (simp add: fmt_d_def d)
  show "fmt_D f (CHR ''D'') st = cmd_done (os_put (conv_text k tp (CHR ''D'')) st)" if "0 \<le> Y"
    using slash_year [of y] that by (simp add: fmt_D_def d Y_def)
  show "fmt_F f (CHR ''F'') st = cmd_done (os_put (conv_text k tp (CHR ''F'')) st)" if "0 \<le> Y"
    using year4_nonneg [of y] that by (simp add: fmt_F_def d Y_def)
  show "fmt_m loc f (CHR ''m'') st = cmd_done (os_put (conv_text k tp (CHR ''m'')) st)"
    by (simp add: fmt_m_def d)
  show "fmt_y loc f (CHR ''y'') st = cmd_done (os_put (conv_text k tp (CHR ''y'')) st)"
    by (simp add: fmt_y_def d year2_def)
  show "fmt_Y loc f (CHR ''Y'') st = cmd_done (os_put (conv_text k tp (CHR ''Y'')) st)"
    by (simp add: fmt_Y_def d)
qed

section \<open>Weeks\<close>

lemma two_0: "two 0 = ''00''"
  by code_simp

lemma jan1_days: "to_days (ym_slash_int (year_slash_month y January) 1) = jan1 (year_int y)"
proof -
  have m: "uint (month_rep January) = 1" by (simp add: January_def month_ctor_def)
  then show ?thesis by (subst to_days_civil) (simp_all add: ok_iff ymd_ints_def jan1_def)
qed

lemma int_slash_january: "ym_slash_int (year_slash_int y 1) 1 = ym_slash_int (year_slash_month y January) 1"
  by (simp add: year_slash_int_def January_def)

lemma jan1_day_range:
  assumes "day_range n" and "day_range (n - 800)" and "fst (civil_days n) = y"
  shows "day_range (jan1 y)"
  using assms year_of_days [of n y] year_length [of y] by (auto simp: day_range_def)

text \<open>The first weekday of that kind in a year.\<close>

lemma first_of_year:
  assumes "day_range (jan1 (year_int y))" and w: "uint (wd_rep wd) \<le> 6"
  shows "ymw_local_days (mw_slash_year (wdi_slash_month (weekday_index wd 1) January) y) =
      first_weekday (uint (wd_rep wd) - 4) (year_int y)"
    and "ymw_sys_days (ym_slash_wdi (year_slash_month y January) (weekday_index wd 1)) =
      first_weekday (uint (wd_rep wd) - 4) (year_int y)"
proof -
  let ?J = "jan1 (year_int y)"
  show l: "ymw_local_days (mw_slash_year (wdi_slash_month (weekday_index wd 1) January) y) =
      first_weekday (uint (wd_rep wd) - 4) (year_int y)"
    using wdi_of_index [OF w, of 1] weekday_sys_mod [OF assms(1)]
    by (simp add: ymw_local_days_def ymw_to_days_def mw_slash_year_def wdi_slash_month_def
      month_slash_wdi_def year_slash_mw_def year_month_weekday_ctor_def month_weekday_ctor_def
      ymw_wdi_def ymw_month_def weekday_diff_mod ymd_sys_days_def jan1_days Let_def
      first_weekday_def mod_simps algebra_simps)
  show "ymw_sys_days (ym_slash_wdi (year_slash_month y January) (weekday_index wd 1)) =
      first_weekday (uint (wd_rep wd) - 4) (year_int y)"
    using l by (simp add: ymw_local_days_def ymw_sys_days_def ymw_to_days_def mw_slash_year_def
      wdi_slash_month_def month_slash_wdi_def year_slash_mw_def year_month_weekday_ctor_def
      month_weekday_ctor_def ymw_wdi_def ymw_month_def ym_slash_wdi_def year_slash_month_def year_month_ctor_def)
qed

text \<open>A day is the first day of its kind in a year, whole weeks, and the days since.\<close>

lemma day_from_week:
  fixes n k :: int
  assumes "J \<le> F" and "F < J + 7" and "(F - k) mod 7 = 0"
  shows "n = F + 7 * (week_number (n - J) ((n - k) mod 7) - 1) + (n - k) mod 7"
    and "week_number (n - J) ((n - k) mod 7) = (n - F) div 7 + 1"
proof -
  define a where "a = (n - k) div 7"
  define b where "b = (F - k) div 7"
  have F: "F = k + 7 * b" using assms(3) by (auto simp: b_def)
  have r: "n = k + 7 * a + (n - k) mod 7" "0 \<le> (n - k) mod 7" "(n - k) mod 7 < 7" by (simp_all add: a_def)
  have "n - J + 7 - (n - k) mod 7 = 7 * (a - b + 1) + (F - J)" using r(1) F by simp
  then have num: "week_number (n - J) ((n - k) mod 7) = a - b + 1"
    using assms(1,2) by (simp add: week_number_def int_div_pos_eq)
  moreover have "(n - F) div 7 = a - b" using r F by (intro int_div_pos_eq [of _ _ _ "(n - k) mod 7"]) simp_all
  ultimately show "week_number (n - J) ((n - k) mod 7) = (n - F) div 7 + 1" by simp
  show "n = F + 7 * (week_number (n - J) ((n - k) mod 7) - 1) + (n - k) mod 7" using num r F by simp
qed

text \<open>The week in the year counted from the first \<open>wd\<close>, as \<open>strftime\<close> computes it.\<close>

lemma week_of_year_number:
  assumes "day_range n" and "day_range (n - 800)" and w: "uint (wd_rep wd) \<le> 6"
    and x: "ymd_local_days x = n" "year_int (ymd_year x) = fst (civil_days n)"
  defines "J \<equiv> jan1 (fst (civil_days n))"
  shows "week_of_year wd x = two (week_number (n - J) ((n + 4 - uint (wd_rep wd)) mod 7))"
proof -
  define k where "k = uint (wd_rep wd) - 4"
  define F where "F = first_weekday k (fst (civil_days n))"
  have rJ: "day_range J" using jan1_day_range [OF assms(1,2)] by (simp add: J_def)
  let ?st = "ymw_local_days (mw_slash_year (wdi_slash_month (weekday_index wd 1) January) (ymd_year x))"
  have st: "?st = F" using first_of_year(1) [of "ymd_year x" wd] rJ w by (simp add: x(2) J_def F_def k_def)
  note f = first_weekday_facts [where k = k and y = "fst (civil_days n)", folded F_def J_def]
  have n: "J \<le> n" using year_of_days [of n "fst (civil_days n)"] by (simp add: J_def)
  have m: "(n + 4 - uint (wd_rep wd)) mod 7 = (n - k) mod 7" by (simp add: k_def algebra_simps)
  have num: "week_number (n - J) ((n - k) mod 7) = (n - F) div 7 + 1" using day_from_week(2) [OF f] .
  show ?thesis
  proof (cases "n < F")
    case True
    then have "(n - F) div 7 = - 1" using f(2) n by (intro int_div_pos_eq [of _ _ _ "n - F + 7"]) simp_all
    with True num st show ?thesis by (simp add: week_of_year_def x(1) m two_0)
  next
    case False
    with num st show ?thesis by (simp add: week_of_year_def x(1) m lead0_two c_div_nonneg)
  qed
qed

lemma weekday_of_point:
  assumes "point_ok k tp"
  defines "f \<equiv> point_fields (10 ^ k) tp"
  shows "extract_weekday f st = ((day_of k tp + 4) mod 7, st)"
proof -
  obtain y m d where c: "civil_days (day_of k tp) = (y, m, d)" by (cases "civil_days (day_of k tp)") auto
  note p = point_calendar [OF assms(1) c, folded f_def]
  have "k \<le> 18" using assms(1) by (simp add: point_ok_def)
  from point_time(2) [OF this, of tp] have w: "\<not> weekday_ok (f_wd f)"
    by (simp add: f_def ok_iff weekday_ctor_def)
  show ?thesis
    using p(1,9) w weekday_sys_mod [OF point_date(2) [OF assms(1)]]
    by (simp add: extract_weekday_def Let_def weekday_diff_mod Thursday_rep)
qed

lemma iso_of_point:
  assumes "point_ok k tp"
  defines "n \<equiv> day_of k tp"
  shows "year_int (iso_year n) = fst (civil_days (thursday_of n))"
    "iso_week n = (thursday_of n - jan1 (fst (civil_days (thursday_of n)))) div 7 + 1"
proof -
  note p = point_date [OF assms(1), folded n_def]
  show e: "year_int (iso_year n) = fst (civil_days (thursday_of n))"
    using iso_year_correct(1) [OF p(4,3)] .
  show "iso_week n = (thursday_of n - jan1 (fst (civil_days (thursday_of n)))) div 7 + 1"
    using iso_year_correct(2) [OF p(4,3)] by (simp add: e)
qed

lemma iso_year_ok:
  assumes "point_ok k tp"
  shows "year_ok (iso_year (day_of k tp))"
proof -
  let ?n = "day_of k tp" and ?th = "thursday_of (day_of k tp)"
  have "?n - 3 \<le> ?th" "?th \<le> ?n + 3" by (simp_all add: thursday_of_def)
  then have "day_range ?th" using point_date(3,4) [OF assms] by (simp add: day_range_def)
  then have "- 32767 \<le> fst (civil_days ?th)" using civil_year_range(1) by (metis prod.collapse)
  then show ?thesis using iso_of_point(1) [OF assms] by (simp add: ok_iff)
qed

lemma iso_weekday: "(if ((n :: int) + 4) mod 7 \<noteq> 0 then (n + 4) mod 7 else 7) = (n + 3) mod 7 + 1"
proof -
  define q where "q = (n + 4) mod 7"
  have q: "0 \<le> q" "q < 7" by (simp_all add: q_def)
  have "(n + 3) mod 7 = (q - 1) mod 7" by (simp add: q_def mod_simps add.commute)
  also have "\<dots> = (if q = 0 then 6 else q - 1)" using q by simp
  finally show ?thesis by (simp add: q_def [symmetric])
qed

lemma conv_weeks:
  assumes "point_ok k tp" and "fmt_ready st"
  defines "f \<equiv> point_fields (10 ^ k) tp"
  shows "fmt_g f (CHR ''g'') st = cmd_done (os_put (conv_text k tp (CHR ''g'')) st)"
    "fmt_g f (CHR ''G'') st = cmd_done (os_put (conv_text k tp (CHR ''G'')) st)"
    "fmt_V loc f (CHR ''V'') st = cmd_done (os_put (conv_text k tp (CHR ''V'')) st)"
    "fmt_U loc f Sunday (CHR ''U'') st = cmd_done (os_put (conv_text k tp (CHR ''U'')) st)"
    "fmt_U loc f Monday (CHR ''W'') st = cmd_done (os_put (conv_text k tp (CHR ''W'')) st)"
    "fmt_j (10 ^ k) f (CHR ''j'') st = cmd_done (os_put (conv_text k tp (CHR ''j'')) st)"
    "fmt_u loc f (CHR ''u'') st = cmd_done (os_put (conv_text k tp (CHR ''u'')) st)"
    "fmt_w loc f (CHR ''w'') st = cmd_done (os_put (conv_text k tp (CHR ''w'')) st)"
proof -
  let ?n = "day_of k tp"
  obtain y m d where c: "civil_days ?n = (y, m, d)" by (cases "civil_days ?n") auto
  note p = point_calendar [OF assms(1) c, folded f_def]
  note r = point_date(2,4) [OF assms(1)]
  note iso = iso_of_point [OF assms(1)]
  note wd = weekday_of_point [OF assms(1), folded f_def]
  note d = conv_text_def c p fmt_readyD [OF assms(2)] iso wd Let_def
  have jan: "ymd_local_days (ym_slash_int (year_slash_month (ymd_year (f_ymd f)) January) 1) = jan1 y"
    by (simp add: ymd_local_days_def jan1_days p(5))
  have wk: "week_of_year w (f_ymd f) = two (week_number (?n - jan1 y) ((?n + (4 - uint (wd_rep w))) mod 7))"
    if "uint (wd_rep w) \<le> 6" for w
    using week_of_year_number [OF r that, of "f_ymd f"] p(5,8) c by (simp add: add_diff_eq)
  show "fmt_g f (CHR ''g'') st = cmd_done (os_put (conv_text k tp (CHR ''g'')) st)"
    by (simp add: fmt_g_def d zero2_two year2_def)
  show "fmt_g f (CHR ''G'') st = cmd_done (os_put (conv_text k tp (CHR ''G'')) st)"
    using year_text_year4 [OF iso_year_ok [OF assms(1)]] by (simp add: fmt_g_def d)
  show "fmt_V loc f (CHR ''V'') st = cmd_done (os_put (conv_text k tp (CHR ''V'')) st)"
    by (simp add: fmt_V_def d lead0_two)
  show "fmt_U loc f Sunday (CHR ''U'') st = cmd_done (os_put (conv_text k tp (CHR ''U'')) st)"
    using wk [of Sunday] by (simp add: fmt_U_def d Thursday_rep)
  show "fmt_U loc f Monday (CHR ''W'') st = cmd_done (os_put (conv_text k tp (CHR ''W'')) st)"
    using wk [of Monday] by (simp add: fmt_U_def d Thursday_rep)
  show "fmt_j (10 ^ k) f (CHR ''j'') st = cmd_done (os_put (conv_text k tp (CHR ''j'')) st)"
    by (simp add: fmt_j_def d jan)
  show "fmt_u loc f (CHR ''u'') st = cmd_done (os_put (conv_text k tp (CHR ''u'')) st)"
    using iso_weekday [of ?n] by (simp add: fmt_u_def d)
  show "fmt_w loc f (CHR ''w'') st = cmd_done (os_put (conv_text k tp (CHR ''w'')) st)"
    by (simp add: fmt_w_def d)
qed

section \<open>Time of day\<close>

lemma make12_clock: "0 \<le> h \<Longrightarrow> h < 24 \<Longrightarrow> make12 h = clock12 h"
proof -
  have "\<forall>h \<in> set [0..23]. make12 h = clock12 h" by code_simp
  then show "0 \<le> h \<Longrightarrow> h < 24 \<Longrightarrow> make12 h = clock12 h" by simp
qed

lemma power_ten_text: "nat_to_string (10 ^ k) = CHR ''1'' # replicate k (CHR ''0'')"
proof (induction k)
  case 0
  show ?case by code_simp
next
  case (Suc k)
  have big: "\<not> (10 :: nat) ^ Suc k < 10" by simp
  have zero: "digit_char 0 = CHR ''0''" by code_simp
  have "nat_to_string (10 ^ Suc k) = nat_to_string (10 ^ k) @ [CHR ''0'']"
    by (subst nat_to_string.simps) (use big zero in simp)
  then show ?case by (simp add: Suc.IH replicate_append_same)
qed

lemma get_units_clock: "get_units 1 (10 ^ k) = clock_unit k"
proof -
  have e: "(10 :: int) ^ k = 10 ^ j \<longleftrightarrow> k = j" for j by simp
  note es = e [of 0] e [of 1] e [of 2] e [of 3] e [of 6] e [of 9] e [of 12] e [of 15] e [of 18]
  consider "k \<in> {0, 1, 2, 3, 6, 9, 12, 15, 18}" | "k \<notin> {0, 1, 2, 3, 6, 9, 12, 15, 18}" by blast
  then show ?thesis
  proof cases
    case 1
    then show ?thesis
      unfolding insert_iff empty_iff
      by (elim disjE FalseE; simp add: get_units_def msl_def si_prefix_def clock_unit_def)
  next
    case 2
    then have "si_prefix 1 (10 ^ k) = None" "(10 :: int) ^ k \<noteq> 1"
      using es by (simp_all add: si_prefix_def)
    moreover have "to_string (10 ^ k) = CHR ''1'' # replicate k (CHR ''0'')" "to_string 1 = ''1''"
      using power_ten_text [of k] power_ten_text [of 0] by (simp_all add: to_string_def nat_power_eq)
    ultimately show ?thesis
      using 2 by (simp add: get_units_def msl_def clock_unit_def)
  qed
qed

lemma conv_times:
  assumes "point_ok k tp" and "fmt_ready st"
  defines "f \<equiv> point_fields (10 ^ k) tp"
  shows "fmt_H loc f (CHR ''H'') st = cmd_done (os_put (conv_text k tp (CHR ''H'')) st)"
    "fmt_H loc f (CHR ''I'') st = cmd_done (os_put (conv_text k tp (CHR ''I'')) st)"
    "fmt_M loc f (CHR ''M'') st = cmd_done (os_put (conv_text k tp (CHR ''M'')) st)"
    "fmt_Q (10 ^ k) f (CHR ''Q'') st = cmd_done (os_put (conv_text k tp (CHR ''Q'')) st)"
    "fmt_Q (10 ^ k) f (CHR ''q'') st = cmd_done (os_put (conv_text k tp (CHR ''q'')) st)"
    "fmt_R f (CHR ''R'') st = cmd_done (os_put (conv_text k tp (CHR ''R'')) st)"
    "fmt_S loc (10 ^ k) f (CHR ''S'') st = cmd_done (os_put (conv_text k tp (CHR ''S'')) st)"
    "fmt_T (10 ^ k) f (CHR ''T'') st = cmd_done (os_put (conv_text k tp (CHR ''T'')) st)"
proof -
  obtain y m d where c: "civil_days (day_of k tp) = (y, m, d)" by (cases "civil_days (day_of k tp)") auto
  have k: "k \<le> 18" using assms(1) by (simp add: point_ok_def)
  note t = point_time [OF k, of tp, folded f_def]
  let ?s = "second_of_day k tp"
  have "0 \<le> ?s div 3600" "?s div 3600 < 24" using t(9,10) by (simp_all add: int_div_lt pos_imp_zdiv_nonneg_iff)
  then have h12: "make12 (?s div 3600) = clock12 (?s div 3600)" by (rule make12_clock)
  have "0 \<le> ?s mod 60" by simp
  from zero2_two [OF this] have sec: "dfs_print (10 ^ k) (tod_s (f_tod f)) = seconds_text k tp"
    by (simp add: dfs_print_def seconds_text_def t dfs_pow10 [OF k] zero2_def)
  note d = conv_text_def c t fmt_readyD [OF assms(2)] Let_def lead0_two dfs_pow10 [OF k] sec
  show "fmt_H loc f (CHR ''H'') st = cmd_done (os_put (conv_text k tp (CHR ''H'')) st)"
    by (simp add: fmt_H_def d)
  show "fmt_H loc f (CHR ''I'') st = cmd_done (os_put (conv_text k tp (CHR ''I'')) st)"
    by (simp add: fmt_H_def d h12)
  show "fmt_M loc f (CHR ''M'') st = cmd_done (os_put (conv_text k tp (CHR ''M'')) st)"
    by (simp add: fmt_M_def d)
  show "fmt_Q (10 ^ k) f (CHR ''Q'') st = cmd_done (os_put (conv_text k tp (CHR ''Q'')) st)"
    by (simp add: fmt_Q_def d)
  show "fmt_Q (10 ^ k) f (CHR ''q'') st = cmd_done (os_put (conv_text k tp (CHR ''q'')) st)"
    by (simp add: fmt_Q_def d get_units_clock)
  show "fmt_R f (CHR ''R'') st = cmd_done (os_put (conv_text k tp (CHR ''R'')) st)"
    by (simp add: fmt_R_def d)
  show "fmt_S loc (10 ^ k) f (CHR ''S'') st = cmd_done (os_put (conv_text k tp (CHR ''S'')) st)"
    by (simp add: fmt_S_def d)
  have "hh_mm_ss_text (10 ^ k) (f_tod f) =
      lead0 (hours (f_tod f)) @ '':'' @ lead0 (minutes (f_tod f)) @ '':'' @ dfs_print (10 ^ k) (tod_s (f_tod f))"
    using t(8) by (simp add: hh_mm_ss_text_def lead0_def hours_def minutes_def)
  then show "fmt_T (10 ^ k) f (CHR ''T'') st = cmd_done (os_put (conv_text k tp (CHR ''T'')) st)"
    by (simp add: fmt_T_def d)
qed

section \<open>Names\<close>

lemma os_put_put: "os_put t (os_put s st) = os_put (s @ t) st"
  by (simp add: os_put_def)

lemma names_by_number:
  "0 \<le> w \<Longrightarrow> w < 7 \<Longrightarrow> name_at weekday_names w = day_name w \<and> name_at weekday_names (w + 7) = take 3 (day_name w)"
  "1 \<le> m \<Longrightarrow> m \<le> 12 \<Longrightarrow> name_at month_names (m - 1) = month_name m \<and>
    name_at month_names (m - 1 + 12) = take 3 (month_name m)"
proof -
  have "\<forall>w \<in> set [0..6]. name_at weekday_names w = day_name w \<and> name_at weekday_names (w + 7) = take 3 (day_name w)"
    by code_simp
  then show "0 \<le> w \<Longrightarrow> w < 7 \<Longrightarrow>
      name_at weekday_names w = day_name w \<and> name_at weekday_names (w + 7) = take 3 (day_name w)" by simp
  have "\<forall>m \<in> set [1..12]. name_at month_names (m - 1) = month_name m \<and>
      name_at month_names (m - 1 + 12) = take 3 (month_name m)" by code_simp
  then show "1 \<le> m \<Longrightarrow> m \<le> 12 \<Longrightarrow> name_at month_names (m - 1) = month_name m \<and>
      name_at month_names (m - 1 + 12) = take 3 (month_name m)" by simp
qed

lemma half_of_day_text: "0 \<le> h \<Longrightarrow> h < 24 \<Longrightarrow> ampm_text h = half_of_day h"
  by (simp add: ampm_text_def is_am_def name_at_def ampm_names_def half_of_day_def)

lemma whole_seconds_text:
  assumes "point_ok k tp"
  defines "tod \<equiv> whole_seconds (10 ^ k) (f_tod (point_fields (10 ^ k) tp))" and "s \<equiv> second_of_day k tp"
  shows "hh_mm_ss_text 1 tod = two (s div 3600) @ '':'' @ two (s div 60 mod 60) @ '':'' @ two (s mod 60)"
    and "clock_text tod = two (clock12 (s div 3600)) @ '':'' @ two (s div 60 mod 60) @ '':'' @ two (s mod 60) @
      '' '' @ half_of_day (s div 3600)"
proof -
  have k: "k \<le> 18" using assms(1) by (simp add: point_ok_def)
  note t = point_time [OF k, of tp, folded s_def]
  have "0 \<le> tp mod (86400 * 10 ^ k)" by simp
  then have "tod = hh_mm_ss_ctor 1 s"
    by (simp add: tod_def whole_seconds_def make_time_def t(7) dfs_pow10 [OF k] c_div_nonneg s_def second_of_day_def)
  moreover have "\<bar>s\<bar> = s" using t(9) by simp
  ultimately have f: "tod_h tod = s div 3600" "tod_m tod = s div 60 mod 60" "dfs_s (tod_s tod) = s mod 60"
    "\<not> tod_neg tod"
    using hh_mm_ss_fields [of 0 s] t(9) by simp_all
  have h: "0 \<le> s div 3600" "s div 3600 < 24" "0 \<le> s mod 60"
    using t(9,10) by (simp_all add: int_div_lt pos_imp_zdiv_nonneg_iff)
  have z: "zero2 (s mod 60) = two (s mod 60)" "zero2 (s div 60 mod 60) = two (s div 60 mod 60)"
    by (simp_all add: zero2_two)
  have "1 \<le> clock12 (s div 3600)" by (simp add: clock12_def)
  then have "zero2 (clock12 (s div 3600)) = two (clock12 (s div 3600))" by (simp add: zero2_two)
  then show "clock_text tod = two (clock12 (s div 3600)) @ '':'' @ two (s div 60 mod 60) @ '':'' @ two (s mod 60) @
      '' '' @ half_of_day (s div 3600)"
    by (simp add: clock_text_def hours_def minutes_def seconds_def f z make12_clock [OF h(1,2)] half_of_day_text [OF h(1,2)])
  have "dfs_print 1 (tod_s tod) = two (s mod 60)"
    using dfs_pow10(1) [of 0] z by (simp add: dfs_print_def f zero2_def)
  then show "hh_mm_ss_text 1 tod = two (s div 3600) @ '':'' @ two (s div 60 mod 60) @ '':'' @ two (s mod 60)"
    by (simp add: hh_mm_ss_text_def is_negative_def f two_def)
qed

lemma day_padded:
  assumes "0 \<le> d"
  shows "os_right (CHR '' '') 2 (to_string d) = (if d < 10 then CHR '' '' # to_string d else to_string d)"
proof -
  have "length (to_string d) \<noteq> 0" using to_string_nonneg [OF assms] by simp
  moreover have l: "length (to_string d) = 1 \<longleftrightarrow> d < 10"
    using length_nat_to_string_1 [of "nat d"] assms by (simp add: to_string_def nat_less_iff)
  ultimately have "\<not> d < 10 \<Longrightarrow> 2 \<le> length (to_string d)" by linarith
  with l show ?thesis by (cases "d < 10") (simp_all add: os_right_def)
qed

text \<open>For weekdays and months the broken-down time is set on the way; nothing reads it.\<close>

lemma conv_names:
  assumes "point_ok k tp" and "fmt_ready st"
  defines "f \<equiv> point_fields (10 ^ k) tp" and "Y \<equiv> fst (civil_days (day_of k tp))"
  shows "\<exists>t. fmt_a None f (CHR ''a'') st = cmd_done (os_put (conv_text k tp (CHR ''a'')) (st\<lparr>fs_tm := t\<rparr>))"
    "\<exists>t. fmt_a None f (CHR ''A'') st = cmd_done (os_put (conv_text k tp (CHR ''A'')) (st\<lparr>fs_tm := t\<rparr>))"
    "\<exists>t. fmt_b None f (CHR ''b'') st = cmd_done (os_put (conv_text k tp (CHR ''b'')) (st\<lparr>fs_tm := t\<rparr>))"
    "\<exists>t. fmt_b None f (CHR ''B'') st = cmd_done (os_put (conv_text k tp (CHR ''B'')) (st\<lparr>fs_tm := t\<rparr>))"
    "\<exists>t. fmt_b None f (CHR ''h'') st = cmd_done (os_put (conv_text k tp (CHR ''h'')) (st\<lparr>fs_tm := t\<rparr>))"
    "fmt_c None (10 ^ k) f (CHR ''c'') st = cmd_done (os_put (conv_text k tp (CHR ''c'')) st)"
    "0 \<le> Y \<Longrightarrow> fmt_c None (10 ^ k) f (CHR ''x'') st = cmd_done (os_put (conv_text k tp (CHR ''x'')) st)"
    "fmt_X None (10 ^ k) f (CHR ''X'') st = cmd_done (os_put (conv_text k tp (CHR ''X'')) st)"
    "fmt_p None f (CHR ''p'') st = cmd_done (os_put (conv_text k tp (CHR ''p'')) st)"
    "fmt_r None (10 ^ k) f (CHR ''r'') st = cmd_done (os_put (conv_text k tp (CHR ''r'')) st)"
proof -
  let ?n = "day_of k tp" and ?s = "second_of_day k tp"
  obtain y m d where c: "civil_days ?n = (y, m, d)" by (cases "civil_days ?n") auto
  note p = point_calendar [OF assms(1) c, folded f_def]
  have k: "k \<le> 18" using assms(1) by (simp add: point_ok_def)
  note t = point_time [OF k, of tp, folded f_def]
  note rd = fmt_readyD(1-3) [OF assms(2)]
  have m: "m \<le> 12" using civil_days_correct(1) [of ?n] c by (auto simp: valid_date_def)
  have n: "name_at weekday_names ((?n + 4) mod 7) = day_name ((?n + 4) mod 7)"
    "name_at weekday_names ((?n + 4) mod 7 + 7) = take 3 (day_name ((?n + 4) mod 7))"
    "name_at month_names (m - 1) = month_name m" "name_at month_names (m - 1 + 12) = take 3 (month_name m)"
    using names_by_number(1) [of "(?n + 4) mod 7"] names_by_number(2) [OF p(10) m] by simp_all
  have mon: "extract_month f st' = (m, st')" for st' using p(3,6) by (simp add: extract_month_def)
  have wd: "extract_weekday f st' = ((?n + 4) mod 7, st')" for st'
    using weekday_of_point [OF assms(1)] by (simp add: f_def)
  show "\<exists>t. fmt_a None f (CHR ''a'') st = cmd_done (os_put (conv_text k tp (CHR ''a'')) (st\<lparr>fs_tm := t\<rparr>))"
    "\<exists>t. fmt_a None f (CHR ''A'') st = cmd_done (os_put (conv_text k tp (CHR ''A'')) (st\<lparr>fs_tm := t\<rparr>))"
    by (simp_all add: fmt_a_def rd wd n conv_text_def c Let_def) blast+
  show "\<exists>t. fmt_b None f (CHR ''b'') st = cmd_done (os_put (conv_text k tp (CHR ''b'')) (st\<lparr>fs_tm := t\<rparr>))"
    "\<exists>t. fmt_b None f (CHR ''B'') st = cmd_done (os_put (conv_text k tp (CHR ''B'')) (st\<lparr>fs_tm := t\<rparr>))"
    "\<exists>t. fmt_b None f (CHR ''h'') st = cmd_done (os_put (conv_text k tp (CHR ''h'')) (st\<lparr>fs_tm := t\<rparr>))"
    by (simp_all add: fmt_b_def rd mon n(3) n(4) [simplified] conv_text_def c Let_def) blast+
  have z: "zero2 m = two m" "zero2 d = two d"
    using p(10,11) by (simp_all add: zero2_two)
  then show "fmt_c None (10 ^ k) f (CHR ''x'') st = cmd_done (os_put (conv_text k tp (CHR ''x'')) st)"
    if "0 \<le> Y"
    using that slash_year [of y] by (simp add: fmt_c_def rd p Y_def slash_date_def conv_text_def c Let_def)
  have yt: "year_text (ymd_year (f_ymd f)) = year4 y"
    using year_text_year4 [OF p(2)] p(5) by simp
  have dd: "os_right (CHR '' '') 2 (to_string d) = (if d < 10 then CHR '' '' # to_string d else to_string d)"
    using day_padded [of d] p(11) by simp
  note w = whole_seconds_text [OF assms(1), folded f_def]
  show "fmt_c None (10 ^ k) f (CHR ''c'') st = cmd_done (os_put (conv_text k tp (CHR ''c'')) st)"
    by (simp add: fmt_c_def fmt_c_own_def rd p(1,7) t(1) wd mon os_put_put n(2) n(4) [simplified] dd yt
      w(1) conv_text_def c Let_def)
  have "fmt_X None (10 ^ k) f (CHR ''X'') st = fmt_T (10 ^ k) f (CHR ''T'') st"
    by (simp add: fmt_X_def fmt_T_def rd Let_def)
  then show "fmt_X None (10 ^ k) f (CHR ''X'') st = cmd_done (os_put (conv_text k tp (CHR ''X'')) st)"
    using conv_times(8) [OF assms(1,2), folded f_def] by (simp add: conv_text_def c Let_def)
  have h: "0 \<le> ?s div 3600" "?s div 3600 < 24"
    using t(9,10) by (simp_all add: int_div_lt pos_imp_zdiv_nonneg_iff)
  show "fmt_p None f (CHR ''p'') st = cmd_done (os_put (conv_text k tp (CHR ''p'')) st)"
    by (simp add: fmt_p_def rd t(1,3) half_of_day_text [OF h] conv_text_def c Let_def)
  show "fmt_r None (10 ^ k) f (CHR ''r'') st = cmd_done (os_put (conv_text k tp (CHR ''r'')) st)"
    by (simp add: fmt_r_def rd t(1) w(2) conv_text_def c Let_def)
qed

section \<open>The loop\<close>

lemma conv_plain:
  assumes "fmt_ready st"
  shows "fmt_white (CHR ''n'') st = cmd_done (os_put (conv_text k tp (CHR ''n'')) st)"
    "fmt_white (CHR ''t'') st = cmd_done (os_put (conv_text k tp (CHR ''t'')) st)"
    "fmt_z (Some 0) st = cmd_done (os_put (conv_text k tp (CHR ''z'')) st)"
    "fmt_Z (Some ''UTC'') (CHR ''Z'') st = cmd_done (os_put (conv_text k tp (CHR ''Z'')) st)"
proof -
  have z: "offset_text 0 False = ''+0000''" by code_simp
  show "fmt_white (CHR ''n'') st = cmd_done (os_put (conv_text k tp (CHR ''n'')) st)"
    "fmt_white (CHR ''t'') st = cmd_done (os_put (conv_text k tp (CHR ''t'')) st)"
    "fmt_z (Some 0) st = cmd_done (os_put (conv_text k tp (CHR ''z'')) st)"
    "fmt_Z (Some ''UTC'') (CHR ''Z'') st = cmd_done (os_put (conv_text k tp (CHR ''Z'')) st)"
    by (simp_all add: conv_text_def fmt_white_def fmt_z_def fmt_Z_def fmt_readyD [OF assms] z split: prod.split)
qed

lemma own_conversion_text:
  assumes "point_ok k tp" and "fmt_ready st" and "fs_command st" and "c \<in> set own_conversions"
    and "c \<in> set (conversions_at loc k tp)"
  shows "fmt_char loc (10 ^ k) (point_fields (10 ^ k) tp) (Some ''UTC'') (Some 0) c st =
    cmd_done (os_put (conv_text k tp c) st)"
proof -
  have sign: "0 \<le> fst (civil_days (day_of k tp)) \<or> c \<notin> set ''DFx''"
    using assms(5) by (simp add: conversions_at_def split: if_splits)
  note conv = conv_dates [OF assms(1,2)] conv_weeks [OF assms(1,2)] conv_times [OF assms(1,2)]
    conv_plain [OF assms(2)]
  show ?thesis
  proof (cases "c = CHR ''%''")
    case True
    then show ?thesis
      by (simp add: fmt_char_def fmt_percent_def assms(3) fmt_readyD(1-3) [OF assms(2)] conv_text_def split: prod.split)
  next
    case False
    from assms(4) this sign show ?thesis
      unfolding own_conversions_def list.set insert_iff empty_iff
      by (elim disjE FalseE; simp add: fmt_char_def fmt_command_def assms(3) conv)
  qed
qed

lemma conversion_text:
  assumes "point_ok k tp" and "fmt_ready st" and "fs_command st"
    and "c \<in> set (conversions_at loc k tp)"
  shows "\<exists>t. fmt_char loc (10 ^ k) (point_fields (10 ^ k) tp) (Some ''UTC'') (Some 0) c st =
    cmd_done (os_put (conv_text k tp c) (st\<lparr>fs_tm := t\<rparr>))"
proof (cases "c \<in> set own_conversions")
  case True
  have "st = st\<lparr>fs_tm := fs_tm st\<rparr>" by simp
  then show ?thesis using own_conversion_text [OF assms(1-3) True assms(4)] by metis
next
  case False
  then have "loc = None" "c \<in> set name_conversions"
    and "0 \<le> fst (civil_days (day_of k tp)) \<or> c \<noteq> CHR ''x''"
    using assms(4) by (auto simp: conversions_at_def conversions_def split: if_splits)
  moreover note n = conv_names [OF assms(1,2)]
  moreover have same: "\<exists>t. cmd_done (os_put x st) = cmd_done (os_put x (st\<lparr>fs_tm := t\<rparr>))" for x
    by (rule exI [of _ "fs_tm st"]) simp
  ultimately show ?thesis
    unfolding name_conversions_def list.set insert_iff empty_iff
    by (elim disjE FalseE; simp add: fmt_char_def fmt_command_def assms(3))
qed

lemma fmt_loop_text:
  assumes "point_ok k tp" and "list_all (pattern_ok (conversions_at loc k tp)) ps" and "fmt_ready st" and "\<not> fs_command st"
  shows "format_result (fmt_loop loc (10 ^ k) (point_fields (10 ^ k) tp) (Some ''UTC'') (Some 0)
    (concat (map pattern ps)) st) = Inr (fs_out st @ concat (map (piece_text k tp) ps))"
  using assms(2-4)
proof (induction ps arbitrary: st)
  case Nil
  then show ?case by (simp add: format_result_def fmt_end_def os_put_def fmt_ready_def)
next
  case (Cons p ps)
  show ?case
  proof (cases p)
    case (Plain c)
    let ?st = "os_put [c] st"
    have ready: "fmt_ready ?st" "\<not> fs_command ?st" "fs_out ?st = fs_out st @ [c]"
      using Cons.prems(2,3) by (simp_all add: os_put_def fmt_ready_def)
    have "fmt_char loc den fds abbrev offset c st = (?st, True)" for den fds abbrev offset
      using Cons.prems Plain
      by (auto simp: fmt_char_def fmt_default_def cmd_done_def os_put_def fmt_ready_def split: option.split)
    then show ?thesis using Cons.IH [of ?st] Cons.prems(1) ready Plain by simp
  next
    case (Conv c)
    let ?st = "st\<lparr>fs_command := True\<rparr>"
    have c: "c \<in> set (conversions_at loc k tp)" "c \<noteq> CHR 0x00"
      using Cons.prems(1) Conv
      by (auto simp: conversions_at_def conversions_def own_conversions_def name_conversions_def split: if_splits)
    have p: "fmt_char loc den fds abbrev offset (CHR ''%'') st = (?st, True)" for den fds abbrev offset
      using Cons.prems(3) by (simp add: fmt_char_def fmt_percent_def)
    have "fmt_ready ?st" "fs_command ?st" using Cons.prems(2) by (simp_all add: fmt_ready_def)
    from conversion_text [OF assms(1) this c(1)] obtain t where
      t: "fmt_char loc (10 ^ k) (point_fields (10 ^ k) tp) (Some ''UTC'') (Some 0) c ?st =
        cmd_done (os_put (conv_text k tp c) (?st\<lparr>fs_tm := t\<rparr>))" ..
    let ?st' = "(os_put (conv_text k tp c) (?st\<lparr>fs_tm := t\<rparr>))\<lparr>fs_command := False, fs_modified := None\<rparr>"
    have "fmt_ready ?st'" "\<not> fs_command ?st'" "fs_out ?st' = fs_out st @ conv_text k tp c"
      using Cons.prems(2) by (simp_all add: os_put_def fmt_ready_def)
    then show ?thesis
      using Cons.IH [of ?st'] Cons.prems(1) p t c(2) Conv by (simp add: cmd_done_def)
  qed
qed

lemma format_text:
  assumes "point_ok k tp" and "list_all (pattern_ok (conversions_at loc k tp)) ps"
  shows "format_result (sys_time_stream loc (10 ^ k) (concat (map pattern ps)) tp) =
    Inr (concat (map (piece_text k tp) ps))"
proof -
  have k: "k \<le> 18" using assms(1) by (simp add: point_ok_def)
  note t = point_time(1,7) [OF k, of tp]
  show ?thesis
    unfolding sys_time_stream_def to_stream_def
    by (subst fmt_loop_text [OF assms]) (simp_all add: fmt_ready_def t not_less)
qed

end
