(* ===== verification/FormatFail.thy ===== *)
theory FormatFail
  imports FormatText
begin

text \<open>
  Formatting what is not there: the fail bit is never taken back, the loop is only left early when
  it is set, and every conversion that needs a field sets it when the field is missing or invalid.
\<close>

section \<open>The fail bit is sticky\<close>

definition fail_kept :: "(fmt_state \<Rightarrow> fmt_state \<times> bool) \<Rightarrow> bool" where
  "fail_kept f \<longleftrightarrow> (\<forall>st. (fs_fail st \<longrightarrow> fs_fail (fst (f st))) \<and> (\<not> snd (f st) \<longrightarrow> fs_fail (fst (f st))))"

lemma fail_keptD: "fail_kept f \<Longrightarrow> f st = (st', go) \<Longrightarrow> (fs_fail st \<longrightarrow> fs_fail st') \<and> (\<not> go \<longrightarrow> fs_fail st')"
  unfolding fail_kept_def by (metis fst_conv snd_conv)

lemma fail_simps [simp]:
  "fs_fail (os_put s st) = fs_fail st"
  "fs_fail (set_fail b st) \<longleftrightarrow> fs_fail st \<or> b"
  "fs_fail (facet_put loc s t st) = fs_fail st"
  "fs_fail (put_negative st) = fs_fail st"
  "fs_modified (os_put s st) = fs_modified st"
  "fs_modified (set_fail b st) = fs_modified st"
  "fs_modified (put_negative st) = fs_modified st"
  by (simp_all add: os_put_def set_fail_def facet_put_def put_negative_def)

lemma fail_ends [simp]:
  "fst (cmd_done st) = st\<lparr>fs_command := False, fs_modified := None\<rparr>" "snd (cmd_done st)"
  "fst (fmt_return st) = st" "\<not> snd (fmt_return st)"
  "fs_fail (fst (put_spec m c st)) = fs_fail st" "snd (put_spec m c st)"
  by (simp_all add: cmd_done_def fmt_return_def put_spec_def)

lemma fail_extract:
  "extract_weekday fds st = (wd, st') \<Longrightarrow> (fs_fail st \<longrightarrow> fs_fail st') \<and> fs_modified st' = fs_modified st"
  "extract_month fds st = (m, st') \<Longrightarrow> (fs_fail st \<longrightarrow> fs_fail st') \<and> fs_modified st' = fs_modified st"
  by (auto simp: extract_weekday_def extract_month_def Let_def split: if_splits)

lemma fail_c_own: "fs_fail st \<Longrightarrow> fs_fail (fmt_c_own den fds st)"
  by (simp add: fmt_c_own_def extract_weekday_def extract_month_def Let_def)

lemma fail_kept_steps:
  "fail_kept (fmt_a loc fds c)" "fail_kept (fmt_b loc fds c)" "fail_kept (fmt_c loc den fds c)"
  "fail_kept (fmt_C loc fds c)" "fail_kept (fmt_d loc fds c)" "fail_kept (fmt_D fds c)"
  "fail_kept (fmt_F fds c)" "fail_kept (fmt_m loc fds c)" "fail_kept (fmt_y loc fds c)"
  "fail_kept (fmt_Y loc fds c)" "fail_kept (fmt_g fds c)" "fail_kept (fmt_V loc fds c)"
  "fail_kept (fmt_U loc fds w c)" "fail_kept (fmt_j den fds c)" "fail_kept (fmt_u loc fds c)"
  "fail_kept (fmt_w loc fds c)" "fail_kept (fmt_H loc fds c)" "fail_kept (fmt_M loc fds c)"
  "fail_kept (fmt_S loc den fds c)" "fail_kept (fmt_p loc fds c)" "fail_kept (fmt_Q den fds c)"
  "fail_kept (fmt_r loc den fds c)" "fail_kept (fmt_R fds c)" "fail_kept (fmt_T den fds c)"
  "fail_kept (fmt_X loc den fds c)" "fail_kept (fmt_white c)" "fail_kept (fmt_z offset)"
  "fail_kept (fmt_Z abbrev c)" "fail_kept (fmt_modifier c)" "fail_kept fmt_percent"
  "fail_kept (fmt_default c)"
  by ((auto simp: fail_kept_def fmt_a_def fmt_b_def fmt_c_def
    fmt_c_facet_def fmt_C_def fmt_d_def fmt_D_def fmt_F_def
    fmt_m_def fmt_y_def fmt_Y_def fmt_g_def fmt_V_def fmt_U_def put_yday_def fmt_j_def fmt_u_def
    fmt_w_def fmt_H_def fmt_M_def fmt_S_def fmt_p_def fmt_Q_def fmt_r_def fmt_R_def fmt_T_def
    fmt_X_def fmt_white_def fmt_z_def fmt_Z_def fmt_modifier_def fmt_percent_def fmt_default_def
    Let_def fail_c_own dest: fail_extract split: option.split prod.split)[1])+

lemma fail_kept_char: "fail_kept (fmt_char loc den fds abbrev offset c)"
proof -
  have "pred_option fail_kept (fmt_command loc den fds abbrev offset c)"
    unfolding fmt_command_def by (simp add: if_distrib [of "pred_option fail_kept"] fail_kept_steps)
  moreover note fail_kept_steps(30) fail_kept_steps(31) [of c]
  ultimately show ?thesis
    by (cases "fmt_command loc den fds abbrev offset c") (auto simp: fmt_char_def fail_kept_def)
qed

lemma fail_kept_loop: "fs_fail st \<Longrightarrow> fs_fail (fmt_loop loc den fds abbrev offset cs st)"
proof (induction cs arbitrary: st)
  case (Cons c cs)
  obtain st' go where s: "fmt_char loc den fds abbrev offset c st = (st', go)"
    by (cases "fmt_char loc den fds abbrev offset c st") auto
  with fail_keptD [OF fail_kept_char s] Cons show ?case by (simp add: fmt_end_def)
qed (simp add: fmt_end_def)

section \<open>Conversions that need a field\<close>

text \<open>What each conversion needs of the fields, the abbreviation and the offset.\<close>

definition needs_date :: string where
  "needs_date = ''DFgGUVWcx''"

definition needs_time :: string where
  "needs_time = ''HIMQqRSTcXpr''"

text \<open>A date with the facet is printed with its weekday, as the one of \<open>%c\<close> always is.\<close>

definition needs_weekday :: "std_locale \<Rightarrow> string" where
  "needs_weekday loc = ''uwaAc'' @ (if loc = None then [] else ''x'')"

definition field_missing :: "std_locale \<Rightarrow> fields \<Rightarrow> string option \<Rightarrow> int option \<Rightarrow> char \<Rightarrow> bool" where
  "field_missing loc fds abbrev offset c \<longleftrightarrow>
     c \<in> set needs_date \<and> \<not> ymd_ok (f_ymd fds) \<or>
     c \<in> set needs_time \<and> \<not> f_has_tod fds \<or>
     c \<in> set (needs_weekday loc) \<and> (if ymd_ok (f_ymd fds)
       then weekday_ok (f_wd fds) \<and> weekday_ne (weekday_sys (ymd_sys_days (f_ymd fds))) (f_wd fds)
       else \<not> weekday_ok (f_wd fds)) \<or>
     c \<in> set ''CyY'' \<and> \<not> year_ok (ymd_year (f_ymd fds)) \<or>
     c \<in> set ''mbBh'' \<and> \<not> month_ok (ymd_month (f_ymd fds)) \<or>
     c \<in> set ''de'' \<and> \<not> day_ok (ymd_day (f_ymd fds)) \<or>
     c = CHR ''j'' \<and> \<not> ymd_ok (f_ymd fds) \<and> \<not> f_has_tod fds \<or>
     c = CHR ''Z'' \<and> abbrev = None \<or> c = CHR ''z'' \<and> offset = None"

text \<open>A conversion fails exactly when something is missing, and otherwise ends the command.\<close>

definition all_conversions :: string where
  "all_conversions = own_conversions @ name_conversions"

definition conv_outcome :: "bool \<Rightarrow> fmt_state \<times> bool \<Rightarrow> bool" where
  "conv_outcome missing r \<longleftrightarrow> (fs_fail (fst r) \<longleftrightarrow> missing) \<and>
     (snd r \<longrightarrow> \<not> fs_command (fst r) \<and> fs_modified (fst r) = None)"

lemma own_outcome:
  assumes "c \<in> set own_conversions" and "fs_command st" and "fs_modified st = None" and "\<not> fs_fail st"
  shows "conv_outcome (field_missing loc fds abbrev offset c) (fmt_char loc den fds abbrev offset c st)"
  using assms(1) unfolding own_conversions_def list.set insert_iff empty_iff
  by (elim disjE FalseE; simp add: conv_outcome_def field_missing_def needs_date_def needs_time_def
    needs_weekday_def own_form_def assms(2-4) fmt_char_def fmt_command_def Let_def fmt_C_def fmt_d_def
    fmt_D_def fmt_F_def fmt_g_def fmt_H_def fmt_j_def fmt_m_def fmt_M_def fmt_white_def fmt_Q_def
    fmt_R_def fmt_S_def fmt_T_def fmt_u_def fmt_U_def fmt_V_def fmt_w_def fmt_y_def fmt_Y_def
    fmt_z_def fmt_Z_def fmt_percent_def extract_weekday_def split: option.split)

lemma date_has_month: "ymd_ok x \<Longrightarrow> month_ok (ymd_month x)"
  by (simp add: ymd_ok_def split: if_splits)

lemma name_outcome:
  assumes "c \<in> set name_conversions" and "fs_command st" and "fs_modified st = None" and "\<not> fs_fail st"
  shows "conv_outcome (field_missing loc fds abbrev offset c) (fmt_char loc den fds abbrev offset c st)"
  using assms(1) unfolding name_conversions_def list.set insert_iff empty_iff
  by (elim disjE FalseE; simp add: conv_outcome_def field_missing_def needs_date_def needs_time_def
    needs_weekday_def assms(2-4) fmt_char_def fmt_command_def Let_def fmt_a_def fmt_b_def fmt_c_def
    fmt_c_facet_def fmt_c_own_def fmt_p_def fmt_X_def fmt_r_def extract_weekday_def extract_month_def
    date_has_month facet_put_def)

lemma fmt_loop_outcome:
  assumes "list_all (pattern_ok all_conversions) ps" and "\<not> fs_command st" and "fs_modified st = None" and "\<not> fs_fail st"
  shows "fs_fail (fmt_loop loc den fds abbrev offset (concat (map pattern ps)) st) \<longleftrightarrow>
    (\<exists>c. Conv c \<in> set ps \<and> field_missing loc fds abbrev offset c)"
  using assms
proof (induction ps arbitrary: st)
  case Nil
  then show ?case by (simp add: fmt_end_def)
next
  case (Cons p ps)
  show ?case
  proof (cases p)
    case (Plain c)
    let ?st = "os_put [c] st"
    have "\<exists>st'. fmt_char loc den fds abbrev offset c st = (st', True) \<and>
        \<not> fs_command st' \<and> fs_modified st' = None \<and> \<not> fs_fail st'"
      using Cons.prems Plain
      by (auto simp: fmt_char_def fmt_default_def cmd_done_def os_put_def split: option.split)
    then show ?thesis using Cons.IH Cons.prems(1) Plain by auto
  next
    case (Conv c)
    let ?st = "st\<lparr>fs_command := True\<rparr>"
    have p: "fmt_char loc den fds abbrev offset (CHR ''%'') st = (?st, True)"
      using Cons.prems(2) by (simp add: fmt_char_def fmt_percent_def)
    obtain st' go where c: "fmt_char loc den fds abbrev offset c ?st = (st', go)"
      by (cases "fmt_char loc den fds abbrev offset c ?st") auto
    have c0: "c \<noteq> CHR 0x00"
      using Cons.prems(1) Conv by (auto simp: all_conversions_def own_conversions_def name_conversions_def)
    have o: "conv_outcome (field_missing loc fds abbrev offset c) (st', go)"
      using own_outcome [of c ?st loc fds abbrev offset den]
        name_outcome [of c ?st loc fds abbrev offset den] Cons.prems Conv c by (auto simp: all_conversions_def)
    show ?thesis
    proof (cases "field_missing loc fds abbrev offset c")
      case True
      then have "fs_fail st'" using o by (simp add: conv_outcome_def)
      then show ?thesis using True p c c0 Conv fail_kept_loop [of st'] by auto
    next
      case False
      then have "\<not> fs_fail st'" using o by (simp add: conv_outcome_def)
      moreover from this have go using fail_keptD [OF fail_kept_char c] by simp
      ultimately show ?thesis using o False p c c0 Conv Cons.IH [of st'] Cons.prems(1)
        by (auto simp: conv_outcome_def)
    qed
  qed
qed

lemma format_outcome:
  assumes "list_all (pattern_ok all_conversions) ps"
  shows "format_result (to_stream loc den (concat (map pattern ps)) fds abbrev offset) =
      Inl (std_ios_failure []) \<longleftrightarrow> (\<exists>c. Conv c \<in> set ps \<and> field_missing loc fds abbrev offset c)"
  unfolding format_result_def to_stream_def by (subst fmt_loop_outcome [OF assms]) simp_all

end
