(* ===== verification/FormatProperties.thy ===== *)
theory FormatProperties
  imports FormatFail
begin

text \<open>
  Formatting dates and times: the properties C35 and C36 of the development.
\<close>





text \<open>
  C36. \<open>format\<close> throws exactly when a conversion of the pattern needs what the value does not
  have: a valid date, year, month, day or weekday, a time of day, a time zone abbreviation or an
  offset. Otherwise it returns the text. With facets \<open>%x\<close> needs the weekday too, without it does
  not.
\<close>

theorem format_fails_when_missing:
  assumes "list_all (pattern_ok all_conversions) ps"
  shows "format_result (to_stream loc den (concat (map pattern ps)) fds abbrev offset) =
      Inl (std_ios_failure []) \<longleftrightarrow> (\<exists>c. Conv c \<in> set ps \<and> field_missing loc fds abbrev offset c)"
  using assms by (rule format_outcome)

theorem format_fails_when_missing_witness:
  "format_result (year_stream None ''%F'' (year_ctor 2024)) = Inl (std_ios_failure [])"
proof -
  let ?fds = "fields_ymd 1 (ym_slash_int (year_slash_int (year_ctor 2024) 0) 0)"
  have "list_all (pattern_ok all_conversions) [Conv (CHR ''F'')]" by code_simp
  note t = format_fails_when_missing [OF this, of None 1 ?fds None None]
  have "field_missing None ?fds None None (CHR ''F'')" by code_simp
  then show ?thesis using t by (simp add: year_stream_def)
qed

end
