(* ===== verification/ParseInput.thy ===== *)
theory ParseInput
  imports CalFormat
begin

text \<open>
  The calendar library, eighth part: reading numbers and characters from an input stream
  (\<open>detail::read_unsigned\<close> to \<open>detail::checked_set\<close>). A stream is the characters not yet taken,
  its end-of-file bit and its fail bit. An input function on a stream that is not good sets the
  fail bit; finding the end sets the end-of-file bit.
\<close>

section \<open>Streams\<close>

record istream =
  is_rest :: string
  is_eof :: bool
  is_fail :: bool

definition istream_of :: "string \<Rightarrow> istream" where
  "istream_of s = \<lparr>is_rest = s, is_eof = False, is_fail = False\<rparr>"

definition is_good :: "istream \<Rightarrow> bool" where
  "is_good is \<longleftrightarrow> \<not> is_eof is \<and> \<not> is_fail is"

text \<open>\<open>setstate\<close>: the bits are added to those that are set.\<close>

definition setstate :: "bool \<Rightarrow> bool \<Rightarrow> istream \<Rightarrow> istream" where
  "setstate eofbit failbit is = is\<lparr>is_eof := is_eof is \<or> eofbit, is_fail := is_fail is \<or> failbit\<rparr>"

definition peek :: "istream \<Rightarrow> char option \<times> istream" where
  "peek is =
     (if \<not> is_good is then (None, setstate False True is)
      else case is_rest is of [] \<Rightarrow> (None, setstate True False is) | c # cs \<Rightarrow> (Some c, is))"

definition get_char :: "istream \<Rightarrow> char option \<times> istream" where
  "get_char is =
     (if \<not> is_good is then (None, setstate False True is)
      else case is_rest is of [] \<Rightarrow> (None, setstate True True is)
        | c # cs \<Rightarrow> (Some c, is\<lparr>is_rest := cs\<rparr>))"

text \<open>White space and letters as in the classic locale; \<open>ws\<close> skips white space.\<close>

definition is_space :: "char \<Rightarrow> bool" where
  "is_space c \<longleftrightarrow> c = CHR '' '' \<or> 9 \<le> (of_char c :: nat) \<and> (of_char c :: nat) \<le> 13"

definition is_alnum :: "char \<Rightarrow> bool" where
  "is_alnum c \<longleftrightarrow> is_digit c \<or> 65 \<le> (of_char c :: nat) \<and> (of_char c :: nat) \<le> 90 \<or>
     97 \<le> (of_char c :: nat) \<and> (of_char c :: nat) \<le> 122"

definition skip_ws :: "istream \<Rightarrow> istream" where
  "skip_ws is =
     (let rest = dropWhile is_space (is_rest is)
      in setstate (rest = []) False (is\<lparr>is_rest := rest\<rparr>))"

section \<open>Numbers\<close>

definition read_char :: "char \<Rightarrow> istream \<Rightarrow> bool \<times> istream" where
  "read_char fmt is = (case get_char is of
      (None, is') \<Rightarrow> (False, setstate False True is')
    | (Some c, is') \<Rightarrow> if c = fmt then (True, is') else (False, setstate False True is'))"

lemma peek_Some: "peek is = (Some c, is') \<longleftrightarrow> is_good is \<and> is' = is \<and> (\<exists>cs. is_rest is = c # cs)"
  by (auto simp: peek_def split: list.splits)

lemma peek_None: "peek is = (None, is') \<longleftrightarrow> (\<not> is_good is \<and> is' = setstate False True is) \<or>
    (is_good is \<and> is_rest is = [] \<and> is' = setstate True False is)"
  by (auto simp: peek_def split: list.splits)

lemma taken_less: "(Some c, is') = peek is \<Longrightarrow> length (is_rest (snd (get_char is'))) < length (is_rest is)"
  by (drule sym) (auto simp: peek_Some get_char_def)

text \<open>The digits up to a maximal number \<open>mx\<close>, counted and added up modulo \<open>2 ^ 32\<close>.\<close>

function read_digits :: "u32 \<Rightarrow> u32 \<Rightarrow> u32 \<Rightarrow> istream \<Rightarrow> u32 \<times> u32 \<times> istream" where
  "read_digits mx n x is = (case peek is of
      (None, is') \<Rightarrow> (n, x, is')
    | (Some c, is') \<Rightarrow>
        if \<not> is_digit c then (n, x, is')
        else
          let is'' = snd (get_char is');
              n' = n + 1;
              x' = 10 * x + of_nat (digit_val c)
          in if n' = mx then (n', x', is'') else read_digits mx n' x' is'')"
  by auto

termination
  by (relation "measure (\<lambda>(mx, n, x, is). length (is_rest is))")
    (auto simp: taken_less)

declare read_digits.simps [simp del]

definition read_unsigned :: "u32 \<Rightarrow> u32 \<Rightarrow> istream \<Rightarrow> u32 \<times> istream" where
  "read_unsigned mn mx is = (case read_digits mx 0 0 is of
     (n, x, is') \<Rightarrow> (x, if n < mn then setstate False True is' else is'))"

definition read_signed :: "u32 \<Rightarrow> u32 \<Rightarrow> istream \<Rightarrow> int \<times> istream" where
  "read_signed mn mx is = (case peek is of
      (None, is') \<Rightarrow> (0, setstate False (mn > 0) is')
    | (Some c, is') \<Rightarrow>
        if is_digit c \<or> c = CHR ''-'' \<or> c = CHR ''+''
        then
          let sign = (c = CHR ''-'' \<or> c = CHR ''+'');
              is'' = (if sign then snd (get_char is') else is');
              mx' = (if sign then mx - 1 else mx);
              (x, is3) = read_unsigned (max mn 1) mx' is''
          in if \<not> is_fail is3
             then ((if c = CHR ''-'' then sint (- x) else sint x), is3)
             else (0, setstate False (mn > 0) is3)
        else (0, setstate False (mn > 0) is'))"

text \<open>
  The digits before and after one decimal point, and the number of the latter. The point is that of
  the classic locale; the source takes it from the \<open>numpunct\<close> facet of the stream's locale, unless
  \<open>ONLY_C_LOCALE\<close> is set. The quotient in
  \<open>long double\<close> and its rounding to ticks are a parameter of the functions that use them.
\<close>

type_synonym u64 = "64 word"

type_synonym decimal = "u64 \<times> u64 \<times> nat"

function read_decimal :: "u32 \<Rightarrow> u32 \<Rightarrow> bool \<Rightarrow> decimal \<Rightarrow> istream \<Rightarrow> u32 \<times> decimal \<times> istream" where
  "read_decimal mx n fraction (i, f, fn) is = (case peek is of
      (None, is') \<Rightarrow> (n, (i, f, fn), is')
    | (Some c, is') \<Rightarrow>
        let is'' = snd (get_char is');
            n' = n + 1
        in if c = CHR ''.'' \<and> \<not> fraction
           then (if n' = mx then (n', (i, f, fn), is'')
             else read_decimal mx n' True (i, f, fn) is'')
           else if \<not> is_digit c then (n, (i, f, fn), is')
           else
             let d = (if \<not> fraction then (10 * i + of_nat (digit_val c), f, fn)
                   else (i, 10 * f + of_nat (digit_val c), fn + 1))
             in if n' = mx then (n', d, is'') else read_decimal mx n' fraction d is'')"
  by auto

termination
  by (relation "measure (\<lambda>(mx, n, fr, d, is). length (is_rest is))")
    (auto simp: taken_less)

declare read_decimal.simps [simp del]

definition read_long_double :: "u32 \<Rightarrow> u32 \<Rightarrow> istream \<Rightarrow> decimal \<times> istream" where
  "read_long_double mn mx is = (case read_decimal mx 0 False (0, 0, 0) is of
     (n, d, is') \<Rightarrow> if n < mn then ((0, 0, 0), setstate False True is') else (d, is'))"

section \<open>Sequences\<close>

text \<open>
  What \<open>read\<close> is asked to take, and the values it stores on the way. A zero character is nothing;
  a number stands for its digits, \<open>-1\<close> for nothing.
\<close>

datatype read_item =
    RChar char
  | RInt int
  | RSigned u32 u32
  | RUnsigned u32 u32
  | RDecimal u32 u32

datatype read_value = VInt int | VDecimal decimal

definition read_one :: "char \<Rightarrow> istream \<Rightarrow> istream" where
  "read_one a is =
     (if a = CHR 0x00 then is
      else case peek is of
          (None, is') \<Rightarrow> setstate True True is'
        | (Some c, is') \<Rightarrow> if c \<noteq> a then setstate False True is' else snd (get_char is'))"

fun read_chars :: "string \<Rightarrow> istream \<Rightarrow> istream" where
  "read_chars [] is = is"
| "read_chars (c # cs) is = (if is_good is then read_chars cs (read_one c is) else is)"

text \<open>The number converts to \<open>unsigned\<close> before its digits are taken.\<close>

definition int_digits :: "int \<Rightarrow> string" where
  "int_digits w = nat_to_string (unat (word_of_int w :: u32))"

fun read :: "read_item list \<Rightarrow> istream \<Rightarrow> read_value list \<times> istream" where
  "read [] is = ([], is)"
| "read (RChar a # items) is =
     (if a = CHR 0x00 then read items is
      else case peek is of
          (None, is') \<Rightarrow> ([], setstate True True is')
        | (Some c, is') \<Rightarrow> if c \<noteq> a then ([], setstate False True is')
            else read items (snd (get_char is')))"
| "read (RInt w # items) is =
     (let is' = (if w \<noteq> - 1 then read_chars (int_digits w) is else is)
      in if is_good is' then read items is' else ([], is'))"
| "read (RSigned mn mx # items) is = (case read_signed mn mx is of (x, is') \<Rightarrow>
     if is_fail is' then ([], is')
     else case read items is' of (vs, is'') \<Rightarrow> (VInt x # vs, is''))"
| "read (RUnsigned mn mx # items) is = (case read_unsigned mn mx is of (x, is') \<Rightarrow>
     if is_fail is' then ([], is')
     else case read items is' of (vs, is'') \<Rightarrow> (VInt (sint x) # vs, is''))"
| "read (RDecimal mn mx # items) is = (case read_long_double mn mx is of (x, is') \<Rightarrow>
     if is_fail is' then ([], is')
     else case read items is' of (vs, is'') \<Rightarrow> (VDecimal x # vs, is''))"

text \<open>A value that was stored, or what the variable held before.\<close>

fun int_value :: "read_value list \<Rightarrow> nat \<Rightarrow> int \<Rightarrow> int" where
  "int_value [] k x = x"
| "int_value (v # vs) 0 x = (case v of VInt i \<Rightarrow> i | VDecimal _ \<Rightarrow> x)"
| "int_value (v # vs) (Suc k) x = int_value vs k x"

fun decimal_value :: "read_value list \<Rightarrow> nat \<Rightarrow> decimal" where
  "decimal_value [] k = (0, 0, 0)"
| "decimal_value (v # vs) 0 = (case v of VDecimal d \<Rightarrow> d | VInt _ \<Rightarrow> (0, 0, 0))"
| "decimal_value (v # vs) (Suc k) = decimal_value vs k"

definition checked_set :: "'a \<Rightarrow> 'a \<Rightarrow> 'a \<Rightarrow> istream \<Rightarrow> 'a \<times> istream" where
  "checked_set value from not_a_value is =
     (if is_fail is then (value, is)
      else if value = not_a_value then (from, is)
      else if value \<noteq> from then (value, setstate False True is)
      else (value, is))"

end
