(* ===== verification/CalKeyword.thy ===== *)
theory CalKeyword
  imports ParseInput
begin

text \<open>
  The calendar library, in builds with \<open>ONLY_C_LOCALE\<close>: looking for one of several keywords at
  the beginning of a stream (\<open>detail::scan_keyword\<close>). The two counters of the code are the numbers
  of the keywords that might match and of those that do.
\<close>

datatype kw_status = Doesnt_match | Might_match | Does_match

definition to_upper :: "char \<Rightarrow> char" where
  "to_upper c = (if 97 \<le> (of_char c :: nat) \<and> (of_char c :: nat) \<le> 122 then char_of ((of_char c :: nat) - 32) else c)"

definition n_match :: "kw_status \<Rightarrow> kw_status list \<Rightarrow> nat" where
  "n_match s st = length (filter (\<lambda>x. x = s) st)"

definition scan_init :: "string list \<Rightarrow> kw_status list" where
  "scan_init kws = map (\<lambda>ky. if ky \<noteq> [] then Might_match else Does_match) kws"

text \<open>The statuses after the character \<open>c\<close> at the place \<open>indx\<close>; it is taken when a keyword has it.\<close>

definition scan_char :: "char \<Rightarrow> nat \<Rightarrow> string \<Rightarrow> kw_status \<Rightarrow> kw_status" where
  "scan_char c indx ky s =
     (if s \<noteq> Might_match then s
      else if c = to_upper (ky ! indx)
      then (if length ky = indx + 1 then Does_match else Might_match)
      else Doesnt_match)"

definition scan_consume :: "char \<Rightarrow> nat \<Rightarrow> string list \<Rightarrow> kw_status list \<Rightarrow> bool" where
  "scan_consume c indx kws st \<longleftrightarrow> list_ex (\<lambda>(ky, s). s = Might_match \<and> c = to_upper (ky ! indx)) (zip kws st)"

text \<open>A keyword that matched before a longer one was taken further does not match any more.\<close>

definition scan_prune :: "nat \<Rightarrow> string list \<Rightarrow> kw_status list \<Rightarrow> kw_status list" where
  "scan_prune indx kws st =
     (if n_match Might_match st + n_match Does_match st > 1
      then map2 (\<lambda>ky s. if s = Does_match \<and> length ky \<noteq> indx + 1 then Doesnt_match else s) kws st
      else st)"

lemma scan_char_none:
  "\<not> scan_consume c indx kws st \<Longrightarrow> n_match Might_match (map2 (scan_char c indx) kws st) = 0"
  by (auto simp: scan_consume_def n_match_def scan_char_def list_ex_iff filter_empty_conv split: if_splits)

function scan_loop :: "string list \<Rightarrow> nat \<Rightarrow> kw_status list \<Rightarrow> istream \<Rightarrow> kw_status list \<times> istream" where
  "scan_loop kws indx st is =
     (if is_fail is \<or> n_match Might_match st = 0 then (st, is)
      else case peek is of
          (None, is') \<Rightarrow> (st, setstate True False is')
        | (Some ic, is') \<Rightarrow>
            let c = to_upper ic;
                st' = map2 (scan_char c indx) kws st
            in if scan_consume c indx kws st
               then scan_loop kws (indx + 1) (scan_prune indx kws st') (snd (get_char is'))
               else scan_loop kws (indx + 1) st' is')"
  by auto

termination
  by (relation "measures [\<lambda>(kws, indx, st, is). length (is_rest is), \<lambda>(kws, indx, st, is). n_match Might_match st]")
    (auto simp: taken_less scan_char_none peek_Some dest!: sym [of "(Some _, _)"])

declare scan_loop.simps [simp del]

text \<open>The index of the first keyword that matches, or their number.\<close>

definition scan_keyword :: "string list \<Rightarrow> istream \<Rightarrow> nat \<times> istream" where
  "scan_keyword kws is =
     (case scan_loop kws 0 (scan_init kws) is of (st, is') \<Rightarrow>
        let i = length (takeWhile (\<lambda>s. s \<noteq> Does_match) st)
        in (i, if i = length kws then setstate False True is' else is'))"

end
