(* ===== verification/CalParse.thy ===== *)
theory CalParse
  imports CalKeyword
begin

text \<open>
  The calendar library, ninth part: parsing by a pattern (\<open>from_stream\<close>). The record holds the
  stream and the local variables of \<open>from_stream\<close>, each with the value that stands for "not
  parsed"; \<open>p_command\<close> is the conversion specification from its percent sign on. The \<open>time_get\<close>
  facet of the stream's locale and the conversion of a decimal number to ticks are parameters; in
  builds with \<open>ONLY_C_LOCALE\<close> there is no facet and the library reads the names itself.
\<close>

section \<open>State\<close>

definition not_a_year :: int where "not_a_year = - 32768"
definition not_a_2digit_year :: int where "not_a_2digit_year = 100"
definition not_a_century :: int where "not_a_century = - (2 ^ 31)"
definition not_a_month :: int where "not_a_month = 0"
definition not_a_day :: int where "not_a_day = 0"
definition not_a_hour :: int where "not_a_hour = - (2 ^ 31)"
definition not_a_hour_12_value :: int where "not_a_hour_12_value = 0"
definition not_a_minute :: int where "not_a_minute = not_a_hour"
definition not_a_second :: int where "not_a_second = - (2 ^ 63)"
definition not_a_doy :: int where "not_a_doy = - 1"
definition not_a_weekday :: int where "not_a_weekday = 8"
definition not_a_week_num :: int where "not_a_week_num = 100"
definition not_a_ampm :: int where "not_a_ampm = - 1"
definition not_a_offset :: int where "not_a_offset = - (2 ^ 63)"

record parse_state =
  p_is :: istream
  p_tm :: tm
  p_command :: "string option"
  p_modified :: "char option"
  p_width :: int
  p_Y :: int
  p_y :: int
  p_g :: int
  p_G :: int
  p_C :: int
  p_m :: int
  p_d :: int
  p_j :: int
  p_wd :: int
  p_H :: int
  p_I :: int
  p_p :: int
  p_M :: int
  p_s :: int
  p_U :: int
  p_V :: int
  p_W :: int
  p_abbrev :: string
  p_offset :: int

definition parse_init :: "istream \<Rightarrow> parse_state" where
  "parse_init is = \<lparr>p_is = is, p_tm = tm_zero, p_command = None, p_modified = None, p_width = - 1,
     p_Y = not_a_year, p_y = not_a_2digit_year, p_g = not_a_2digit_year, p_G = not_a_year,
     p_C = not_a_century, p_m = not_a_month, p_d = not_a_day, p_j = not_a_doy,
     p_wd = not_a_weekday, p_H = not_a_hour, p_I = not_a_hour_12_value, p_p = not_a_ampm,
     p_M = not_a_minute, p_s = not_a_second, p_U = not_a_week_num, p_V = not_a_week_num,
     p_W = not_a_week_num, p_abbrev = [], p_offset = not_a_offset\<rparr>"

type_synonym ticks = "decimal \<Rightarrow> int"

definition p_state :: "(istream \<Rightarrow> istream) \<Rightarrow> parse_state \<Rightarrow> parse_state" where
  "p_state f ps = ps\<lparr>p_is := f (p_is ps)\<rparr>"

definition p_fail :: "parse_state \<Rightarrow> bool" where
  "p_fail ps = is_fail (p_is ps)"

definition p_read :: "read_item list \<Rightarrow> parse_state \<Rightarrow> read_value list \<times> parse_state" where
  "p_read items ps = (case read items (p_is ps) of (vs, is') \<Rightarrow> (vs, ps\<lparr>p_is := is'\<rparr>))"

text \<open>\<open>checked_set\<close> on one of the variables.\<close>

definition check ::
    "(parse_state \<Rightarrow> 'a) \<Rightarrow> (('a \<Rightarrow> 'a) \<Rightarrow> parse_state \<Rightarrow> parse_state) \<Rightarrow> 'a \<Rightarrow> 'a \<Rightarrow> parse_state \<Rightarrow> parse_state"
  where
  "check get_var set_var from not_a_value ps =
     (case checked_set (get_var ps) from not_a_value (p_is ps) of
        (x, is') \<Rightarrow> set_var (\<lambda>_. x) (ps\<lparr>p_is := is'\<rparr>))"

definition facet_get :: "time_get \<Rightarrow> char \<Rightarrow> parse_state \<Rightarrow> bool \<times> bool \<times> parse_state" where
  "facet_get get c ps =
     (case get ((case p_command ps of None \<Rightarrow> [] | Some t \<Rightarrow> t) @ [c]) (p_tm ps) (is_rest (p_is ps)) of
        (t, rest, e, f) \<Rightarrow> (e, f, ps\<lparr>p_tm := t, p_is := (p_is ps)\<lparr>is_rest := rest\<rparr>\<rparr>))"

text \<open>A name, by its index in the table.\<close>

definition read_name :: "string list \<Rightarrow> parse_state \<Rightarrow> int \<times> parse_state" where
  "read_name names ps = (case scan_keyword names (p_is ps) of (i, is') \<Rightarrow> (int i, ps\<lparr>p_is := is'\<rparr>))"

text \<open>\<open>ws\<close> on a stream that need not be good.\<close>

definition skip_white :: "parse_state \<Rightarrow> parse_state" where
  "skip_white ps = p_state (\<lambda>is. if is_good is then skip_ws is else setstate False True is) ps"

definition conv_end :: "parse_state \<Rightarrow> parse_state" where
  "conv_end ps = ps\<lparr>p_command := None, p_width := - 1, p_modified := None\<rparr>"

text \<open>A modifier the conversion does not take: the specification is expected as it is.\<close>

definition read_spec :: "char \<Rightarrow> parse_state \<Rightarrow> parse_state" where
  "read_spec c ps = snd (p_read [RChar (CHR ''%''), RInt (p_width ps),
     RChar (case p_modified ps of None \<Rightarrow> CHR 0x00 | Some m \<Rightarrow> m), RChar c] ps)"

definition width_or :: "u32 \<Rightarrow> parse_state \<Rightarrow> u32" where
  "width_or w ps = (if p_width ps = - 1 then w else word_of_int (p_width ps))"

text \<open>The width of the seconds: two digits, and those after the point.\<close>

definition seconds_width :: "int \<Rightarrow> u32" where
  "seconds_width den = (if den = 1 then 2 else 3 + of_nat (dfs_width den))"

section \<open>Numbers\<close>

text \<open>One number.\<close>

definition parse_number ::
    "read_item \<Rightarrow> (parse_state \<Rightarrow> int) \<Rightarrow> ((int \<Rightarrow> int) \<Rightarrow> parse_state \<Rightarrow> parse_state) \<Rightarrow> int \<Rightarrow>
      parse_state \<Rightarrow> parse_state" where
  "parse_number item get_var set_var not_a_value ps = (case p_read [item] ps of (vs, ps1) \<Rightarrow>
     check get_var set_var (int_value vs 0 not_a_value) not_a_value ps1)"

text \<open>
  A number is read by the library itself without a modifier, and without facets also with the one
  modifier that the conversion takes, so unless it is the other one.
\<close>

definition own_number :: "std_locale \<Rightarrow> char \<Rightarrow> parse_state \<Rightarrow> bool" where
  "own_number loc other ps \<longleftrightarrow> p_modified ps = None \<or> loc = None \<and> p_modified ps \<noteq> Some other"

text \<open>The value the facet finds.\<close>

definition facet_value ::
    "time_get \<Rightarrow> (tm \<Rightarrow> int) \<Rightarrow> (parse_state \<Rightarrow> int) \<Rightarrow> ((int \<Rightarrow> int) \<Rightarrow> parse_state \<Rightarrow> parse_state) \<Rightarrow> int \<Rightarrow>
      char \<Rightarrow> parse_state \<Rightarrow> parse_state" where
  "facet_value get of_tm get_var set_var not_a_value c ps = (case facet_get get c ps of (e, f, ps1) \<Rightarrow>
     p_state (setstate e f)
       (if \<not> f then check get_var set_var (of_tm (p_tm ps1)) not_a_value ps1 else ps1))"

text \<open>With the modifier \<open>m\<close> the facet is asked.\<close>

definition parse_alternative ::
    "std_locale \<Rightarrow> char \<Rightarrow> (tm \<Rightarrow> int) \<Rightarrow> (parse_state \<Rightarrow> int) \<Rightarrow> ((int \<Rightarrow> int) \<Rightarrow> parse_state \<Rightarrow> parse_state) \<Rightarrow>
      int \<Rightarrow> char \<Rightarrow> parse_state \<Rightarrow> parse_state" where
  "parse_alternative loc m of_tm get_var set_var not_a_value c ps = (case loc of
      None \<Rightarrow> read_spec c ps
    | Some (_, get) \<Rightarrow>
        if p_modified ps = Some m then facet_value get of_tm get_var set_var not_a_value c ps
        else read_spec c ps)"

text \<open>The conversions that take one number and no modifier.\<close>

definition parse_g :: "char \<Rightarrow> parse_state \<Rightarrow> parse_state" where
  "parse_g c ps = conv_end (case p_modified ps of
      None \<Rightarrow> parse_number (RUnsigned 1 (width_or 2 ps)) p_g p_g_update not_a_2digit_year ps
    | Some _ \<Rightarrow> read_spec c ps)"

definition parse_G :: "char \<Rightarrow> parse_state \<Rightarrow> parse_state" where
  "parse_G c ps = conv_end (case p_modified ps of
      None \<Rightarrow> parse_number (RSigned 1 (width_or 4 ps)) p_G p_G_update not_a_year ps
    | Some _ \<Rightarrow> read_spec c ps)"

definition parse_U :: "char \<Rightarrow> parse_state \<Rightarrow> parse_state" where
  "parse_U c ps = conv_end (case p_modified ps of
      None \<Rightarrow> parse_number (RUnsigned 1 (width_or 2 ps)) p_U p_U_update not_a_week_num ps
    | Some _ \<Rightarrow> read_spec c ps)"

definition parse_V :: "char \<Rightarrow> parse_state \<Rightarrow> parse_state" where
  "parse_V c ps = conv_end (case p_modified ps of
      None \<Rightarrow> parse_number (RUnsigned 1 (width_or 2 ps)) p_V p_V_update not_a_week_num ps
    | Some _ \<Rightarrow> read_spec c ps)"

definition parse_W :: "char \<Rightarrow> parse_state \<Rightarrow> parse_state" where
  "parse_W c ps = conv_end (case p_modified ps of
      None \<Rightarrow> parse_number (RUnsigned 1 (width_or 2 ps)) p_W p_W_update not_a_week_num ps
    | Some _ \<Rightarrow> read_spec c ps)"

definition parse_j :: "char \<Rightarrow> parse_state \<Rightarrow> parse_state" where
  "parse_j c ps = conv_end (case p_modified ps of
      None \<Rightarrow> parse_number (RUnsigned 1 (width_or 3 ps)) p_j p_j_update not_a_doy ps
    | Some _ \<Rightarrow> read_spec c ps)"

definition parse_I :: "char \<Rightarrow> parse_state \<Rightarrow> parse_state" where
  "parse_I c ps = conv_end (case p_modified ps of
      None \<Rightarrow> (case p_read [RUnsigned 1 (width_or 2 ps)] ps of (vs, ps1) \<Rightarrow>
        let tI = int_value vs 0 not_a_hour_12_value
        in check p_I p_I_update tI not_a_hour_12_value
             (if \<not> (1 \<le> tI \<and> tI \<le> 12) then p_state (setstate False True) ps1 else ps1))
    | Some _ \<Rightarrow> read_spec c ps)"

text \<open>Those that take a modifier.\<close>

definition parse_d :: "std_locale \<Rightarrow> char \<Rightarrow> parse_state \<Rightarrow> parse_state" where
  "parse_d loc c ps = conv_end
     (if own_number loc (CHR ''E'') ps then parse_number (RUnsigned 1 (width_or 2 ps)) p_d p_d_update not_a_day ps
      else parse_alternative loc (CHR ''O'') tm_mday p_d p_d_update not_a_day c ps)"

definition parse_H :: "std_locale \<Rightarrow> char \<Rightarrow> parse_state \<Rightarrow> parse_state" where
  "parse_H loc c ps = conv_end
     (if own_number loc (CHR ''E'') ps then parse_number (RUnsigned 1 (width_or 2 ps)) p_H p_H_update not_a_hour ps
      else parse_alternative loc (CHR ''O'') tm_hour p_H p_H_update not_a_hour c ps)"

definition parse_M :: "std_locale \<Rightarrow> char \<Rightarrow> parse_state \<Rightarrow> parse_state" where
  "parse_M loc c ps = conv_end
     (if own_number loc (CHR ''E'') ps then parse_number (RUnsigned 1 (width_or 2 ps)) p_M p_M_update not_a_minute ps
      else parse_alternative loc (CHR ''O'') tm_min p_M p_M_update not_a_minute c ps)"

definition parse_m :: "std_locale \<Rightarrow> char \<Rightarrow> parse_state \<Rightarrow> parse_state" where
  "parse_m loc c ps = conv_end
     (if own_number loc (CHR ''E'') ps then parse_number (RUnsigned 1 (width_or 2 ps)) p_m p_m_update not_a_month ps
      else parse_alternative loc (CHR ''O'') (\<lambda>t. tm_mon t + 1) p_m p_m_update not_a_month c ps)"

definition parse_Y :: "std_locale \<Rightarrow> char \<Rightarrow> parse_state \<Rightarrow> parse_state" where
  "parse_Y loc c ps = conv_end
     (if own_number loc (CHR ''O'') ps then parse_number (RSigned 1 (width_or 4 ps)) p_Y p_Y_update not_a_year ps
      else parse_alternative loc (CHR ''E'') (\<lambda>t. tm_year t + 1900) p_Y p_Y_update not_a_year c ps)"

text \<open>Those that take either modifier.\<close>

definition parse_y :: "std_locale \<Rightarrow> char \<Rightarrow> parse_state \<Rightarrow> parse_state" where
  "parse_y loc c ps = conv_end
     (let own = parse_number (RUnsigned 1 (width_or 2 ps)) p_y p_y_update not_a_2digit_year ps
      in case loc of
           None \<Rightarrow> own
         | Some (_, get) \<Rightarrow>
             if p_modified ps = None then own
             else facet_value get (\<lambda>t. tm_year t + 1900) p_Y p_Y_update not_a_year c ps)"

definition facet_century :: "time_get \<Rightarrow> char \<Rightarrow> parse_state \<Rightarrow> parse_state" where
  "facet_century get c ps = (case facet_get get c ps of (e, f, ps1) \<Rightarrow>
     let tY = tm_year (p_tm ps1) + 1900;
         tC = (if \<not> f then c_div (if tY \<ge> 0 then tY else tY - 99) 100 else not_a_century)
     in check p_C p_C_update tC not_a_century (p_state (setstate e f) ps1))"

definition parse_C :: "std_locale \<Rightarrow> char \<Rightarrow> parse_state \<Rightarrow> parse_state" where
  "parse_C loc c ps = conv_end
     (let own = parse_number (RSigned 1 (width_or 2 ps)) p_C p_C_update not_a_century ps
      in case loc of
           None \<Rightarrow> own
         | Some (_, get) \<Rightarrow> if p_modified ps = None then own else facet_century get c ps)"

section \<open>Dates and times\<close>

text \<open>Month, day and year of the century between slashes.\<close>

definition parse_slashes :: "read_item list \<Rightarrow> parse_state \<Rightarrow> parse_state" where
  "parse_slashes items ps = (case p_read items ps of (vs, ps1) \<Rightarrow>
     check p_d p_d_update (int_value vs 1 not_a_day) not_a_day
       (check p_m p_m_update (int_value vs 0 not_a_month) not_a_month
         (check p_y p_y_update (int_value vs 2 not_a_2digit_year) not_a_2digit_year ps1)))"

definition parse_D :: "char \<Rightarrow> parse_state \<Rightarrow> parse_state" where
  "parse_D c ps = conv_end (case p_modified ps of
      None \<Rightarrow> parse_slashes [RUnsigned 1 2, RChar CHR 0x00, RChar (CHR ''/''), RChar CHR 0x00,
        RUnsigned 1 2, RChar CHR 0x00, RChar (CHR ''/''), RChar CHR 0x00, RUnsigned 1 2] ps
    | Some _ \<Rightarrow> read_spec c ps)"

definition parse_F :: "char \<Rightarrow> parse_state \<Rightarrow> parse_state" where
  "parse_F c ps = conv_end (case p_modified ps of
      None \<Rightarrow> (case p_read [RSigned 1 (width_or 4 ps), RChar (CHR ''-''), RUnsigned 1 2,
          RChar (CHR ''-''), RUnsigned 1 2] ps of (vs, ps1) \<Rightarrow>
        check p_d p_d_update (int_value vs 2 not_a_day) not_a_day
          (check p_m p_m_update (int_value vs 1 not_a_month) not_a_month
            (check p_Y p_Y_update (int_value vs 0 not_a_year) not_a_year ps1)))
    | Some _ \<Rightarrow> read_spec c ps)"

definition parse_R :: "char \<Rightarrow> parse_state \<Rightarrow> parse_state" where
  "parse_R c ps = conv_end (case p_modified ps of
      None \<Rightarrow> (case p_read [RUnsigned 1 2, RChar CHR 0x00, RChar (CHR '':''), RChar CHR 0x00,
          RUnsigned 1 2, RChar CHR 0x00] ps of (vs, ps1) \<Rightarrow>
        check p_M p_M_update (int_value vs 1 not_a_minute) not_a_minute
          (check p_H p_H_update (int_value vs 0 not_a_hour) not_a_hour ps1))
    | Some _ \<Rightarrow> read_spec c ps)"

definition parse_S :: "std_locale \<Rightarrow> ticks \<Rightarrow> int \<Rightarrow> char \<Rightarrow> parse_state \<Rightarrow> parse_state" where
  "parse_S loc tk den c ps = conv_end
     (if own_number loc (CHR ''E'') ps then
        (case p_read [RDecimal 1 (width_or (seconds_width den) ps)] ps of (vs, ps1) \<Rightarrow>
           check p_s p_s_update (tk (decimal_value vs 0)) not_a_second ps1)
      else parse_alternative loc (CHR ''O'') (\<lambda>t. tm_sec t * den) p_s p_s_update not_a_second c ps)"

text \<open>Hours, minutes and seconds between colons; the hours are the variable given.\<close>

definition parse_clock ::
    "(parse_state \<Rightarrow> int) \<Rightarrow> ((int \<Rightarrow> int) \<Rightarrow> parse_state \<Rightarrow> parse_state) \<Rightarrow> int \<Rightarrow> ticks \<Rightarrow> int \<Rightarrow>
      parse_state \<Rightarrow> parse_state" where
  "parse_clock get_hour set_hour not_a_value tk den ps =
     (case p_read [RUnsigned 1 2, RChar (CHR '':''), RUnsigned 1 2, RChar (CHR '':''),
          RDecimal 1 (seconds_width den)] ps of (vs, ps1) \<Rightarrow>
        check p_s p_s_update (tk (decimal_value vs 2)) not_a_second
          (check p_M p_M_update (int_value vs 1 not_a_minute) not_a_minute
            (check get_hour set_hour (int_value vs 0 not_a_value) not_a_value ps1)))"

definition parse_T :: "ticks \<Rightarrow> int \<Rightarrow> char \<Rightarrow> parse_state \<Rightarrow> parse_state" where
  "parse_T tk den c ps = conv_end (case p_modified ps of
      None \<Rightarrow> parse_clock p_H p_H_update not_a_hour tk den ps
    | Some _ \<Rightarrow> read_spec c ps)"

section \<open>Names and locale formats\<close>

definition parse_weekday_number :: "char \<Rightarrow> parse_state \<Rightarrow> int \<times> parse_state" where
  "parse_weekday_number c ps =
     (case p_read [RUnsigned 1 (width_or 1 ps)] ps of (vs, ps1) \<Rightarrow>
        let wd = int_value vs 0 not_a_weekday
        in if p_fail ps1 then (wd, ps1)
           else if c = CHR ''u'' then
             (if \<not> (1 \<le> wd \<and> wd \<le> 7) then (not_a_weekday, p_state (setstate False True) ps1)
              else (if wd = 7 then 0 else wd, ps1))
           else
             (if \<not> (0 \<le> wd \<and> wd \<le> 6) then (not_a_weekday, p_state (setstate False True) ps1)
              else (wd, ps1)))"

definition facet_weekday :: "time_get \<Rightarrow> char \<Rightarrow> parse_state \<Rightarrow> int \<times> parse_state" where
  "facet_weekday get c ps = (case facet_get get c ps of (e, f, ps1) \<Rightarrow>
     let ps2 = p_state (setstate e f) ps1
     in (if \<not> p_fail ps2 then tm_wday (p_tm ps2) else not_a_weekday, ps2))"

definition parse_weekday_name :: "std_locale \<Rightarrow> char \<Rightarrow> parse_state \<Rightarrow> int \<times> parse_state" where
  "parse_weekday_name loc c ps = (case loc of
      Some (_, get) \<Rightarrow> facet_weekday get c ps
    | None \<Rightarrow> (case read_name weekday_names ps of (i, ps1) \<Rightarrow>
        (if \<not> p_fail ps1 then i mod 7 else not_a_weekday, ps1)))"

definition parse_a :: "std_locale \<Rightarrow> char \<Rightarrow> parse_state \<Rightarrow> parse_state" where
  "parse_a loc c ps =
     (let (wd, ps1) =
        (if c = CHR ''a'' \<or> c = CHR ''A'' then
           (if p_modified ps = None then parse_weekday_name loc c ps else (not_a_weekday, read_spec c ps))
         else if own_number loc (CHR ''E'') ps then parse_weekday_number c ps
         else (case loc of
             Some (_, get) \<Rightarrow> if p_modified ps = Some (CHR ''O'') then facet_weekday get c ps
               else (not_a_weekday, read_spec c ps)
           | None \<Rightarrow> (not_a_weekday, read_spec c ps)))
      in conv_end (if wd \<noteq> not_a_weekday then check p_wd p_wd_update wd not_a_weekday ps1 else ps1))"

definition parse_b :: "std_locale \<Rightarrow> char \<Rightarrow> parse_state \<Rightarrow> parse_state" where
  "parse_b loc c ps = conv_end (case p_modified ps of
      Some _ \<Rightarrow> read_spec c ps
    | None \<Rightarrow> (case loc of
        Some (_, get) \<Rightarrow> (case facet_get get c ps of (e, f, ps1) \<Rightarrow>
          check p_m p_m_update (if \<not> f then tm_mon (p_tm ps1) + 1 else not_a_month) not_a_month
            (p_state (setstate e f) ps1))
      | None \<Rightarrow> (case read_name month_names ps of (i, ps1) \<Rightarrow>
          check p_m p_m_update (if \<not> p_fail ps1 then i mod 12 + 1 else not_a_month) not_a_month ps1)))"

definition set_date :: "tm \<Rightarrow> parse_state \<Rightarrow> parse_state" where
  "set_date t ps = check p_d p_d_update (tm_mday t) not_a_day
     (check p_m p_m_update (tm_mon t + 1) not_a_month
     (check p_Y p_Y_update (tm_year t + 1900) not_a_year ps))"

definition set_time :: "int \<Rightarrow> tm \<Rightarrow> parse_state \<Rightarrow> parse_state" where
  "set_time den t ps = check p_s p_s_update (tm_sec t * den) not_a_second
     (check p_M p_M_update (tm_min t) not_a_minute
     (check p_H p_H_update (tm_hour t) not_a_hour ps))"

text \<open>What the facet finds, unless it fails, is set before the bits.\<close>

definition facet_then :: "time_get \<Rightarrow> (tm \<Rightarrow> parse_state \<Rightarrow> parse_state) \<Rightarrow> char \<Rightarrow> parse_state \<Rightarrow> parse_state" where
  "facet_then get set_all c ps = (case facet_get get c ps of (e, f, ps1) \<Rightarrow>
     p_state (setstate e f) (if \<not> f then set_all (p_tm ps1) ps1 else ps1))"

definition parse_c_own :: "ticks \<Rightarrow> int \<Rightarrow> parse_state \<Rightarrow> parse_state" where
  "parse_c_own tk den ps =
     (let (i, ps1) = read_name weekday_names ps;
          (j, ps2) = read_name month_names (skip_white (check p_wd p_wd_update (i mod 7) not_a_weekday ps1));
          ps3 = skip_white (check p_m p_m_update (j mod 12 + 1) not_a_month ps2);
          ps4 = skip_white (parse_number (RUnsigned 1 2) p_d p_d_update not_a_day ps3);
          ps5 = skip_white (parse_clock p_H p_H_update not_a_hour tk den ps4)
      in parse_number (RUnsigned 1 4) p_Y p_Y_update not_a_year ps5)"

definition parse_c :: "std_locale \<Rightarrow> ticks \<Rightarrow> int \<Rightarrow> char \<Rightarrow> parse_state \<Rightarrow> parse_state" where
  "parse_c loc tk den c ps = conv_end
     (if p_modified ps = Some (CHR ''O'') then read_spec c ps
      else case loc of
          Some (_, get) \<Rightarrow> facet_then get (\<lambda>t. set_time den t \<circ> set_date t) c ps
        | None \<Rightarrow> parse_c_own tk den ps)"

definition parse_x :: "std_locale \<Rightarrow> char \<Rightarrow> parse_state \<Rightarrow> parse_state" where
  "parse_x loc c ps = conv_end
     (if p_modified ps = Some (CHR ''O'') then read_spec c ps
      else case loc of
          Some (_, get) \<Rightarrow> facet_then get set_date c ps
        | None \<Rightarrow> parse_slashes [RUnsigned 1 2, RChar (CHR ''/''), RUnsigned 1 2, RChar (CHR ''/''),
            RUnsigned 1 2] ps)"

definition parse_X :: "std_locale \<Rightarrow> ticks \<Rightarrow> int \<Rightarrow> char \<Rightarrow> parse_state \<Rightarrow> parse_state" where
  "parse_X loc tk den c ps = conv_end
     (if p_modified ps = Some (CHR ''O'') then read_spec c ps
      else case loc of
          Some (_, get) \<Rightarrow> facet_then get (set_time den) c ps
        | None \<Rightarrow> parse_clock p_H p_H_update not_a_hour tk den ps)"

definition facet_ampm :: "time_get \<Rightarrow> char \<Rightarrow> parse_state \<Rightarrow> parse_state" where
  "facet_ampm get c ps = (case facet_get get c (ps\<lparr>p_tm := tm_zero\<lparr>tm_hour := 1\<rparr>\<rparr>) of (e, f, ps1) \<Rightarrow>
     let hour = tm_hour (p_tm ps1);
         tp = (if hour = 1 then 0 else if hour = 13 then 1 else not_a_ampm)
     in check p_p p_p_update tp not_a_ampm (p_state (setstate e f) ps1))"

definition own_ampm :: "parse_state \<Rightarrow> parse_state" where
  "own_ampm ps = (case read_name ampm_names ps of (i, ps1) \<Rightarrow> check p_p p_p_update i not_a_ampm ps1)"

definition parse_p :: "std_locale \<Rightarrow> char \<Rightarrow> parse_state \<Rightarrow> parse_state" where
  "parse_p loc c ps = conv_end (case p_modified ps of
      Some _ \<Rightarrow> read_spec c ps
    | None \<Rightarrow> (case loc of Some (_, get) \<Rightarrow> facet_ampm get c ps | None \<Rightarrow> own_ampm ps))"

definition parse_r :: "std_locale \<Rightarrow> ticks \<Rightarrow> int \<Rightarrow> char \<Rightarrow> parse_state \<Rightarrow> parse_state" where
  "parse_r loc tk den c ps = conv_end (case p_modified ps of
      Some _ \<Rightarrow> read_spec c ps
    | None \<Rightarrow> (case loc of
        Some (_, get) \<Rightarrow> facet_then get (set_time den) c ps
      | None \<Rightarrow> own_ampm (skip_white (parse_clock p_I p_I_update not_a_hour_12_value tk den ps))))"

section \<open>White space and time zone\<close>

text \<open>At the end of the input the function leaves the switch before the command is closed.\<close>

definition parse_white :: "char \<Rightarrow> parse_state \<Rightarrow> parse_state" where
  "parse_white c ps = (case p_modified ps of
      Some _ \<Rightarrow> conv_end (read_spec c ps)
    | None \<Rightarrow> (case peek (p_is ps) of
        (None, is') \<Rightarrow> ps\<lparr>p_is := setstate True (c = CHR ''n'') is',
          p_command := map_option (\<lambda>t. t @ [c]) (p_command ps)\<rparr>
      | (Some ic, is') \<Rightarrow> conv_end (ps\<lparr>p_is :=
          (if is_space ic then snd (get_char is')
           else if c = CHR ''n'' then setstate False True is' else is')\<rparr>)))"

text \<open>Hours, then minutes: directly, or after a colon when there is a modifier.\<close>

definition read_offset :: "bool \<Rightarrow> istream \<Rightarrow> int \<times> istream" where
  "read_offset modified is = (case read [RUnsigned (if modified then 1 else 2) 2] is of (vs, is1) \<Rightarrow>
     let toff = (if \<not> is_fail is1 then 60 * \<bar>int_value vs 0 0\<bar> else not_a_offset)
     in if \<not> is_good is1 then (toff, is1)
        else (case peek is1 of
            (None, is2) \<Rightarrow> (toff, is2)
          | (Some c, is2) \<Rightarrow>
              if modified \<and> c \<noteq> CHR '':'' \<or> \<not> modified \<and> \<not> is_digit c then (toff, is2)
              else (case read [RUnsigned 2 2] (if modified then snd (get_char is2) else is2) of
                (ws, is3) \<Rightarrow> (if \<not> is_fail is3 then toff + int_value ws 0 0 else toff, is3))))"

definition parse_z :: "parse_state \<Rightarrow> parse_state" where
  "parse_z ps =
     (let (ic, is1) = peek (p_is ps);
          sign = (ic = Some (CHR ''-'') \<or> ic = Some (CHR ''+''));
          (toff, is2) = read_offset (p_modified ps \<noteq> None) (if sign then snd (get_char is1) else is1);
          toff' = (if ic = Some (CHR ''-'') \<and> \<not> is_fail is2 then - toff else toff)
      in conv_end (check p_offset p_offset_update toff' not_a_offset (ps\<lparr>p_is := is2\<rparr>)))"

definition zone_char :: "char \<Rightarrow> bool" where
  "zone_char c \<longleftrightarrow> 1 < (of_char c :: nat) \<and> (of_char c :: nat) < 127 \<and>
     (is_alnum c \<or> c = CHR ''_'' \<or> c = CHR ''/'' \<or> c = CHR ''-'' \<or> c = CHR ''+'')"

definition parse_Z :: "char \<Rightarrow> parse_state \<Rightarrow> parse_state" where
  "parse_Z c ps = conv_end (case p_modified ps of
      Some _ \<Rightarrow> read_spec c ps
    | None \<Rightarrow>
        let is = p_is ps;
            buf = (if is_good is then takeWhile zone_char (is_rest is) else []);
            rest = (if is_good is then dropWhile zone_char (is_rest is) else is_rest is);
            is1 = setstate (is_good is \<and> rest = []) (buf = []) (is\<lparr>is_rest := rest\<rparr>)
        in check p_abbrev p_abbrev_update buf [] (ps\<lparr>p_is := is1\<rparr>))"

section \<open>The loop over the pattern\<close>

definition parse_modifier :: "char \<Rightarrow> parse_state \<Rightarrow> parse_state" where
  "parse_modifier c ps = (case p_modified ps of
      None \<Rightarrow> ps\<lparr>p_modified := Some c, p_command := map_option (\<lambda>t. t @ [c]) (p_command ps)\<rparr>
    | Some _ \<Rightarrow> conv_end (read_spec c ps))"

definition parse_percent :: "parse_state \<Rightarrow> parse_state" where
  "parse_percent ps = conv_end (case p_modified ps of
      None \<Rightarrow> p_state (read_one (CHR ''%'')) ps
    | Some _ \<Rightarrow> read_spec (CHR ''%'') ps)"

definition parse_command :: "std_locale \<Rightarrow> ticks \<Rightarrow> int \<Rightarrow> char \<Rightarrow> parse_state \<Rightarrow> parse_state" where
  "parse_command loc tk den c ps =
     (if c \<in> set ''aAuw'' then parse_a loc c ps
      else if c \<in> set ''bBh'' then parse_b loc c ps
      else if c = CHR ''c'' then parse_c loc tk den c ps
      else if c = CHR ''x'' then parse_x loc c ps
      else if c = CHR ''X'' then parse_X loc tk den c ps
      else if c = CHR ''C'' then parse_C loc c ps
      else if c = CHR ''D'' then parse_D c ps
      else if c = CHR ''F'' then parse_F c ps
      else if c \<in> set ''de'' then parse_d loc c ps
      else if c = CHR ''H'' then parse_H loc c ps
      else if c = CHR ''I'' then parse_I c ps
      else if c = CHR ''j'' then parse_j c ps
      else if c = CHR ''M'' then parse_M loc c ps
      else if c = CHR ''m'' then parse_m loc c ps
      else if c \<in> set ''nt'' then parse_white c ps
      else if c = CHR ''p'' then parse_p loc c ps
      else if c = CHR ''r'' then parse_r loc tk den c ps
      else if c = CHR ''R'' then parse_R c ps
      else if c = CHR ''S'' then parse_S loc tk den c ps
      else if c = CHR ''T'' then parse_T tk den c ps
      else if c = CHR ''Y'' then parse_Y loc c ps
      else if c = CHR ''y'' then parse_y loc c ps
      else if c = CHR ''g'' then parse_g c ps
      else if c = CHR ''G'' then parse_G c ps
      else if c = CHR ''U'' then parse_U c ps
      else if c = CHR ''V'' then parse_V c ps
      else if c = CHR ''W'' then parse_W c ps
      else if c \<in> set ''EO'' then parse_modifier c ps
      else if c = CHR ''%'' then parse_percent ps
      else if c = CHR ''z'' then parse_z ps
      else if c = CHR ''Z'' then parse_Z c ps
      else conv_end (read_spec c ps))"

text \<open>Outside a conversion a white space character stands for any amount of white space.\<close>

definition parse_literal :: "char \<Rightarrow> parse_state \<Rightarrow> parse_state" where
  "parse_literal c ps =
     (if c = CHR ''%'' then ps\<lparr>p_command := Some [c]\<rparr>
      else if is_space c then (if is_good (p_is ps) then p_state skip_ws ps else ps)
      else p_state (read_one c) ps)"

function parse_loop :: "std_locale \<Rightarrow> ticks \<Rightarrow> int \<Rightarrow> string \<Rightarrow> parse_state \<Rightarrow> parse_state" where
  "parse_loop loc tk den [] ps = ps"
| "parse_loop loc tk den (c # cs) ps =
     (if c = CHR 0x00 \<or> p_fail ps then ps
      else case p_command ps of
          None \<Rightarrow> parse_loop loc tk den cs (parse_literal c ps)
        | Some t \<Rightarrow>
            if is_digit c \<and> p_width ps = - 1 \<and> p_modified ps = None
            then let ds = c # takeWhile is_digit cs
                 in parse_loop loc tk den (dropWhile is_digit cs)
                      (ps\<lparr>p_width := int (digits_val ds), p_command := Some (t @ ds)\<rparr>)
            else parse_loop loc tk den cs (parse_command loc tk den c ps))"
  by pat_completeness auto

termination
  by (relation "measure (\<lambda>(loc, tk, den, fmt, ps). length fmt)") (auto simp: length_dropWhile_le less_Suc_eq_le)

text \<open>A percent sign at the very end, with what follows it, stands for itself.\<close>

definition parse_rest :: "parse_state \<Rightarrow> parse_state" where
  "parse_rest ps =
     (if is_good (p_is ps) \<and> p_command ps \<noteq> None
      then snd (p_read ([RChar (CHR ''%''), RInt (p_width ps)] @
        (case p_modified ps of None \<Rightarrow> [] | Some m \<Rightarrow> [RChar m])) ps)
      else ps)"

end
