(* ===== verification/ParseFields.thy ===== *)
theory ParseFields
  imports CalParse
begin

text \<open>
  The calendar library, tenth part: from what was parsed to a date and a time of day, the last
  section of \<open>from_stream\<close>, and its overloads for the types of the library. \<open>None\<close> stands for the
  jump to the label \<open>broken\<close>.
\<close>

section \<open>Years\<close>

definition guess_century :: "int \<Rightarrow> int \<Rightarrow> int" where
  "guess_century year two_digits =
     (if year = not_a_year then (if two_digits \<ge> 69 then 19 else 20)
      else c_div (if year \<ge> 0 then year else year - 100) 100)"

definition century_year :: "int \<Rightarrow> int \<Rightarrow> int" where
  "century_year C y = (if C \<ge> 0 then 100 * C + y else 100 * (C + 1) - (if y = 0 then 100 else y))"

definition resolve_y :: "parse_state \<Rightarrow> parse_state option" where
  "resolve_y ps =
     (if p_y ps = not_a_2digit_year then Some ps
      else if \<not> (0 \<le> p_y ps \<and> p_y ps \<le> 99) then None
      else
        let C = (if p_C ps = not_a_century then guess_century (p_Y ps) (p_y ps) else p_C ps);
            tY = century_year C (p_y ps)
        in if p_Y ps \<noteq> not_a_year \<and> p_Y ps \<noteq> tY then None else Some (ps\<lparr>p_C := C, p_Y := tY\<rparr>))"

definition resolve_g :: "parse_state \<Rightarrow> parse_state option" where
  "resolve_g ps =
     (if p_g ps = not_a_2digit_year then Some ps
      else if \<not> (0 \<le> p_g ps \<and> p_g ps \<le> 99) then None
      else
        let C = (if p_C ps = not_a_century then guess_century (p_G ps) (p_g ps) else p_C ps);
            tG = century_year C (p_g ps)
        in if p_G ps \<noteq> not_a_year \<and> p_G ps \<noteq> tG then None else Some (ps\<lparr>p_C := C, p_G := tG\<rparr>))"

definition limit_year :: "parse_state \<Rightarrow> parse_state" where
  "limit_year ps = (if p_Y ps < year_int year_min \<or> p_Y ps > year_int year_max
     then ps\<lparr>p_Y := not_a_year\<rparr> else ps)"

section \<open>Days\<close>

text \<open>A date computed from a week or a day of the year: it must agree with what was parsed.\<close>

definition trial_year :: "year_month_day \<Rightarrow> parse_state \<Rightarrow> parse_state option" where
  "trial_year t ps =
     (if p_Y ps = not_a_year then Some (ps\<lparr>p_Y := year_int (ymd_year t)\<rparr>)
      else if year_ctor (p_Y ps) \<noteq> ymd_year t then None else Some ps)"

definition trial_month :: "year_month_day \<Rightarrow> parse_state \<Rightarrow> parse_state option" where
  "trial_month t ps =
     (if p_m ps = not_a_month then Some (ps\<lparr>p_m := uint (month_unsigned (ymd_month t))\<rparr>)
      else if month_ctor (word_of_int (p_m ps)) \<noteq> ymd_month t then None else Some ps)"

definition trial_day :: "year_month_day \<Rightarrow> parse_state \<Rightarrow> parse_state option" where
  "trial_day t ps =
     (if p_d ps = not_a_day then Some (ps\<lparr>p_d := uint (day_unsigned (ymd_day t))\<rparr>)
      else if day_ctor (word_of_int (p_d ps)) \<noteq> ymd_day t then None else Some ps)"

definition trial_month_day :: "year_month_day \<Rightarrow> parse_state \<Rightarrow> parse_state option" where
  "trial_month_day t ps = Option.bind (trial_month t ps) (trial_day t)"

definition parsed_weekday :: "parse_state \<Rightarrow> weekday" where
  "parsed_weekday ps = weekday_ctor (word_of_int (p_wd ps))"

definition iso_trial :: "parse_state \<Rightarrow> year_month_day" where
  "iso_trial ps = year_month_day_sys (ymwl_sys_days (ym_slash_wdl (year_slash_month
       (year_ctor (p_G ps - 1)) December) (weekday_last_ctor Thursday)) + weekday_diff Monday Thursday
     + 7 * (p_V ps - 1) + weekday_diff (parsed_weekday ps) Monday)"

definition week_trial :: "weekday \<Rightarrow> int \<Rightarrow> parse_state \<Rightarrow> year_month_day" where
  "week_trial first_day week ps = year_month_day_sys (ymw_sys_days (ym_slash_wdi (year_slash_month
       (year_ctor (p_Y ps)) January) (weekday_index first_day 1)) + 7 * (week - 1)
     + weekday_diff (parsed_weekday ps) first_day)"

text \<open>The boolean is \<open>computed\<close>: some week has determined the date.\<close>

definition resolve_V :: "parse_state \<Rightarrow> (parse_state \<times> bool) option" where
  "resolve_V ps =
     (if p_G ps \<noteq> not_a_year \<and> p_V ps \<noteq> not_a_week_num \<and> p_wd ps \<noteq> not_a_weekday
      then map_option (\<lambda>ps. (ps, True)) (Option.bind (trial_year (iso_trial ps) ps) (trial_month_day (iso_trial ps)))
      else Some (ps, False))"

definition resolve_week ::
    "weekday \<Rightarrow> (parse_state \<Rightarrow> int) \<Rightarrow> parse_state \<times> bool \<Rightarrow> (parse_state \<times> bool) option" where
  "resolve_week first_day week r = (case r of (ps, computed) \<Rightarrow>
     if p_Y ps \<noteq> not_a_year \<and> week ps \<noteq> not_a_week_num \<and> p_wd ps \<noteq> not_a_weekday
     then
       let t = week_trial first_day (week ps) ps
       in if year_ctor (p_Y ps) \<noteq> ymd_year t then None
          else map_option (\<lambda>ps. (ps, True)) (trial_month_day t ps)
     else Some (ps, computed))"

definition resolve_j :: "parse_state \<times> bool \<Rightarrow> (parse_state \<times> bool) option" where
  "resolve_j r = (case r of (ps, computed) \<Rightarrow>
     if p_j ps \<noteq> not_a_doy \<and> p_Y ps \<noteq> not_a_year
     then map_option (\<lambda>ps. (ps\<lparr>p_j := not_a_doy\<rparr>, computed))
       (trial_month_day (year_month_day_local
         (ymd_local_days (ym_slash_int (year_slash_int (year_ctor (p_Y ps)) 1) 1) + (p_j ps - 1))) ps)
     else Some (ps, computed))"

definition parsed_ymd :: "parse_state \<Rightarrow> year_month_day" where
  "parsed_ymd ps = ym_slash_int (year_slash_int (year_ctor (p_Y ps)) (p_m ps)) (p_d ps)"

text \<open>The weeks that did not determine the date must be those of the date.\<close>

definition iso_agrees :: "days \<Rightarrow> parse_state \<Rightarrow> bool" where
  "iso_agrees sd ps =
     (let G = ymd_year (year_month_day_sys (sd + 3));
          start = iso_week_start G;
          before = sd < start;
          G' = (if before then year_decr G else G);
          start' = (if before \<and> p_V ps \<noteq> not_a_week_num then iso_week_start G' else start)
      in \<not> (p_G ps \<noteq> not_a_year \<and> p_G ps \<noteq> year_int G') \<and>
         (p_V ps \<noteq> not_a_week_num \<longrightarrow> p_V ps = c_div (sd - start') 7 + 1))"

definition week_agrees :: "weekday \<Rightarrow> int \<Rightarrow> days \<Rightarrow> year \<Rightarrow> bool" where
  "week_agrees first_day week sd y =
     (week \<noteq> not_a_week_num \<longrightarrow>
      week = duration_floor 7 (sd - ymw_sys_days (mw_slash_year
        (wdi_slash_month (weekday_index first_day 1) January) y)) + 1)"

definition check_date :: "parse_state \<times> bool \<Rightarrow> parse_state option" where
  "check_date r = (case r of (ps, computed) \<Rightarrow>
     let ymd = parsed_ymd ps
     in if \<not> ymd_ok ymd then Some ps
        else
          let sd = ymd_sys_days ymd;
              wd = weekday_diff (weekday_sys sd) Sunday
          in if p_wd ps \<noteq> not_a_weekday \<and> p_wd ps \<noteq> wd then None
             else if \<not> computed \<and>
               ((p_G ps \<noteq> not_a_year \<or> p_V ps \<noteq> not_a_week_num) \<and> \<not> iso_agrees sd ps \<or>
                \<not> week_agrees Sunday (p_U ps) sd (ymd_year ymd) \<or>
                \<not> week_agrees Monday (p_W ps) sd (ymd_year ymd)) then None
             else Some (ps\<lparr>p_wd := wd\<rparr>))"

definition resolve_date :: "parse_state \<Rightarrow> parse_state option" where
  "resolve_date ps =
     Option.bind (Option.bind (resolve_y ps) resolve_g) (\<lambda>ps.
     Option.bind (resolve_V (limit_year ps)) (\<lambda>r.
     Option.bind (resolve_week Sunday p_U r) (\<lambda>r.
     Option.bind (resolve_week Monday p_W r) (\<lambda>r.
     Option.bind (resolve_j r) check_date))))"

section \<open>Time of day\<close>

definition resolve_I :: "parse_state \<Rightarrow> parse_state option" where
  "resolve_I ps =
     (if p_I ps = not_a_hour_12_value then Some ps
      else if \<not> (1 \<le> p_I ps \<and> p_I ps \<le> 12) then None
      else if p_p ps \<noteq> not_a_ampm
        then
          let I = p_I ps + (if p_I ps = 12 then p_p ps - 1 else p_p ps) * 12
          in if p_H ps = not_a_hour then Some (ps\<lparr>p_H := I, p_I := I\<rparr>)
             else if I \<noteq> p_H ps then None else Some (ps\<lparr>p_I := I\<rparr>)
      else if p_H ps \<noteq> not_a_hour
        then
          (if p_I ps = 12 then (if p_H ps \<noteq> 0 \<and> p_H ps \<noteq> 12 then None else Some ps)
           else if \<not> (p_I ps = p_H ps \<or> p_I ps = p_H ps + 12) then None else Some ps)
      else None)"

definition set_fields :: "int \<Rightarrow> parse_state \<Rightarrow> fields \<Rightarrow> fields" where
  "set_fields den ps fds =
     (let fds = (if p_H ps \<noteq> not_a_hour
            then fds\<lparr>f_has_tod := True, f_tod := hh_mm_ss_ctor den (p_H ps * (3600 * den))\<rparr> else fds);
          fds = (if p_M ps \<noteq> not_a_minute
            then fds\<lparr>f_has_tod := True, f_tod := (f_tod fds)\<lparr>tod_m := p_M ps\<rparr>\<rparr> else fds);
          fds = (if p_s ps \<noteq> not_a_second
            then fds\<lparr>f_has_tod := True, f_tod := (f_tod fds)\<lparr>tod_s := dfs_ctor den (p_s ps)\<rparr>\<rparr> else fds);
          fds = (if p_j ps \<noteq> not_a_doy
            then fds\<lparr>f_has_tod := True, f_tod := (f_tod fds)\<lparr>tod_h := tod_h (f_tod fds) + 24 * p_j ps\<rparr>\<rparr>
            else fds)
      in if p_wd ps \<noteq> not_a_weekday then fds\<lparr>f_wd := parsed_weekday ps\<rparr> else fds)"

text \<open>
  The stream, the fields, and what is stored through the two pointers: the abbreviation when
  parsing has succeeded, the offset when there was one.
\<close>

record parse_result =
  r_is :: istream
  r_fields :: fields
  r_abbrev :: "string option"
  r_offset :: "int option"

definition resolve :: "int \<Rightarrow> parse_state \<Rightarrow> fields \<Rightarrow> parse_result" where
  "resolve den ps fds = (case resolve_date ps of
      None \<Rightarrow> \<lparr>r_is = setstate False True (p_is ps), r_fields = fds, r_abbrev = None, r_offset = None\<rparr>
    | Some ps1 \<Rightarrow>
        let fds1 = fds\<lparr>f_ymd := parsed_ymd ps1\<rparr>
        in case resolve_I ps1 of
             None \<Rightarrow> \<lparr>r_is = setstate False True (p_is ps), r_fields = fds1, r_abbrev = None,
               r_offset = None\<rparr>
           | Some ps2 \<Rightarrow> \<lparr>r_is = p_is ps, r_fields = set_fields den ps2 fds1,
               r_abbrev = Some (p_abbrev ps2),
               r_offset = (if p_offset ps2 \<noteq> not_a_offset then Some (p_offset ps2) else None)\<rparr>)"

definition from_stream ::
    "std_locale \<Rightarrow> ticks \<Rightarrow> int \<Rightarrow> string \<Rightarrow> fields \<Rightarrow> istream \<Rightarrow> parse_result" where
  "from_stream loc tk den fmt fds is =
     (if \<not> is_good is
      then \<lparr>r_is = setstate False True is, r_fields = fds, r_abbrev = None, r_offset = None\<rparr>
      else
        let ps = parse_rest (parse_loop loc tk den fmt (parse_init is))
        in if p_fail ps
           then \<lparr>r_is = p_is ps, r_fields = fds, r_abbrev = None, r_offset = None\<rparr>
           else resolve den ps fds)"

section \<open>The types that can be parsed\<close>

text \<open>The fields are checked; the value is stored when the stream has not failed.\<close>

definition parse_value ::
    "(fields \<Rightarrow> bool) \<Rightarrow> (parse_result \<Rightarrow> 'a) \<Rightarrow> parse_result \<Rightarrow> 'a option \<times> parse_result" where
  "parse_value ok val r =
     (let r' = (if \<not> ok (r_fields r) then r\<lparr>r_is := setstate False True (r_is r)\<rparr> else r)
      in (if is_fail (r_is r') then None else Some (val r'), r'))"

definition year_from_stream :: "std_locale \<Rightarrow> ticks \<Rightarrow> string \<Rightarrow> istream \<Rightarrow> year option \<times> parse_result" where
  "year_from_stream loc tk fmt is = parse_value (\<lambda>f. year_ok (ymd_year (f_ymd f)))
     (\<lambda>r. ymd_year (f_ymd (r_fields r))) (from_stream loc tk 1 fmt (fields_default 1) is)"

definition month_from_stream :: "std_locale \<Rightarrow> ticks \<Rightarrow> string \<Rightarrow> istream \<Rightarrow> month option \<times> parse_result" where
  "month_from_stream loc tk fmt is = parse_value (\<lambda>f. month_ok (ymd_month (f_ymd f)))
     (\<lambda>r. ymd_month (f_ymd (r_fields r))) (from_stream loc tk 1 fmt (fields_default 1) is)"

definition day_from_stream :: "std_locale \<Rightarrow> ticks \<Rightarrow> string \<Rightarrow> istream \<Rightarrow> day option \<times> parse_result" where
  "day_from_stream loc tk fmt is = parse_value (\<lambda>f. day_ok (ymd_day (f_ymd f)))
     (\<lambda>r. ymd_day (f_ymd (r_fields r))) (from_stream loc tk 1 fmt (fields_default 1) is)"

definition weekday_from_stream ::
    "std_locale \<Rightarrow> ticks \<Rightarrow> string \<Rightarrow> istream \<Rightarrow> weekday option \<times> parse_result" where
  "weekday_from_stream loc tk fmt is = parse_value (\<lambda>f. weekday_ok (f_wd f))
     (\<lambda>r. f_wd (r_fields r)) (from_stream loc tk 1 fmt (fields_default 1) is)"

definition year_month_from_stream ::
    "std_locale \<Rightarrow> ticks \<Rightarrow> string \<Rightarrow> istream \<Rightarrow> year_month option \<times> parse_result" where
  "year_month_from_stream loc tk fmt is = parse_value (\<lambda>f. month_ok (ymd_month (f_ymd f)))
     (\<lambda>r. year_slash_month (ymd_year (f_ymd (r_fields r))) (ymd_month (f_ymd (r_fields r))))
     (from_stream loc tk 1 fmt (fields_default 1) is)"

definition month_day_from_stream ::
    "std_locale \<Rightarrow> ticks \<Rightarrow> string \<Rightarrow> istream \<Rightarrow> month_day option \<times> parse_result" where
  "month_day_from_stream loc tk fmt is = parse_value
     (\<lambda>f. \<not> (\<not> month_ok (ymd_month (f_ymd f)) \<or> \<not> day_ok (ymd_day (f_ymd f))))
     (\<lambda>r. month_slash_day (ymd_month (f_ymd (r_fields r))) (ymd_day (f_ymd (r_fields r))))
     (from_stream loc tk 1 fmt (fields_default 1) is)"

definition ymd_from_stream ::
    "std_locale \<Rightarrow> ticks \<Rightarrow> string \<Rightarrow> istream \<Rightarrow> year_month_day option \<times> parse_result" where
  "ymd_from_stream loc tk fmt is = parse_value (\<lambda>f. ymd_ok (f_ymd f))
     (\<lambda>r. f_ymd (r_fields r)) (from_stream loc tk 1 fmt (fields_default 1) is)"

text \<open>
  A duration of \<open>n\<close> ticks of the type it has in common with the second, \<open>den\<close> of which make a
  second. Points in time start with a time of day of zero. \<open>offset\<close> is what the offset pointer
  points to before: zero for the local variable that is taken when there is no pointer.
\<close>

definition sys_time_from_stream ::
    "std_locale \<Rightarrow> ticks \<Rightarrow> int \<Rightarrow> int \<Rightarrow> int \<Rightarrow> string \<Rightarrow> istream \<Rightarrow> int option \<times> parse_result" where
  "sys_time_from_stream loc tk den n offset fmt is = parse_value
     (\<lambda>f. \<not> (\<not> ymd_ok (f_ymd f) \<or> \<not> in_conventional_range den (f_tod f)))
     (\<lambda>r. duration_round n (ymd_sys_days (f_ymd (r_fields r)) * (86400 * den)
        - (case r_offset r of None \<Rightarrow> offset | Some m \<Rightarrow> m) * (60 * den)
        + to_duration den (f_tod (r_fields r))))
     (from_stream loc tk den fmt ((fields_default den)\<lparr>f_has_tod := True\<rparr>) is)"

definition local_time_from_stream ::
    "std_locale \<Rightarrow> ticks \<Rightarrow> int \<Rightarrow> int \<Rightarrow> string \<Rightarrow> istream \<Rightarrow> int option \<times> parse_result" where
  "local_time_from_stream loc tk den n fmt is = parse_value
     (\<lambda>f. \<not> (\<not> ymd_ok (f_ymd f) \<or> \<not> in_conventional_range den (f_tod f)))
     (\<lambda>r. duration_round n (ymd_local_days (f_ymd (r_fields r)) * (86400 * den)
        + to_duration den (f_tod (r_fields r))))
     (from_stream loc tk den fmt ((fields_default den)\<lparr>f_has_tod := True\<rparr>) is)"

definition duration_from_stream ::
    "std_locale \<Rightarrow> ticks \<Rightarrow> int \<Rightarrow> int \<Rightarrow> string \<Rightarrow> istream \<Rightarrow> int option \<times> parse_result" where
  "duration_from_stream loc tk den n fmt is = parse_value f_has_tod
     (\<lambda>r. duration_round n (to_duration den (f_tod (r_fields r))))
     (from_stream loc tk den fmt (fields_default den) is)"

text \<open>The manipulator that \<open>parse\<close> returns, and the output of a duration with its unit.\<close>

record 'a parse_manip =
  manip_format :: string
  reader :: "string \<Rightarrow> istream \<Rightarrow> 'a option \<times> parse_result"

definition parse :: "string \<Rightarrow> (string \<Rightarrow> istream \<Rightarrow> 'a option \<times> parse_result) \<Rightarrow> 'a parse_manip" where
  "parse fmt rd = \<lparr>manip_format = fmt, reader = rd\<rparr>"

definition apply_manip :: "'a parse_manip \<Rightarrow> istream \<Rightarrow> 'a option \<times> parse_result" where
  "apply_manip x is = reader x (manip_format x) is"

definition duration_text :: "int \<Rightarrow> int \<Rightarrow> int \<Rightarrow> string" where
  "duration_text num den d = to_string d @ get_units num den"

end
