(* ===== verification/ParseRead.thy ===== *)
theory ParseRead
  imports ParseFields
begin

text \<open>
  What the number readers take: exactly the digits they are allowed, when there are that many,
  whatever follows.
\<close>

section \<open>Numbers of a fixed width\<close>

text \<open>A text of \<open>L\<close> digits with the value \<open>v\<close>.\<close>

definition num_text :: "nat \<Rightarrow> int \<Rightarrow> string \<Rightarrow> bool" where
  "num_text L v t \<longleftrightarrow> (\<forall>c\<in>set t. is_digit c) \<and> length t = L \<and> int (digits_val t) = v"

lemma istream_of_simps [simp]:
  "is_good (istream_of s)" "is_rest (istream_of s) = s" "\<not> is_fail (istream_of s)"
  "\<not> is_eof (istream_of s)" "peek (istream_of (c # s)) = (Some c, istream_of (c # s))"
  "get_char (istream_of (c # s)) = (Some c, istream_of s)"
  "(istream_of s)\<lparr>is_rest := r\<rparr> = istream_of r"
  by (simp_all add: istream_of_def is_good_def peek_def get_char_def)

lemma digits_val_Cons: "digits_val (c # ds) = digit_val c * 10 ^ length ds + digits_val ds"
proof -
  have "foldl (\<lambda>n c. 10 * n + digit_val c) a ds = a * 10 ^ length ds + digits_val ds" for a
    by (induction ds arbitrary: a rule: rev_induct) (simp_all add: algebra_simps)
  from this [of "digit_val c"] show ?thesis by (simp add: digits_val_def)
qed

lemma unat_u32: "m < 2 ^ 32 \<Longrightarrow> unat (of_nat m :: u32) = m"
  by (simp add: unat_of_nat)

lemma read_digits_all:
  assumes "\<forall>c\<in>set ds. is_digit c" and "ds \<noteq> []" and "n + length ds < 2 ^ 32"
  shows "read_digits (of_nat (n + length ds)) (of_nat n) (of_nat a) (istream_of (ds @ r)) =
    (of_nat (n + length ds), of_nat (a * 10 ^ length ds + digits_val ds), istream_of r)"
  using assms
proof (induction ds arbitrary: n a)
  case (Cons c ds)
  let ?m = "of_nat (n + length (c # ds)) :: u32"
  have step: "10 * of_nat a + of_nat (digit_val c) = (of_nat (10 * a + digit_val c) :: u32)" by simp
  show ?case
  proof (cases ds)
    case Nil
    with Cons.prems show ?thesis
      by (subst read_digits.simps) (simp add: step digits_val_Cons digits_val_def algebra_simps)
  next
    case (Cons c' ds')
    have b: "Suc n < 2 ^ 32" "n + length (c # ds) < 2 ^ 32" using Cons.prems(3) Cons by simp_all
    have ne: "of_nat n + 1 \<noteq> ?m"
    proof
      assume "of_nat n + 1 = ?m"
      then have "(of_nat (Suc n) :: u32) = of_nat (n + length (c # ds))" by simp
      then have "unat (of_nat (Suc n) :: u32) = unat (of_nat (n + length (c # ds)) :: u32)" by (rule arg_cong)
      then have "Suc n = n + length (c # ds)"
        unfolding unat_u32 [OF b(1)] unat_u32 [OF b(2)] .
      then show False using Cons by simp
    qed
    have "read_digits ?m (of_nat n) (of_nat a) (istream_of ((c # ds) @ r)) =
        read_digits (of_nat (Suc n + length ds)) (of_nat (Suc n)) (of_nat (10 * a + digit_val c)) (istream_of (ds @ r))"
      using Cons.prems ne by (subst read_digits.simps) (simp add: step add.commute)
    also have "\<dots> = (of_nat (Suc n + length ds), of_nat ((10 * a + digit_val c) * 10 ^ length ds + digits_val ds),
        istream_of r)"
      using Cons.prems Cons by (intro Cons.IH) simp_all
    finally show ?thesis by (simp add: digits_val_Cons algebra_simps)
  qed
qed simp

lemma num_text_less: "num_text L v t \<Longrightarrow> 0 \<le> v \<and> v < 10 ^ L"
proof -
  have "\<forall>c\<in>set t. is_digit c \<Longrightarrow> digits_val t < 10 ^ length t" for t :: string
  proof (induction t)
    case (Cons c t)
    have "digit_val c \<le> 9" using Cons.prems by (simp add: digit_val_def is_digit_def le_diff_conv)
    then have "digit_val c * 10 ^ length t \<le> 9 * 10 ^ length t" by (rule mult_le_mono1)
    moreover have "digits_val t < 10 ^ length t" using Cons by simp
    ultimately have "digit_val c * 10 ^ length t + digits_val t < 10 * 10 ^ length t" by linarith
    then show ?case by (simp add: digits_val_Cons)
  qed simp
  then have "num_text L v t \<Longrightarrow> digits_val t < 10 ^ L" by (auto simp: num_text_def)
  then have "num_text L v t \<Longrightarrow> int (digits_val t) < int (10 ^ L)" by (simp only: of_nat_less_iff)
  then show "num_text L v t \<Longrightarrow> 0 \<le> v \<and> v < 10 ^ L" by (auto simp: num_text_def)
qed

lemma sint_u32: "m < 2 ^ 31 \<Longrightarrow> sint (of_nat m :: u32) = int m"
  by (simp add: sint_uint unat_u32 uint_nat signed_take_bit_int_eq_self)

lemma read_unsigned_text:
  assumes "num_text L v t" and "0 < L" and "L \<le> 9" and "mn \<le> of_nat L"
  shows "read_unsigned mn (of_nat L) (istream_of (t @ r)) = (of_nat (nat v), istream_of r)"
    and "sint (of_nat (nat v) :: u32) = v"
proof -
  have t: "\<forall>c\<in>set t. is_digit c" "t \<noteq> []" "length t = L" "nat v = digits_val t"
    using assms(1,2) by (auto simp: num_text_def)
  have "read_digits (of_nat L) 0 0 (istream_of (t @ r)) = (of_nat L, of_nat (digits_val t), istream_of r)"
    using read_digits_all [of t 0 0 r] t assms(3) by simp
  with assms(4) show "read_unsigned mn (of_nat L) (istream_of (t @ r)) = (of_nat (nat v), istream_of r)"
    by (simp add: read_unsigned_def t(4) not_less)
  have "v < 10 ^ L" "0 \<le> v" using num_text_less [OF assms(1)] by simp_all
  moreover have "(10 :: int) ^ L \<le> 10 ^ 9" using assms(3) by (intro power_increasing) simp_all
  ultimately show "sint (of_nat (nat v) :: u32) = v" using sint_u32 [of "nat v"] by simp
qed

lemma read_signed_text:
  assumes "num_text L v t" and "0 < L" and "L \<le> 9"
  shows "read_signed 1 (of_nat L) (istream_of (t @ r)) = (v, istream_of r)"
proof -
  obtain c cs where t: "t = c # cs" using assms(1,2) by (cases t) (auto simp: num_text_def)
  then have c: "is_digit c" "c \<noteq> CHR ''-''" "c \<noteq> CHR ''+''"
    using assms(1) by (auto simp: num_text_def is_digit_def)
  have "(1 :: u32) \<le> of_nat L" using assms(2,3) by (simp add: word_le_nat_alt unat_u32)
  from read_unsigned_text(1) [OF assms this, of r] read_unsigned_text(2) [OF assms this] show ?thesis
    using c by (simp add: read_signed_def t)
qed

section \<open>Seconds\<close>

lemma u32_neq: "a < 2 ^ 32 \<Longrightarrow> b < 2 ^ 32 \<Longrightarrow> (of_nat a :: u32) = of_nat b \<longleftrightarrow> a = b"
  using unat_u32 [of a] unat_u32 [of b] by (metis (no_types))

text \<open>One digit before the point, or after it.\<close>

lemma read_decimal_digit:
  assumes "is_digit c" and "Suc n < 2 ^ 32" and "m < 2 ^ 32"
  shows "read_decimal (of_nat m) (of_nat n) fraction (i, f, fn) (istream_of (c # r)) =
    (let d = (if fraction then (i, 10 * f + of_nat (digit_val c), fn + 1)
          else (10 * i + of_nat (digit_val c), f, fn))
     in if Suc n = m then (of_nat (Suc n), d, istream_of r)
        else read_decimal (of_nat m) (of_nat (Suc n)) fraction d (istream_of r))"
proof -
  have "c \<noteq> CHR ''.''" using assms(1) by (auto simp: is_digit_def)
  moreover have "(of_nat n + 1 :: u32) = of_nat m \<longleftrightarrow> Suc n = m"
    using u32_neq [OF assms(2,3)] by (simp add: add.commute)
  ultimately show ?thesis
    using assms(1) by (subst read_decimal.simps) (simp add: Let_def add.commute)
qed

lemma read_decimal_whole:
  assumes "\<forall>c\<in>set ds. is_digit c" and "n + length ds < m" and "m < 2 ^ 32"
  shows "read_decimal (of_nat m) (of_nat n) False (of_nat a, f, fn) (istream_of (ds @ r)) =
    read_decimal (of_nat m) (of_nat (n + length ds)) False
      (of_nat (a * 10 ^ length ds + digits_val ds), f, fn) (istream_of r)"
  using assms
proof (induction ds arbitrary: n a)
  case (Cons c ds)
  have "10 * of_nat a + of_nat (digit_val c) = (of_nat (10 * a + digit_val c) :: u64)" by simp
  moreover have "read_decimal (of_nat m) (of_nat (Suc n)) False (of_nat (10 * a + digit_val c), f, fn)
      (istream_of (ds @ r)) = read_decimal (of_nat m) (of_nat (Suc n + length ds)) False
      (of_nat ((10 * a + digit_val c) * 10 ^ length ds + digits_val ds), f, fn) (istream_of r)"
    using Cons.prems by (intro Cons.IH) simp_all
  ultimately show ?case
    using Cons.prems by (simp add: read_decimal_digit digits_val_Cons algebra_simps del: of_nat_Suc)
qed simp

lemma read_decimal_fraction:
  assumes "\<forall>c\<in>set ds. is_digit c" and "ds \<noteq> []" and "n + length ds = m" and "m < 2 ^ 32"
  shows "read_decimal (of_nat m) (of_nat n) True (i, of_nat a, fn) (istream_of (ds @ r)) =
    (of_nat m, (i, of_nat (a * 10 ^ length ds + digits_val ds), fn + length ds), istream_of r)"
  using assms
proof (induction ds arbitrary: n a fn)
  case (Cons c ds)
  have step: "10 * of_nat a + of_nat (digit_val c) = (of_nat (10 * a + digit_val c) :: u64)" by simp
  show ?case
  proof (cases "ds = []")
    case True
    with Cons.prems step show ?thesis
      by (simp add: read_decimal_digit digits_val_Cons algebra_simps del: of_nat_Suc)
  next
    case False
    have "read_decimal (of_nat m) (of_nat (Suc n)) True (i, of_nat (10 * a + digit_val c), fn + 1)
        (istream_of (ds @ r)) =
        (of_nat m, (i, of_nat ((10 * a + digit_val c) * 10 ^ length ds + digits_val ds), fn + 1 + length ds),
          istream_of r)"
      using Cons.prems False by (intro Cons.IH) simp_all
    moreover have "Suc n \<noteq> m" using Cons.prems False by auto
    ultimately show ?thesis
      using Cons.prems step False
      by (simp add: read_decimal_digit digits_val_Cons algebra_simps Let_def del: of_nat_Suc)
  qed
qed simp

lemma read_seconds:
  assumes "num_text 2 v t" and "k \<noteq> 0 \<Longrightarrow> num_text k w u" and "k \<le> 18"
  shows "read_long_double 1 (seconds_width (10 ^ k))
      (istream_of (t @ (if k = 0 then [] else ''.'' @ u) @ r)) =
    ((of_nat (nat v), if k = 0 then 0 else of_nat (nat w), k), istream_of r)"
proof -
  have t: "\<forall>c\<in>set t. is_digit c" "length t = 2" "digits_val t = nat v"
    using assms(1) by (auto simp: num_text_def)
  show ?thesis
  proof (cases "k = 0")
    case True
    obtain c d where cd: "t = [c, d]"
      using t(2) by (cases t; cases "tl t"; cases "tl (tl t)") auto
    have "digits_val t = 10 * digit_val c + digit_val d"
      using digits_val_Cons [of c "[d]"] digits_val_Cons [of d "[]"] by (simp add: cd)
    moreover have "read_decimal (of_nat 2) (of_nat 0) False (0, 0, 0) (istream_of (t @ r)) =
        (of_nat 2, (10 * of_nat (digit_val c) + of_nat (digit_val d), 0, 0), istream_of r)"
      using t(1) read_decimal_digit [of d "Suc 0" 2 False] read_decimal_digit [of c 0 2 False]
      by (simp add: cd Let_def)
    ultimately show ?thesis
      using True t(3) by (simp add: read_long_double_def seconds_width_def)
  next
    case False
    have u: "\<forall>c\<in>set u. is_digit c" "length u = k" "digits_val u = nat w" "u \<noteq> []"
      using assms(2) [OF False] False by (auto simp: num_text_def)
    let ?m = "3 + k"
    have "1 < (10 :: int) ^ k" using False by (intro one_less_power) simp_all
    then have m: "seconds_width (10 ^ k) = of_nat ?m"
      by (simp add: seconds_width_def dfs_pow10 [OF assms(3)])
    have "read_decimal (of_nat ?m) (of_nat 0) False (of_nat 0, 0, 0) (istream_of (t @ ''.'' @ u @ r)) =
        read_decimal (of_nat ?m) (of_nat 2) False (of_nat (nat v), 0, 0) (istream_of (''.'' @ u @ r))"
      using read_decimal_whole [of t 0 ?m 0 0 0 "''.'' @ u @ r"] t assms(3) by simp
    also have "\<dots> = read_decimal (of_nat ?m) (of_nat 3) True (of_nat (nat v), of_nat 0, 0) (istream_of (u @ r))"
      using u32_neq [of 3 ?m] assms(3) False by (subst read_decimal.simps) (simp add: Let_def)
    also have "\<dots> = (of_nat ?m, (of_nat (nat v), of_nat (nat w), k), istream_of r)"
      using read_decimal_fraction [of u 3 ?m "of_nat (nat v)" 0 0 r] u assms(3) by simp
    finally have "read_decimal (of_nat ?m) 0 False (0, 0, 0) (istream_of (t @ ''.'' @ u @ r)) =
        (of_nat ?m, (of_nat (nat v), of_nat (nat w), k), istream_of r)" by simp
    moreover have "\<not> (of_nat ?m :: u32) < 1"
      using unat_u32 [of ?m] assms(3) by (simp add: word_less_nat_alt)
    ultimately show ?thesis using False m by (simp add: read_long_double_def)
  qed
qed

section \<open>The texts of numbers\<close>

lemma num_text_right:
  assumes "0 \<le> i" and "i < 10 ^ L" and "0 < L"
  shows "num_text L i (os_right (CHR ''0'') L (to_string i))"
proof -
  have "nat i < nat (10 ^ L)" using assms(1,2) by simp
  then have "nat i < 10 ^ L" by (simp add: nat_power_eq)
  then have "length (to_string i) \<le> L"
    using assms length_nat_to_string_le [of "nat i" L] by (simp add: to_string_def)
  moreover have "is_digit (CHR ''0'')" by (simp add: is_digit_def)
  ultimately show ?thesis
    using to_string_pos_digits [OF assms(1)] os_right_set [of "CHR ''0''" L "to_string i"] assms(1)
    by (auto simp: num_text_def os_right_length os_right_digits digits_val_to_string)
qed

end
