(* ===== verification/KeywordText.thy ===== *)
theory KeywordText
  imports CalKeyword
begin

text \<open>
  What \<open>scan_keyword\<close> does: it takes as many characters as some keyword has in common with the
  stream, without regard to case, and returns the first keyword that ends there.
\<close>

text \<open>The number of characters that a keyword and a text have in common at their beginnings.\<close>

fun common :: "string \<Rightarrow> string \<Rightarrow> nat" where
  "common (c # s) (d # ky) = (if to_upper c = to_upper d then Suc (common s ky) else 0)"
| "common s ky = 0"

fun longest_common :: "string list \<Rightarrow> string \<Rightarrow> nat" where
  "longest_common [] s = 0"
| "longest_common (ky # kws) s = max (common s ky) (longest_common kws s)"

definition keyword_at :: "string \<Rightarrow> nat \<Rightarrow> string \<Rightarrow> bool" where
  "keyword_at s n ky \<longleftrightarrow> length ky = n \<and> common s ky = n"

lemma common_le: "common s ky \<le> length s" "common s ky \<le> length ky"
  by (induction s ky rule: common.induct) auto

lemma common_Suc:
  "i \<le> common s ky \<Longrightarrow> i < length s \<Longrightarrow> i < length ky \<Longrightarrow>
    Suc i \<le> common s ky \<longleftrightarrow> to_upper (s ! i) = to_upper (ky ! i)"
proof (induction s ky arbitrary: i rule: common.induct)
  case (1 c s d ky)
  show ?case
  proof (cases i)
    case (Suc j)
    with 1 show ?thesis by (cases "to_upper c = to_upper d") simp_all
  qed simp
qed auto

lemma longest_common_Max:
  "ky \<in> set kws \<Longrightarrow> common s ky \<le> longest_common kws s"
  "longest_common kws s = 0 \<or> (\<exists>ky\<in>set kws. common s ky = longest_common kws s)"
  by (induction kws) (auto simp: max_def)

text \<open>The status of a keyword when \<open>i\<close> characters have been taken.\<close>

definition status_at :: "string \<Rightarrow> nat \<Rightarrow> string \<Rightarrow> kw_status" where
  "status_at s i ky =
     (if i \<le> common s ky then (if i < length ky then Might_match else Does_match) else Doesnt_match)"

lemma status_at_Does: "status_at s i ky = Does_match \<longleftrightarrow> keyword_at s i ky"
  using common_le(2) [of s ky] by (auto simp: status_at_def keyword_at_def)

lemma status_at_Might: "status_at s i ky = Might_match \<longleftrightarrow> i \<le> common s ky \<and> i < length ky"
  by (auto simp: status_at_def)

lemma scan_init_status: "scan_init kws = map (status_at s 0) kws"
  by (auto simp: scan_init_def status_at_def)

lemma n_match_0: "n_match x (map f kws) = 0 \<longleftrightarrow> (\<forall>ky\<in>set kws. f ky \<noteq> x)"
  by (auto simp: n_match_def filter_empty_conv)

lemma consume_iff:
  "scan_consume (to_upper (s ! i)) i kws (map (status_at s i) kws) \<longleftrightarrow>
    (\<exists>ky\<in>set kws. status_at s i ky = Might_match \<and> to_upper (s ! i) = to_upper (ky ! i))"
proof -
  have "zip kws (map (status_at s i) kws) = map (\<lambda>ky. (ky, status_at s i ky)) kws" by (induction kws) auto
  then show ?thesis by (auto simp: scan_consume_def list_ex_iff)
qed

lemma map2_self: "map2 f kws (map g kws) = map (\<lambda>ky. f ky (g ky)) kws"
  by (induction kws) auto

lemma n_match_two:
  assumes "ky \<in> set kws" and "ky' \<in> set kws" and "ky \<noteq> ky'" and "f ky \<noteq> Doesnt_match" and "f ky' \<noteq> Doesnt_match"
  shows "n_match Might_match (map f kws) + n_match Does_match (map f kws) > 1"
proof -
  have "n_match Might_match (map f kws) + n_match Does_match (map f kws) = length (filter (\<lambda>ky. f ky \<noteq> Doesnt_match) kws)"
  proof (induction kws)
    case (Cons k kws)
    then show ?case by (cases "f k") (simp_all add: n_match_def)
  qed (simp add: n_match_def)
  moreover have "card {ky, ky'} \<le> card (set (filter (\<lambda>ky. f ky \<noteq> Doesnt_match) kws))"
    using assms by (intro card_mono) auto
  then have "2 \<le> length (filter (\<lambda>ky. f ky \<noteq> Doesnt_match) kws)"
    using assms(3) card_length [of "filter (\<lambda>ky. f ky \<noteq> Doesnt_match) kws"] by simp
  ultimately show ?thesis by simp
qed

text \<open>One more character is taken.\<close>

lemma scan_step_taken:
  assumes "i < length s" and "scan_consume (to_upper (s ! i)) i kws (map (status_at s i) kws)"
  shows "scan_prune i kws (map2 (scan_char (to_upper (s ! i)) i) kws (map (status_at s i) kws)) =
    map (status_at s (Suc i)) kws"
proof -
  let ?f = "\<lambda>ky. scan_char (to_upper (s ! i)) i ky (status_at s i ky)"
  have f: "?f ky = (if keyword_at s i ky then Does_match else status_at s (Suc i) ky)" for ky
    using common_Suc [of i s ky] assms(1) common_le(2) [of s ky]
    by (auto simp: scan_char_def status_at_def keyword_at_def not_le split: if_splits)
  define g where "g = (\<lambda>ky. if keyword_at s i ky then Does_match else status_at s (Suc i) ky)"
  have m: "map2 (scan_char (to_upper (s ! i)) i) kws (map (status_at s i) kws) = map g kws"
    by (simp add: map2_self f g_def)
  obtain k where k: "k \<in> set kws" "i \<le> common s k" "i < length k" "to_upper (s ! i) = to_upper (k ! i)"
    using assms(2) by (auto simp: consume_iff status_at_Might)
  then have k1: "Suc i \<le> common s k" using common_Suc [of i s k] assms(1) by simp
  show ?thesis
  proof (cases "\<exists>ky\<in>set kws. keyword_at s i ky")
    case True
    then obtain ky where ky: "ky \<in> set kws" "keyword_at s i ky" by blast
    then have "ky \<noteq> k" using k(3) by (auto simp: keyword_at_def)
    moreover have "g ky \<noteq> Doesnt_match" "g k \<noteq> Doesnt_match"
      using ky k1 by (auto simp: g_def status_at_def)
    ultimately have "n_match Might_match (map g kws) + n_match Does_match (map g kws) > 1"
      using n_match_two [of ky kws k g] ky(1) k(1) by simp
    then show ?thesis
      unfolding m unfolding scan_prune_def map2_self
      by (auto simp: g_def status_at_Does keyword_at_def) (auto simp: status_at_def)
  next
    case False
    then have e: "map g kws = map (status_at s (Suc i)) kws" by (simp add: g_def)
    have "map2 (\<lambda>ky s. if s = Does_match \<and> length ky \<noteq> i + 1 then Doesnt_match else s) kws
        (map (status_at s (Suc i)) kws) = map (status_at s (Suc i)) kws"
      unfolding map2_self by (auto simp: status_at_Does keyword_at_def)
    then show ?thesis unfolding m e scan_prune_def by simp
  qed
qed

lemma scan_step_not_taken:
  assumes "\<not> scan_consume (to_upper (s ! i)) i kws (map (status_at s i) kws)" and "ky \<in> set kws"
  shows "scan_char (to_upper (s ! i)) i ky (status_at s i ky) = Does_match \<longleftrightarrow> keyword_at s i ky"
    and "i < length s \<Longrightarrow> common s ky \<le> i"
proof -
  show "scan_char (to_upper (s ! i)) i ky (status_at s i ky) = Does_match \<longleftrightarrow> keyword_at s i ky"
    using assms status_at_Does [of s i ky] by (auto simp: consume_iff scan_char_def)
  show "common s ky \<le> i" if "i < length s"
  proof (rule ccontr)
    assume "\<not> common s ky \<le> i"
    then have "Suc i \<le> common s ky" "i < length ky" using common_le(2) [of s ky] by simp_all
    then show False
      using assms common_Suc [of i s ky] that by (auto simp: consume_iff status_at_Might)
  qed
qed

text \<open>The loop, when every keyword has the status for the characters taken so far.\<close>

definition scan_end :: "string list \<Rightarrow> string \<Rightarrow> istream" where
  "scan_end kws s =
     (let n = longest_common kws s
      in setstate (n = length s \<and> list_ex (\<lambda>ky. n < length ky \<and> common s ky = n) kws) False
        (istream_of (drop n s)))"

lemma longest_common_le: "longest_common kws s \<le> length s"
  using longest_common_Max(2) [of kws s] by (metis common_le(1) le0)

lemma longest_commonI:
  "i \<le> longest_common kws s \<Longrightarrow> (\<And>ky. ky \<in> set kws \<Longrightarrow> common s ky \<le> i) \<Longrightarrow> longest_common kws s = i"
  using longest_common_Max(2) [of kws s] by force

lemma scan_loop_status:
  "i \<le> longest_common kws s \<Longrightarrow> scan_loop kws i (map (status_at s i) kws) (istream_of (drop i s)) = (st, is') \<Longrightarrow>
    is' = scan_end kws s \<and> list_all2 (\<lambda>ky x. x = Does_match \<longleftrightarrow> keyword_at s (longest_common kws s) ky) kws st"
proof (induction "length s - i" arbitrary: i rule: less_induct)
  case less
  let ?n = "longest_common kws s" and ?st = "map (status_at s i) kws"
  note run = less.prems(2) [unfolded scan_loop.simps [of kws i ?st]]
  have i: "i \<le> length s" using less.prems(1) longest_common_le [of kws s] by simp
  show ?case
  proof (cases "n_match Might_match ?st = 0")
    case True
    then have no: "\<not> (i \<le> common s ky \<and> i < length ky)" if "ky \<in> set kws" for ky
      using that by (auto simp: n_match_0 status_at_Might)
    have "common s ky \<le> i" if "ky \<in> set kws" for ky using no [OF that] common_le(2) [of s ky] by (cases "i \<le> common s ky") auto
    then have n: "?n = i" using less.prems(1) by (intro longest_commonI)
    have "st = ?st" "is' = istream_of (drop i s)" using run True by (auto simp: istream_of_def)
    then show ?thesis
      using no by (auto simp: scan_end_def Let_def n list_ex_iff list_all2_conv_all_nth status_at_Does setstate_def istream_of_def)
  next
    case False
    then obtain ky where ky: "ky \<in> set kws" "i \<le> common s ky" "i < length ky"
      by (auto simp: n_match_0 status_at_Might)
    show ?thesis
    proof (cases "i = length s")
      case True
      then have n: "?n = i" using less.prems(1) common_le(1) [of s] by (intro longest_commonI) simp_all
      have "st = ?st" "is' = setstate True False (istream_of [])"
        using run False True by (auto simp: istream_of_def peek_def is_good_def setstate_def)
      moreover have "common s ky = i" using ky(2) common_le(1) [of s ky] True by simp
      then have "list_ex (\<lambda>ky. i < length ky \<and> common s ky = i) kws" using ky by (auto simp: list_ex_iff)
      ultimately show ?thesis
        using True by (auto simp: scan_end_def Let_def n list_all2_conv_all_nth status_at_Does)
    next
      case i_less: False
      with i have i: "i < length s" by simp
      then have d: "drop i s = s ! i # drop (Suc i) s" by (simp add: Cons_nth_drop_Suc)
      let ?c = "to_upper (s ! i)" and ?st' = "map2 (scan_char (to_upper (s ! i)) i) kws ?st"
      have p: "\<not> is_fail (istream_of (drop i s))" "peek (istream_of (drop i s)) = (Some (s ! i), istream_of (drop i s))"
        "snd (get_char (istream_of (drop i s))) = istream_of (drop (Suc i) s)"
        by (simp_all add: d istream_of_def peek_def get_char_def is_good_def)
      show ?thesis
      proof (cases "scan_consume ?c i kws ?st")
        case True
        then have "Suc i \<le> ?n"
          using longest_common_Max(1) [of _ kws s] common_Suc [of i s] i
          by (fastforce simp: consume_iff status_at_Might)
        moreover have "scan_loop kws (Suc i) (map (status_at s (Suc i)) kws) (istream_of (drop (Suc i) s)) = (st, is')"
          using run False p True scan_step_taken [OF i True] by (simp add: Let_def)
        ultimately show ?thesis using less.hyps [of "Suc i"] i by simp
      next
        case not_taken: False
        note no = scan_step_not_taken [OF not_taken]
        have n: "?n = i" using less.prems(1) no(2) i by (intro longest_commonI) auto
        have "scan_loop kws (Suc i) ?st' (istream_of (drop i s)) = (st, is')"
          using run False p not_taken by (simp add: Let_def)
        then have "st = ?st'" "is' = istream_of (drop i s)"
          using scan_char_none [OF not_taken] by (simp_all add: scan_loop.simps [of kws "Suc i"])
        then show ?thesis
          using no(1) i
          by (auto simp: scan_end_def Let_def n map2_self list_all2_conv_all_nth setstate_def istream_of_def)
      qed
    qed
  qed
qed

text \<open>The first of the keywords that end where the longest common beginning ends.\<close>

lemma scan_keyword_longest:
  fixes kws :: "string list" and s :: string
  defines "n \<equiv> longest_common kws s"
  shows "scan_keyword kws (istream_of s) =
    (let i = length (takeWhile (\<lambda>ky. \<not> keyword_at s n ky) kws)
     in (i, if i = length kws then setstate False True (scan_end kws s) else scan_end kws s))"
proof -
  obtain st is' where run: "scan_loop kws 0 (scan_init kws) (istream_of s) = (st, is')"
    by (cases "scan_loop kws 0 (scan_init kws) (istream_of s)")
  with scan_loop_status [of 0 kws s st is'] have e: "is' = scan_end kws s"
    and "list_all2 (\<lambda>ky x. x = Does_match \<longleftrightarrow> keyword_at s n ky) kws st"
    by (simp_all add: scan_init_status [of kws s] n_def)
  from this(2) have "length (takeWhile (\<lambda>x. x \<noteq> Does_match) st) = length (takeWhile (\<lambda>ky. \<not> keyword_at s n ky) kws)"
    by induction auto
  with run e show ?thesis by (simp add: scan_keyword_def)
qed

end
