(* ===== verification/ParseNames.thy ===== *)
theory ParseNames
  imports KeywordText FormatText
begin

text \<open>
  Reading back the printed names of weekdays, months and halves of the day: the index that
  \<open>scan_keyword\<close> finds for a name, and what it leaves of the text that follows.
\<close>

section \<open>A keyword at the beginning of a text\<close>

lemma common_append:
  "common (t @ r) ky = (if common t ky = length t then length t + common r (drop (length t) ky) else common t ky)"
  by (induction t ky rule: common.induct) auto

lemma common_self [simp]: "common t t = length t"
  by (induction t) auto

text \<open>No longer keyword goes on with the text that follows, or may do so when nothing follows.\<close>

definition name_ends :: "string list \<Rightarrow> string \<Rightarrow> string \<Rightarrow> bool" where
  "name_ends kws t r \<longleftrightarrow> list_all (\<lambda>ky. common t ky = length t \<and> length t < length ky \<longrightarrow>
     r \<noteq> [] \<and> to_upper (hd r) \<noteq> to_upper (ky ! length t)) kws"

definition name_index :: "string list \<Rightarrow> string \<Rightarrow> nat" where
  "name_index kws t = length (takeWhile (\<lambda>ky. \<not> keyword_at t (length t) ky) kws)"

lemma common_name:
  assumes "name_ends kws t r" and "ky \<in> set kws"
  shows "common (t @ r) ky = common t ky"
proof (cases "common t ky = length t \<and> length t < length ky")
  case True
  then obtain d ds where d: "drop (length t) ky = d # ds" "ky ! length t = d"
    by (metis Cons_nth_drop_Suc)
  then have "r \<noteq> [] \<and> to_upper (hd r) \<noteq> to_upper d"
    using assms True by (auto simp: name_ends_def list_all_iff)
  then show ?thesis using True d by (cases r) (simp_all add: common_append)
qed (auto simp: common_append)

lemma scan_keyword_name:
  assumes "t \<in> set kws" and "name_ends kws t r"
  shows "scan_keyword kws (istream_of (t @ r)) = (name_index kws t, istream_of r)"
proof -
  let ?s = "t @ r"
  note c = common_name [OF assms(2)]
  have "length t \<le> longest_common kws ?s" using longest_common_Max(1) [OF assms(1), of ?s] c [OF assms(1)] by simp
  then have n: "longest_common kws ?s = length t"
    using c common_le(1) [of t] by (intro longest_commonI) simp_all
  have k: "keyword_at ?s (length t) ky \<longleftrightarrow> keyword_at t (length t) ky" if "ky \<in> set kws" for ky
    using c [OF that] by (simp add: keyword_at_def)
  then have i: "length (takeWhile (\<lambda>ky. \<not> keyword_at ?s (length t) ky) kws) = name_index kws t"
    unfolding name_index_def by (metis (mono_tags, lifting) takeWhile_cong)
  have "\<exists>ky\<in>set kws. keyword_at t (length t) ky" using assms(1) by (auto simp: keyword_at_def)
  then have "takeWhile (\<lambda>ky. \<not> keyword_at t (length t) ky) kws \<noteq> kws" by (auto simp: takeWhile_eq_all_conv)
  then have lt: "name_index kws t \<noteq> length kws"
    unfolding name_index_def by (metis takeWhile_eq_take take_all order_refl)
  let ?b = "length t = length ?s \<and> list_ex (\<lambda>ky. length t < length ky \<and> common ?s ky = length t) kws"
  have "\<not> (length t = length ?s \<and> list_ex (\<lambda>ky. length t < length ky \<and> common ?s ky = length t) kws)"
    using assms(2) c by (auto simp: name_ends_def list_ex_iff list_all_iff)
  moreover have "scan_end kws ?s = setstate ?b False (istream_of (drop (length t) ?s))"
    by (simp only: scan_end_def n Let_def)
  ultimately have "scan_end kws ?s = istream_of r" by (simp add: setstate_def istream_of_def)
  then show ?thesis using i lt by (simp add: scan_keyword_longest n Let_def)
qed

section \<open>The names of the library\<close>

text \<open>A character that is no letter does not continue a name.\<close>

lemma name_ends_separate:
  assumes "\<not> is_alnum c" and "list_all (\<lambda>ky. length t < length ky \<longrightarrow> is_alnum (to_upper (ky ! length t))) kws"
  shows "name_ends kws t (c # r)"
proof -
  have "to_upper c = c" using assms(1) by (auto simp: to_upper_def is_alnum_def)
  then show ?thesis using assms by (auto simp: name_ends_def list_all_iff)
qed

lemma name_ends_whole:
  assumes "list_all (\<lambda>ky. length t < length ky \<longrightarrow> common t ky < length t) kws"
  shows "name_ends kws t r"
  using assms by (auto simp: name_ends_def list_all_iff)

text \<open>Texts for a name in full and for its first three characters.\<close>

definition name_read :: "string list \<Rightarrow> string \<Rightarrow> nat \<Rightarrow> nat \<Rightarrow> bool" where
  "name_read kws t n i \<longleftrightarrow> t \<in> set kws \<and> name_index kws t mod n = i \<and>
     list_all (\<lambda>ky. length t < length ky \<longrightarrow> is_alnum (to_upper (ky ! length t))) kws"

definition name_read_whole :: "string list \<Rightarrow> string \<Rightarrow> bool" where
  "name_read_whole kws t \<longleftrightarrow> list_all (\<lambda>ky. length t < length ky \<longrightarrow> common t ky < length t) kws"

lemmas name_read_simps = name_read_def name_read_whole_def name_index_def keyword_at_def to_upper_def
  is_alnum_def is_digit_def

lemma names_read:
  "w < 7 \<Longrightarrow> name_read weekday_names (weekday_names ! w) 7 w \<and> name_read_whole weekday_names (weekday_names ! w) \<and>
     name_read weekday_names (take 3 (weekday_names ! w)) 7 w"
  "m < 12 \<Longrightarrow> name_read month_names (month_names ! m) 12 m \<and> name_read_whole month_names (month_names ! m) \<and>
     name_read month_names (take 3 (month_names ! m)) 12 m"
proof -
  assume "w < 7"
  then have "w = 0 \<or> w = 1 \<or> w = 2 \<or> w = 3 \<or> w = 4 \<or> w = 5 \<or> w = 6" by linarith
  then show "name_read weekday_names (weekday_names ! w) 7 w \<and> name_read_whole weekday_names (weekday_names ! w) \<and>
     name_read weekday_names (take 3 (weekday_names ! w)) 7 w"
    by (elim disjE; simp add: name_read_simps weekday_names_def)
next
  assume "m < 12"
  then have "m = 0 \<or> m = 1 \<or> m = 2 \<or> m = 3 \<or> m = 4 \<or> m = 5 \<or> m = 6 \<or> m = 7 \<or> m = 8 \<or> m = 9 \<or> m = 10 \<or> m = 11"
    by presburger
  then show "name_read month_names (month_names ! m) 12 m \<and> name_read_whole month_names (month_names ! m) \<and>
     name_read month_names (take 3 (month_names ! m)) 12 m"
    by (elim disjE; simp add: name_read_simps month_names_def)
qed

definition separated :: "string \<Rightarrow> bool" where
  "separated r \<longleftrightarrow> r \<noteq> [] \<and> \<not> is_alnum (hd r)"

lemma scan_names:
  fixes kws :: "string list" and w n :: nat and r :: string
  assumes "name_read kws (kws ! w) n w \<and> name_read_whole kws (kws ! w) \<and> name_read kws (take 3 (kws ! w)) n w"
  shows "\<exists>i. scan_keyword kws (istream_of (kws ! w @ r)) = (i, istream_of r) \<and> i mod n = w"
    and "separated r \<Longrightarrow> \<exists>i. scan_keyword kws (istream_of (take 3 (kws ! w) @ r)) = (i, istream_of r) \<and> i mod n = w"
proof -
  have "name_ends kws (kws ! w) r" using assms by (intro name_ends_whole) (simp add: name_read_whole_def)
  then show "\<exists>i. scan_keyword kws (istream_of (kws ! w @ r)) = (i, istream_of r) \<and> i mod n = w"
    using assms scan_keyword_name [of "kws ! w" kws r] by (auto simp: name_read_def)
  show "\<exists>i. scan_keyword kws (istream_of (take 3 (kws ! w) @ r)) = (i, istream_of r) \<and> i mod n = w" if "separated r"
  proof -
    from that have "name_ends kws (take 3 (kws ! w)) r"
      using assms name_ends_separate [of "hd r" "take 3 (kws ! w)" kws "tl r"]
      by (auto simp: separated_def name_read_def)
    then show ?thesis
      using assms scan_keyword_name [of "take 3 (kws ! w)" kws r] by (auto simp: name_read_def)
  qed
qed

lemma scan_weekday:
  assumes "0 \<le> w" and "w < 7"
  shows "\<exists>i. scan_keyword weekday_names (istream_of (day_name w @ r)) = (i, istream_of r) \<and> int i mod 7 = w"
    and "separated r \<Longrightarrow>
      \<exists>i. scan_keyword weekday_names (istream_of (take 3 (day_name w) @ r)) = (i, istream_of r) \<and> int i mod 7 = w"
proof -
  have "nat w < 7" using assms by auto
  note n = scan_names [OF names_read(1) [OF this], of r]
  have "int i mod 7 = w" if "i mod 7 = nat w" for i using that assms zmod_int [of i 7] by simp
  with n show "\<exists>i. scan_keyword weekday_names (istream_of (day_name w @ r)) = (i, istream_of r) \<and> int i mod 7 = w"
    "separated r \<Longrightarrow>
      \<exists>i. scan_keyword weekday_names (istream_of (take 3 (day_name w) @ r)) = (i, istream_of r) \<and> int i mod 7 = w"
    unfolding day_name_def by blast+
qed

lemma scan_month:
  assumes "1 \<le> m" and "m \<le> 12"
  shows "\<exists>i. scan_keyword month_names (istream_of (month_name m @ r)) = (i, istream_of r) \<and> int i mod 12 + 1 = m"
    and "separated r \<Longrightarrow>
      \<exists>i. scan_keyword month_names (istream_of (take 3 (month_name m) @ r)) = (i, istream_of r) \<and> int i mod 12 + 1 = m"
proof -
  have "nat (m - 1) < 12" using assms by auto
  note n = scan_names [OF names_read(2) [OF this], of r]
  have "int i mod 12 + 1 = m" if "i mod 12 = nat (m - 1)" for i using that assms zmod_int [of i 12] by simp
  with n show "\<exists>i. scan_keyword month_names (istream_of (month_name m @ r)) = (i, istream_of r) \<and> int i mod 12 + 1 = m"
    "separated r \<Longrightarrow>
      \<exists>i. scan_keyword month_names (istream_of (take 3 (month_name m) @ r)) = (i, istream_of r) \<and> int i mod 12 + 1 = m"
    unfolding month_name_def by blast+
qed

lemma scan_ampm:
  "\<exists>i. scan_keyword ampm_names (istream_of (half_of_day h @ r)) = (i, istream_of r) \<and> int i = (if h < 12 then 0 else 1)"
proof -
  have "name_read_whole ampm_names ''AM''" "name_read_whole ampm_names ''PM''"
    "name_index ampm_names ''AM'' = 0" "name_index ampm_names ''PM'' = 1"
    by (simp_all add: name_read_simps ampm_names_def)
  then show ?thesis
    using scan_keyword_name [of "half_of_day h" ampm_names r] name_ends_whole [of "half_of_day h" ampm_names r]
    by (auto simp: half_of_day_def ampm_names_def name_read_whole_def)
qed

end
