(* ===== verification/ParseText.thy ===== *)
theory ParseText
  imports ParseRead ParseNames
begin

text \<open>
  Parsing what was printed: from the text of a conversion, followed by anything, \<open>from_stream\<close>
  takes exactly that text and stores the value it was printed from.
\<close>

section \<open>What is parsed\<close>

text \<open>
  The conversions whose text has a fixed width or ends by itself; without facets those with names.
\<close>

definition round_numbers :: string where
  "round_numbers = ''dFGHjmMnRSTtuUVwWYz%''"

definition round_names :: string where
  "round_names = ''aAbBhIXp''"

definition round_conversions :: "std_locale \<Rightarrow> string" where
  "round_conversions loc = round_numbers @ (if loc = None then round_names else [])"

text \<open>A variable after the conversions \<open>cs\<close>: one of \<open>own\<close> has set it, or it is not set.\<close>

definition knows :: "string \<Rightarrow> string \<Rightarrow> 'a \<Rightarrow> 'a \<Rightarrow> 'a" where
  "knows cs own v not_a_value = (if list_ex (\<lambda>c. c \<in> set own) cs then v else not_a_value)"

definition year_of :: "nat \<Rightarrow> int \<Rightarrow> int" where
  "year_of k tp = fst (civil_days (day_of k tp))"

definition month_of :: "nat \<Rightarrow> int \<Rightarrow> int" where
  "month_of k tp = fst (snd (civil_days (day_of k tp)))"

definition mday_of :: "nat \<Rightarrow> int \<Rightarrow> int" where
  "mday_of k tp = snd (snd (civil_days (day_of k tp)))"

definition yday_of :: "nat \<Rightarrow> int \<Rightarrow> int" where
  "yday_of k tp = day_of k tp - jan1 (year_of k tp)"

definition iso_year_of :: "nat \<Rightarrow> int \<Rightarrow> int" where
  "iso_year_of k tp = fst (civil_days (thursday_of (day_of k tp)))"

definition iso_week_of :: "nat \<Rightarrow> int \<Rightarrow> int" where
  "iso_week_of k tp = (thursday_of (day_of k tp) - jan1 (iso_year_of k tp)) div 7 + 1"

definition week_of :: "int \<Rightarrow> nat \<Rightarrow> int \<Rightarrow> int" where
  "week_of w k tp = week_number (yday_of k tp) ((day_of k tp + 4 - w) mod 7)"

definition parsed :: "nat \<Rightarrow> int \<Rightarrow> string \<Rightarrow> istream \<Rightarrow> parse_state" where
  "parsed k tp cs is = \<lparr>p_is = is, p_tm = tm_zero, p_command = None, p_modified = None, p_width = - 1,
     p_Y = knows cs ''YF'' (year_of k tp) not_a_year, p_y = not_a_2digit_year,
     p_g = not_a_2digit_year, p_G = knows cs ''G'' (iso_year_of k tp) not_a_year, p_C = not_a_century,
     p_m = knows cs ''mFbBh'' (month_of k tp) not_a_month, p_d = knows cs ''dF'' (mday_of k tp) not_a_day,
     p_j = knows cs ''j'' (yday_of k tp + 1) not_a_doy,
     p_wd = knows cs ''uwaA'' ((day_of k tp + 4) mod 7) not_a_weekday,
     p_H = knows cs ''HRTX'' (second_of_day k tp div 3600) not_a_hour,
     p_I = knows cs ''I'' (clock12 (second_of_day k tp div 3600)) not_a_hour_12_value,
     p_p = knows cs ''p'' (if second_of_day k tp div 3600 < 12 then 0 else 1) not_a_ampm,
     p_M = knows cs ''MRTX'' (second_of_day k tp div 60 mod 60) not_a_minute,
     p_s = knows cs ''STX'' (tp mod (60 * 10 ^ k)) not_a_second,
     p_U = knows cs ''U'' (week_of 0 k tp) not_a_week_num,
     p_V = knows cs ''V'' (iso_week_of k tp) not_a_week_num,
     p_W = knows cs ''W'' (week_of 1 k tp) not_a_week_num,
     p_abbrev = [], p_offset = knows cs ''z'' 0 not_a_offset\<rparr>"

lemma parse_init_parsed: "parse_init is = parsed k tp [] is"
  by (simp add: parse_init_def parsed_def knows_def)

lemma checked_set_knows [simp]:
  "\<not> is_fail is \<Longrightarrow> checked_set (knows cs own v na) v na is = (v, is)"
  by (simp add: checked_set_def knows_def)

lemma knows_Cons: "knows (c # cs) own v na = (if c \<in> set own then v else knows cs own v na)"
  by (simp add: knows_def)

text \<open>The conversion of decimal seconds to ticks is exact for what a clock of \<open>k\<close> digits prints.\<close>

definition ticks_exact :: "nat \<Rightarrow> ticks \<Rightarrow> bool" where
  "ticks_exact k tk \<longleftrightarrow> (\<forall>i<60. \<forall>f<10 ^ k. tk (of_nat i, of_nat f, k) = int (i * 10 ^ k + f))"

text \<open>Points in time from the year 1 whose year, and year of the week, have four digits.\<close>

definition point_round :: "nat \<Rightarrow> int \<Rightarrow> bool" where
  "point_round k tp \<longleftrightarrow> point_ok k tp \<and> 1 \<le> year_of k tp \<and> year_of k tp \<le> 9999 \<and>
     iso_year_of k tp \<le> 9999"

section \<open>Bounds\<close>

text \<open>The year of a day's week is at most one before the year of the day.\<close>

lemma iso_year_before:
  assumes "fst (civil_days n) = y"
  shows "y - 1 \<le> fst (civil_days (thursday_of n))"
proof -
  let ?i = "fst (civil_days (thursday_of n))"
  have "jan1 (y - 1) + 365 \<le> jan1 y" using year_length [of "y - 1"] by simp
  moreover have "jan1 y \<le> n" using year_of_days [of n y] assms by simp
  moreover have "n - 3 \<le> thursday_of n" by (simp add: thursday_of_def)
  ultimately have "jan1 (y - 1) \<le> thursday_of n" by simp
  moreover have "thursday_of n < jan1 (?i + 1)" using year_of_days [of "thursday_of n" ?i] by simp
  ultimately show ?thesis using jan1_mono_le [of "?i + 1" "y - 1"] by (cases "?i < y - 1") auto
qed

lemma point_bounds:
  assumes "point_round k tp"
  shows "1 \<le> year_of k tp" "year_of k tp < 10000" "0 \<le> iso_year_of k tp" "iso_year_of k tp < 10000"
    "1 \<le> month_of k tp" "month_of k tp \<le> 12" "1 \<le> mday_of k tp" "mday_of k tp \<le> 31"
    "0 \<le> yday_of k tp" "yday_of k tp < 366" "1 \<le> iso_week_of k tp" "iso_week_of k tp \<le> 53"
    "0 \<le> week_of w k tp" "week_of w k tp \<le> 53"
    "0 \<le> second_of_day k tp" "second_of_day k tp < 86400"
proof -
  let ?n = "day_of k tp"
  have ok: "point_ok k tp" using assms by (simp add: point_round_def)
  show "year_of k tp < 10000" "iso_year_of k tp < 10000" using assms by (simp_all add: point_round_def)
  obtain y m d where c: "civil_days ?n = (y, m, d)" by (cases "civil_days ?n") auto
  show y1: "1 \<le> year_of k tp" using assms by (simp add: point_round_def)
  have "valid_date (y, m, d)" using civil_days_correct(1) [of ?n] c by simp
  then show "1 \<le> month_of k tp" "month_of k tp \<le> 12" "1 \<le> mday_of k tp" "mday_of k tp \<le> 31"
    using month_length_bounds [of y m] by (auto simp: month_of_def mday_of_def c valid_date_def)
  have "jan1 (year_of k tp) \<le> ?n" "?n < jan1 (year_of k tp + 1)"
    using year_of_days [of ?n "year_of k tp"] by (simp_all add: year_of_def)
  then show yd: "0 \<le> yday_of k tp" "yday_of k tp < 366"
    using year_length [of "year_of k tp"] by (simp_all add: yday_of_def)
  show "0 \<le> iso_year_of k tp"
    using iso_year_before [of ?n "year_of k tp"] y1 by (simp add: iso_year_of_def year_of_def)
  show "1 \<le> iso_week_of k tp" "iso_week_of k tp \<le> 53"
    using iso_of_point(2) [OF ok] iso_week_bounds [OF point_date(4,3) [OF ok]]
    by (simp_all add: iso_week_of_def iso_year_of_def)
  define q where "q = (?n + 4 - w) mod 7"
  have "0 \<le> q" "q < 7" by (simp_all add: q_def)
  then have "0 div 7 \<le> (yday_of k tp + 7 - q) div 7" "(yday_of k tp + 7 - q) div 7 \<le> 372 div 7"
    using yd by (intro zdiv_mono1; simp)+
  then show "0 \<le> week_of w k tp" "week_of w k tp \<le> 53"
    by (simp_all add: week_of_def week_number_def q_def)
  show "0 \<le> second_of_day k tp" "second_of_day k tp < 86400"
    using point_time(9,10) ok by (simp_all add: point_ok_def)
qed

section \<open>Reading the texts\<close>

lemma num_text_two: "0 \<le> i \<Longrightarrow> i < 100 \<Longrightarrow> num_text 2 i (two i)"
  using num_text_right [of i 2] zero2_two [of i] by (simp add: zero2_def)

lemma num_text_digit: "0 \<le> i \<Longrightarrow> i < 10 \<Longrightarrow> num_text 1 i (to_string i)"
  using num_text_right [of i 1] by (auto simp: os_right_def to_string_def Suc_leI)

declare read.simps(4,5,6) [simp del]

lemma read_number_text:
  assumes "num_text L v t" and "0 < L" and "L \<le> 9" and "mn \<le> of_nat L"
  shows "read (RUnsigned mn (of_nat L) # items) (istream_of (t @ r)) =
    (case read items (istream_of r) of (vs, is') \<Rightarrow> (VInt v # vs, is'))"
  by (simp add: read.simps(5) read_unsigned_text(1) [OF assms] read_unsigned_text(2) [OF assms] del: of_nat_nat)

lemma read_two [simp]:
  assumes "0 \<le> i" and "i < 100"
  shows "read (RUnsigned 1 2 # items) (istream_of (two i @ r)) =
      (case read items (istream_of r) of (vs, is') \<Rightarrow> (VInt i # vs, is'))"
    and "read (RUnsigned 2 2 # items) (istream_of (two i @ r)) =
      (case read items (istream_of r) of (vs, is') \<Rightarrow> (VInt i # vs, is'))"
  using read_number_text [OF num_text_two [OF assms], of 1 items r]
    read_number_text [OF num_text_two [OF assms], of 2 items r]
  by simp_all

lemma read_three [simp]:
  assumes "0 \<le> i" and "i < 1000"
  shows "read (RUnsigned 1 3 # items) (istream_of (os_right (CHR ''0'') 3 (to_string i) @ r)) =
      (case read items (istream_of r) of (vs, is') \<Rightarrow> (VInt i # vs, is'))"
  using read_number_text [OF num_text_right [of i 3], of 1 items r] assms by simp

lemma read_digit [simp]:
  assumes "0 \<le> i" and "i < 10"
  shows "read (RUnsigned 1 1 # items) (istream_of (to_string i @ r)) =
      (case read items (istream_of r) of (vs, is') \<Rightarrow> (VInt i # vs, is'))"
  using read_number_text [OF num_text_digit [OF assms], of 1 items r] by simp

lemma read_year4 [simp]:
  assumes "0 \<le> y" and "y < 10000"
  shows "read (RSigned 1 4 # items) (istream_of (year4 y @ r)) =
      (case read items (istream_of r) of (vs, is') \<Rightarrow> (VInt y # vs, is'))"
  using read_signed_text [OF num_text_right [of y 4], of r] assms by (simp add: year4_nonneg read.simps(4))

lemma read_seconds_text:
  assumes "k \<le> 18"
  shows "read_long_double 1 (seconds_width (10 ^ k)) (istream_of (seconds_text k tp @ r)) =
    ((word_of_int (second_of_day k tp mod 60), word_of_int (tp mod 10 ^ k), k), istream_of r)"
proof -
  have t: "num_text 2 (second_of_day k tp mod 60) (two (second_of_day k tp mod 60))"
    by (intro num_text_two) (simp_all add: order_less_trans [OF pos_mod_bound])
  have u: "num_text k (tp mod 10 ^ k) (os_right (CHR ''0'') k (to_string (tp mod 10 ^ k)))" if "k \<noteq> 0"
    using that by (intro num_text_right) simp_all
  show ?thesis
    using read_seconds [OF t u assms, of r] by (simp add: seconds_text_def split: if_splits)
qed

lemma seconds_ticks:
  assumes "ticks_exact k tk"
  shows "tk (word_of_int (second_of_day k tp mod 60), word_of_int (tp mod 10 ^ k), k) = tp mod (60 * 10 ^ k)"
proof -
  let ?s = "second_of_day k tp mod 60" and ?f = "tp mod 10 ^ k" and ?D = "10 ^ k :: int"
  have "nat ?s < 60" "nat ?f < 10 ^ k" by (simp_all add: nat_less_iff)
  with assms have "tk (of_nat (nat ?s), of_nat (nat ?f), k) = int (nat ?s * 10 ^ k + nat ?f)"
    unfolding ticks_exact_def by blast
  then have "tk (word_of_int ?s, word_of_int ?f, k) = ?s * ?D + ?f" by simp
  moreover have "tp mod (?D * 86400) div ?D = tp div ?D mod 86400"
    unfolding zmod_zmult2_eq [of 86400 tp ?D, simplified] by simp
  then have "?s = tp div ?D mod 60"
    by (simp add: second_of_day_def mult.commute mod_mod_cancel)
  moreover have "tp mod (?D * 60) = ?D * (tp div ?D mod 60) + ?f"
    using zmod_zmult2_eq [of 60 tp ?D] by simp
  ultimately show ?thesis by (simp add: mult.commute)
qed

section \<open>The conversions\<close>

definition before :: "nat \<Rightarrow> int \<Rightarrow> string \<Rightarrow> char \<Rightarrow> string \<Rightarrow> parse_state" where
  "before k tp cs c r = (parsed k tp cs (istream_of (conv_text k tp c @ r)))\<lparr>p_command := Some ''%''\<rparr>"

text \<open>The texts by name, in place of the conditional of the reference.\<close>

lemma conv_texts:
  "conv_text k tp (CHR ''d'') = two (mday_of k tp)"
  "conv_text k tp (CHR ''F'') = year4 (year_of k tp) @ ''-'' @ two (month_of k tp) @ ''-'' @ two (mday_of k tp)"
  "conv_text k tp (CHR ''G'') = year4 (iso_year_of k tp)"
  "conv_text k tp (CHR ''H'') = two (second_of_day k tp div 3600)"
  "conv_text k tp (CHR ''j'') = os_right (CHR ''0'') 3 (to_string (yday_of k tp + 1))"
  "conv_text k tp (CHR ''m'') = two (month_of k tp)"
  "conv_text k tp (CHR ''M'') = two (second_of_day k tp div 60 mod 60)"
  "conv_text k tp (CHR ''n'') = [CHR 0x0A]"
  "conv_text k tp (CHR ''t'') = [CHR 0x09]"
  "conv_text k tp (CHR ''R'') = two (second_of_day k tp div 3600) @ '':'' @ two (second_of_day k tp div 60 mod 60)"
  "conv_text k tp (CHR ''S'') = seconds_text k tp"
  "conv_text k tp (CHR ''T'') = two (second_of_day k tp div 3600) @ '':'' @ two (second_of_day k tp div 60 mod 60)
    @ '':'' @ seconds_text k tp"
  "conv_text k tp (CHR ''u'') = to_string ((day_of k tp + 3) mod 7 + 1)"
  "conv_text k tp (CHR ''U'') = two (week_of 0 k tp)"
  "conv_text k tp (CHR ''V'') = two (iso_week_of k tp)"
  "conv_text k tp (CHR ''w'') = to_string ((day_of k tp + 4) mod 7)"
  "conv_text k tp (CHR ''W'') = two (week_of 1 k tp)"
  "conv_text k tp (CHR ''Y'') = year4 (year_of k tp)"
  "conv_text k tp (CHR ''z'') = ''+0000''"
  "conv_text k tp (CHR ''%'') = ''%''"
  "conv_text k tp (CHR ''a'') = take 3 (day_name ((day_of k tp + 4) mod 7))"
  "conv_text k tp (CHR ''A'') = day_name ((day_of k tp + 4) mod 7)"
  "conv_text k tp (CHR ''b'') = take 3 (month_name (month_of k tp))"
  "conv_text k tp (CHR ''B'') = month_name (month_of k tp)"
  "conv_text k tp (CHR ''h'') = take 3 (month_name (month_of k tp))"
  "conv_text k tp (CHR ''I'') = two (clock12 (second_of_day k tp div 3600))"
  "conv_text k tp (CHR ''X'') = two (second_of_day k tp div 3600) @ '':'' @ two (second_of_day k tp div 60 mod 60)
    @ '':'' @ seconds_text k tp"
  "conv_text k tp (CHR ''p'') = half_of_day (second_of_day k tp div 3600)"
  by (simp_all add: conv_text_def year_of_def month_of_def mday_of_def yday_of_def iso_year_of_def
    iso_week_of_def week_of_def Let_def add.commute split: prod.split)

lemma value_2 [simp]:
  "int_value (v # vs) 2 x = int_value vs (Suc 0) x" "decimal_value (v # vs) 2 = decimal_value vs (Suc 0)"
  by (simp_all add: numeral_2_eq_2)

lemmas round_bounds = point_bounds(1-12,15,16) point_bounds(13,14) [of _ _ 0] point_bounds(13,14) [of _ _ 1]

lemma parse_week_numbers:
  assumes "point_round k tp"
  shows "parse_G (CHR ''G'') (before k tp cs (CHR ''G'') r) = parsed k tp (CHR ''G'' # cs) (istream_of r)"
    "parse_U (CHR ''U'') (before k tp cs (CHR ''U'') r) = parsed k tp (CHR ''U'' # cs) (istream_of r)"
    "parse_V (CHR ''V'') (before k tp cs (CHR ''V'') r) = parsed k tp (CHR ''V'' # cs) (istream_of r)"
    "parse_W (CHR ''W'') (before k tp cs (CHR ''W'') r) = parsed k tp (CHR ''W'' # cs) (istream_of r)"
    "parse_j (CHR ''j'') (before k tp cs (CHR ''j'') r) = parsed k tp (CHR ''j'' # cs) (istream_of r)"
  using round_bounds [OF assms(1)]
  by (simp_all add: before_def parse_G_def parse_U_def parse_V_def parse_W_def parse_j_def parse_number_def
    p_read_def check_def conv_end_def width_or_def parsed_def knows_Cons conv_texts)

lemma parse_date_numbers:
  assumes "point_round k tp"
  shows "parse_F (CHR ''F'') (before k tp cs (CHR ''F'') r) = parsed k tp (CHR ''F'' # cs) (istream_of r)"
    "parse_Y loc (CHR ''Y'') (before k tp cs (CHR ''Y'') r) = parsed k tp (CHR ''Y'' # cs) (istream_of r)"
    "parse_m loc (CHR ''m'') (before k tp cs (CHR ''m'') r) = parsed k tp (CHR ''m'' # cs) (istream_of r)"
    "parse_d loc (CHR ''d'') (before k tp cs (CHR ''d'') r) = parsed k tp (CHR ''d'' # cs) (istream_of r)"
  using round_bounds [OF assms(1)]
  by (simp_all add: before_def own_number_def parse_F_def parse_Y_def parse_m_def parse_d_def parse_number_def
    p_read_def check_def conv_end_def width_or_def parsed_def knows_Cons conv_texts)

lemma parse_weekday_numbers:
  assumes "point_round k tp"
  shows "parse_a loc (CHR ''u'') (before k tp cs (CHR ''u'') r) = parsed k tp (CHR ''u'' # cs) (istream_of r)"
    "parse_a loc (CHR ''w'') (before k tp cs (CHR ''w'') r) = parsed k tp (CHR ''w'' # cs) (istream_of r)"
proof -
  define w where "w = (day_of k tp + 4) mod 7"
  define u where "u = (day_of k tp + 3) mod 7 + 1"
  have w: "0 \<le> w" "w < 7" and u: "1 \<le> u" "u < 8" by (simp_all add: w_def u_def)
  have uw: "(if u = 7 then 0 else u) = w"
    using iso_weekday [of "day_of k tp"] w u by (auto simp: w_def [symmetric] u_def [symmetric] split: if_splits)
  show "parse_a loc (CHR ''u'') (before k tp cs (CHR ''u'') r) = parsed k tp (CHR ''u'' # cs) (istream_of r)"
    using u w uw
    by (simp add: before_def own_number_def parse_a_def parse_weekday_number_def p_read_def check_def conv_end_def
      width_or_def parsed_def knows_Cons conv_texts p_fail_def Let_def not_a_weekday_def
      u_def [symmetric] w_def [symmetric] split: if_splits)
  show "parse_a loc (CHR ''w'') (before k tp cs (CHR ''w'') r) = parsed k tp (CHR ''w'' # cs) (istream_of r)"
    using w
    by (simp add: before_def own_number_def parse_a_def parse_weekday_number_def p_read_def check_def conv_end_def
      width_or_def parsed_def knows_Cons conv_texts p_fail_def Let_def not_a_weekday_def w_def [symmetric])
qed

lemma parse_time_numbers:
  assumes "point_round k tp" and "ticks_exact k tk"
  shows "parse_H loc (CHR ''H'') (before k tp cs (CHR ''H'') r) = parsed k tp (CHR ''H'' # cs) (istream_of r)"
    "parse_M loc (CHR ''M'') (before k tp cs (CHR ''M'') r) = parsed k tp (CHR ''M'' # cs) (istream_of r)"
    "parse_R (CHR ''R'') (before k tp cs (CHR ''R'') r) = parsed k tp (CHR ''R'' # cs) (istream_of r)"
    "parse_S loc tk (10 ^ k) (CHR ''S'') (before k tp cs (CHR ''S'') r) =
      parsed k tp (CHR ''S'' # cs) (istream_of r)"
    "parse_T tk (10 ^ k) (CHR ''T'') (before k tp cs (CHR ''T'') r) = parsed k tp (CHR ''T'' # cs) (istream_of r)"
proof -
  have k: "k \<le> 18" using assms(1) by (simp add: point_round_def point_ok_def)
  let ?s = "second_of_day k tp"
  have "0 \<le> ?s div 3600" "?s div 3600 < 24" "0 \<le> ?s div 60 mod 60" "?s div 60 mod 60 < 60"
    using round_bounds(13,14) [OF assms(1)] by (simp_all add: int_div_lt pos_imp_zdiv_nonneg_iff)
  then show "parse_H loc (CHR ''H'') (before k tp cs (CHR ''H'') r) = parsed k tp (CHR ''H'' # cs) (istream_of r)"
    "parse_M loc (CHR ''M'') (before k tp cs (CHR ''M'') r) = parsed k tp (CHR ''M'' # cs) (istream_of r)"
    "parse_R (CHR ''R'') (before k tp cs (CHR ''R'') r) = parsed k tp (CHR ''R'' # cs) (istream_of r)"
    "parse_S loc tk (10 ^ k) (CHR ''S'') (before k tp cs (CHR ''S'') r) =
      parsed k tp (CHR ''S'' # cs) (istream_of r)"
    "parse_T tk (10 ^ k) (CHR ''T'') (before k tp cs (CHR ''T'') r) = parsed k tp (CHR ''T'' # cs) (istream_of r)"
    by (simp_all add: before_def own_number_def parse_H_def parse_M_def parse_R_def parse_S_def parse_T_def parse_clock_def
      parse_number_def p_read_def check_def conv_end_def width_or_def parsed_def knows_Cons conv_texts
      read.simps(6) read_seconds_text [OF k] seconds_ticks [OF assms(2)])
qed

lemma parse_other_texts:
  shows "parse_white (CHR ''n'') (before k tp cs (CHR ''n'') r) = parsed k tp (CHR ''n'' # cs) (istream_of r)"
    "parse_white (CHR ''t'') (before k tp cs (CHR ''t'') r) = parsed k tp (CHR ''t'' # cs) (istream_of r)"
    "parse_percent (before k tp cs (CHR ''%'') r) = parsed k tp (CHR ''%'' # cs) (istream_of r)"
    "parse_z (before k tp cs (CHR ''z'') r) = parsed k tp (CHR ''z'' # cs) (istream_of r)"
proof -
  show "parse_white (CHR ''n'') (before k tp cs (CHR ''n'') r) = parsed k tp (CHR ''n'' # cs) (istream_of r)"
    "parse_white (CHR ''t'') (before k tp cs (CHR ''t'') r) = parsed k tp (CHR ''t'' # cs) (istream_of r)"
    "parse_percent (before k tp cs (CHR ''%'') r) = parsed k tp (CHR ''%'' # cs) (istream_of r)"
    by (simp_all add: before_def parse_white_def parse_percent_def is_space_def conv_end_def parsed_def
      knows_Cons conv_texts p_state_def read_one_def)
  have zero: "read [RUnsigned 2 2] (istream_of (CHR ''0'' # CHR ''0'' # s)) = ([VInt 0], istream_of s)" for s
    using read_two(2) [of 0 "[]" s] by (simp add: two_0)
  have "is_digit (CHR ''0'')" by (simp add: is_digit_def)
  then have o: "read_offset False (istream_of (CHR ''0'' # CHR ''0'' # CHR ''0'' # CHR ''0'' # r)) = (0, istream_of r)"
    by (simp add: read_offset_def zero)
  show "parse_z (before k tp cs (CHR ''z'') r) = parsed k tp (CHR ''z'' # cs) (istream_of r)"
    using o
    by (simp add: before_def parse_z_def check_def conv_end_def parsed_def knows_Cons conv_texts)
qed

lemma parse_weekday_names:
  shows "parse_a None (CHR ''A'') (before k tp cs (CHR ''A'') r) = parsed k tp (CHR ''A'' # cs) (istream_of r)"
    and "separated r \<Longrightarrow>
      parse_a None (CHR ''a'') (before k tp cs (CHR ''a'') r) = parsed k tp (CHR ''a'' # cs) (istream_of r)"
proof -
  define w where "w = (day_of k tp + 4) mod 7"
  have w: "0 \<le> w" "w < 7" by (simp_all add: w_def)
  note defs = before_def parse_a_def parse_weekday_name_def read_name_def check_def conv_end_def parsed_def
    knows_Cons conv_texts p_fail_def Let_def not_a_weekday_def w_def [symmetric]
  obtain i where "scan_keyword weekday_names (istream_of (day_name w @ r)) = (i, istream_of r)" "int i mod 7 = w"
    using scan_weekday(1) [OF w] by blast
  then show "parse_a None (CHR ''A'') (before k tp cs (CHR ''A'') r) = parsed k tp (CHR ''A'' # cs) (istream_of r)"
    using w by (simp add: defs)
  assume "separated r"
  then obtain i where "scan_keyword weekday_names (istream_of (take 3 (day_name w) @ r)) = (i, istream_of r)"
    "int i mod 7 = w"
    using scan_weekday(2) [OF w] by blast
  then show "parse_a None (CHR ''a'') (before k tp cs (CHR ''a'') r) = parsed k tp (CHR ''a'' # cs) (istream_of r)"
    using w by (simp add: defs)
qed

lemma parse_month_names:
  assumes "point_round k tp"
  shows "parse_b None (CHR ''B'') (before k tp cs (CHR ''B'') r) = parsed k tp (CHR ''B'' # cs) (istream_of r)"
    and "separated r \<Longrightarrow>
      parse_b None (CHR ''b'') (before k tp cs (CHR ''b'') r) = parsed k tp (CHR ''b'' # cs) (istream_of r)"
    and "separated r \<Longrightarrow>
      parse_b None (CHR ''h'') (before k tp cs (CHR ''h'') r) = parsed k tp (CHR ''h'' # cs) (istream_of r)"
proof -
  note s = scan_month [OF round_bounds(5,6) [OF assms], of r]
  show "parse_b None (CHR ''B'') (before k tp cs (CHR ''B'') r) = parsed k tp (CHR ''B'' # cs) (istream_of r)"
    using s(1)
    by (auto simp: before_def parse_b_def read_name_def check_def conv_end_def parsed_def knows_Cons conv_texts
      p_fail_def)
  show "separated r \<Longrightarrow>
      parse_b None (CHR ''b'') (before k tp cs (CHR ''b'') r) = parsed k tp (CHR ''b'' # cs) (istream_of r)"
    "separated r \<Longrightarrow>
      parse_b None (CHR ''h'') (before k tp cs (CHR ''h'') r) = parsed k tp (CHR ''h'' # cs) (istream_of r)"
    using s(2)
    by (auto simp: before_def parse_b_def read_name_def check_def conv_end_def parsed_def knows_Cons conv_texts
      p_fail_def)
qed

lemma clock12_bounds: "1 \<le> clock12 h" "clock12 h \<le> 12"
  by (simp_all add: clock12_def)

lemma parse_time_names:
  assumes "point_round k tp" and "ticks_exact k tk"
  shows "parse_I (CHR ''I'') (before k tp cs (CHR ''I'') r) = parsed k tp (CHR ''I'' # cs) (istream_of r)"
    "parse_X None tk (10 ^ k) (CHR ''X'') (before k tp cs (CHR ''X'') r) =
      parsed k tp (CHR ''X'' # cs) (istream_of r)"
    "parse_p None (CHR ''p'') (before k tp cs (CHR ''p'') r) = parsed k tp (CHR ''p'' # cs) (istream_of r)"
proof -
  have k: "k \<le> 18" using assms(1) by (simp add: point_round_def point_ok_def)
  let ?s = "second_of_day k tp"
  have "0 \<le> ?s div 3600" "?s div 3600 < 24" "0 \<le> ?s div 60 mod 60" "?s div 60 mod 60 < 60"
    using round_bounds(13,14) [OF assms(1)] by (simp_all add: int_div_lt pos_imp_zdiv_nonneg_iff)
  then show "parse_X None tk (10 ^ k) (CHR ''X'') (before k tp cs (CHR ''X'') r) =
      parsed k tp (CHR ''X'' # cs) (istream_of r)"
    by (simp add: before_def parse_X_def parse_clock_def p_read_def check_def conv_end_def parsed_def
      knows_Cons conv_texts read.simps(6) read_seconds_text [OF k] seconds_ticks [OF assms(2)])
  define h where "h = clock12 (?s div 3600)"
  have "1 \<le> h" "h \<le> 12" by (simp_all add: h_def clock12_bounds)
  then show "parse_I (CHR ''I'') (before k tp cs (CHR ''I'') r) = parsed k tp (CHR ''I'' # cs) (istream_of r)"
    by (simp add: before_def parse_I_def p_read_def check_def conv_end_def width_or_def parsed_def
      knows_Cons conv_texts h_def [symmetric] Let_def)
  show "parse_p None (CHR ''p'') (before k tp cs (CHR ''p'') r) = parsed k tp (CHR ''p'' # cs) (istream_of r)"
    using scan_ampm [of "?s div 3600" r]
    by (auto simp: before_def parse_p_def own_ampm_def read_name_def check_def conv_end_def parsed_def
      knows_Cons conv_texts)
qed

section \<open>The loop\<close>

lemma parse_conversion:
  assumes "point_round k tp" and "ticks_exact k tk" and "c \<in> set (round_conversions loc)"
    and "c \<in> set ''abh'' \<Longrightarrow> separated r"
  shows "parse_command loc tk (10 ^ k) c (before k tp cs c r) = parsed k tp (c # cs) (istream_of r)"
proof (cases "c \<in> set round_numbers")
  case True
  then show ?thesis
    unfolding round_numbers_def list.set insert_iff empty_iff
    by (elim disjE FalseE; simp add: parse_command_def parse_week_numbers [OF assms(1)]
      parse_date_numbers [OF assms(1)] parse_weekday_numbers [OF assms(1)]
      parse_time_numbers [OF assms(1,2)] parse_other_texts)
next
  case False
  then have loc: "loc = None" and c: "c \<in> set round_names"
    using assms(3) by (auto simp: round_conversions_def split: if_splits)
  from c assms(4) show ?thesis
    unfolding round_names_def list.set insert_iff empty_iff loc
    by (elim disjE FalseE; simp add: parse_command_def parse_weekday_names parse_month_names [OF assms(1)]
      parse_time_names [OF assms(1,2)])
qed

lemma round_not_digit:
  assumes "c \<in> set (round_conversions loc)"
  shows "\<not> is_digit c \<and> c \<noteq> CHR 0x00 \<and> c \<in> set (conversions loc)"
proof -
  have "list_all (\<lambda>c. \<not> is_digit c \<and> c \<noteq> CHR 0x00 \<and> c \<in> set own_conversions) round_numbers"
    "list_all (\<lambda>c. \<not> is_digit c \<and> c \<noteq> CHR 0x00 \<and> c \<in> set (own_conversions @ name_conversions)) round_names"
    by (simp_all add: round_numbers_def round_names_def own_conversions_def name_conversions_def is_digit_def)
  then show ?thesis
    using assms by (auto simp: round_conversions_def conversions_def list_all_iff split: if_splits)
qed

text \<open>Texts that do not begin with white space.\<close>

definition solid :: "string \<Rightarrow> bool" where
  "solid s \<longleftrightarrow> s \<noteq> [] \<and> \<not> is_space (hd s)"

lemma solid_simps [simp]: "solid (c # s) \<longleftrightarrow> \<not> is_space c" "solid s \<Longrightarrow> solid (s @ t)"
  by (auto simp: solid_def)

lemma is_digit_not_space: "is_digit c \<Longrightarrow> \<not> is_space c"
  by (auto simp: is_digit_def is_space_def)

lemma solid_to_string: "solid (to_string i)"
proof -
  obtain c cs where s: "nat_to_string (nat i) = c # cs" by (cases "nat_to_string (nat i)") auto
  then have "is_digit c" using nat_to_string_digits [of "nat i"] by simp
  then show ?thesis by (auto simp: to_string_def s is_digit_not_space) (simp add: is_space_def)
qed

lemma solid_texts:
  "solid (two i)" "solid (os_right (CHR ''0'') L (to_string i))" "solid (year4 i)" "solid (seconds_text k tp)"
proof -
  have z: "\<not> is_space (CHR ''0'')" by (simp add: is_space_def)
  then show two: "solid (two i)" for i by (simp add: two_def solid_to_string)
  show o: "solid (os_right (CHR ''0'') L (to_string i))" for L i
    using z solid_to_string [of i] by (cases "L - length (to_string i)") (simp_all add: os_right_def)
  have "solid (CHR ''-'' # s)" for s by (simp add: is_space_def)
  then show "solid (year4 i)" by (simp add: year4_def o)
  show "solid (seconds_text k tp)" by (simp add: seconds_text_def two)
qed

lemma solid_names:
  "0 \<le> w \<Longrightarrow> w < 7 \<Longrightarrow> solid (day_name w) \<and> solid (take 3 (day_name w))"
  "1 \<le> m \<Longrightarrow> m \<le> 12 \<Longrightarrow> solid (month_name m) \<and> solid (take 3 (month_name m))"
  "solid (half_of_day h)"
proof -
  have l: "list_all (\<lambda>t. solid t \<and> solid (take 3 t)) weekday_names"
    "list_all (\<lambda>t. solid t \<and> solid (take 3 t)) month_names" "length weekday_names = 14" "length month_names = 24"
    by (simp_all add: weekday_names_def month_names_def is_space_def)
  then show "0 \<le> w \<Longrightarrow> w < 7 \<Longrightarrow> solid (day_name w) \<and> solid (take 3 (day_name w))"
    "1 \<le> m \<Longrightarrow> m \<le> 12 \<Longrightarrow> solid (month_name m) \<and> solid (take 3 (month_name m))"
    by (simp_all add: day_name_def month_name_def list_all_length nat_less_iff)
  show "solid (half_of_day h)" by (simp add: half_of_day_def is_space_def)
qed

lemma conv_text_solid:
  assumes "point_round k tp" and "c \<in> set (round_conversions loc)" and "c \<notin> set ''nt''"
  shows "solid (conv_text k tp c)"
proof -
  have w: "solid (day_name ((day_of k tp + 4) mod 7)) \<and> solid (take 3 (day_name ((day_of k tp + 4) mod 7)))"
    by (intro solid_names(1)) simp_all
  note m = solid_names(2) [OF round_bounds(5,6) [OF assms(1)]]
  have "c \<in> set (round_numbers @ round_names)"
    using assms(2) by (auto simp: round_conversions_def split: if_splits)
  then show ?thesis
    using assms(3) unfolding round_numbers_def round_names_def append.simps list.set insert_iff empty_iff
    by (elim disjE FalseE; simp add: conv_texts solid_texts solid_to_string solid_names(3) w m)
      (simp_all add: is_space_def)
qed

text \<open>
  Patterns that parse what they print: after a white space character, which stands for any amount
  of white space, comes a text that does not begin with white space; after a short name comes a
  character that is no letter or digit.
\<close>

fun starts_solid :: "fmt_piece list \<Rightarrow> bool" where
  "starts_solid [] = False"
| "starts_solid (Plain c # ps) \<longleftrightarrow> \<not> is_space c"
| "starts_solid (Conv c # ps) \<longleftrightarrow> c \<notin> set ''nt''"

fun starts_apart :: "fmt_piece list \<Rightarrow> bool" where
  "starts_apart (Plain c # ps) \<longleftrightarrow> \<not> is_alnum c"
| "starts_apart ps = False"

fun round_ok :: "std_locale \<Rightarrow> fmt_piece list \<Rightarrow> bool" where
  "round_ok loc [] = True"
| "round_ok loc (Plain c # ps) \<longleftrightarrow>
     c \<noteq> CHR ''%'' \<and> c \<noteq> CHR 0x00 \<and> (is_space c \<longrightarrow> starts_solid ps) \<and> round_ok loc ps"
| "round_ok loc (Conv c # ps) \<longleftrightarrow>
     c \<in> set (round_conversions loc) \<and> (c \<in> set ''abh'' \<longrightarrow> starts_apart ps) \<and> round_ok loc ps"

fun convs :: "fmt_piece list \<Rightarrow> string \<Rightarrow> string" where
  "convs [] cs = cs"
| "convs (Plain c # ps) cs = convs ps cs"
| "convs (Conv c # ps) cs = convs ps (c # cs)"

abbreviation printed :: "nat \<Rightarrow> int \<Rightarrow> fmt_piece list \<Rightarrow> string" where
  "printed k tp ps \<equiv> concat (map (piece_text k tp) ps)"

lemma round_ok_pattern: "round_ok loc ps \<Longrightarrow> list_all (pattern_ok (conversions loc)) ps"
  by (induction loc ps rule: round_ok.induct) (auto dest: round_not_digit)

text \<open>All of them print what the reference says: the year is not negative.\<close>

lemma round_ok_pattern_at:
  assumes "point_round k tp" and "round_ok loc ps"
  shows "list_all (pattern_ok (conversions_at loc k tp)) ps"
  using round_ok_pattern [OF assms(2)] assms(1)
  by (simp add: conversions_at_def point_round_def year_of_def)

lemma printed_solid: "point_round k tp \<Longrightarrow> round_ok loc ps \<Longrightarrow> starts_solid ps \<Longrightarrow> solid (printed k tp ps)"
  by (induction loc ps rule: round_ok.induct) (auto simp: conv_text_solid)

lemma printed_separated: "starts_apart ps \<Longrightarrow> separated (printed k tp ps @ r)"
  by (induction ps rule: starts_apart.induct) (auto simp: separated_def)

lemma skip_ws_solid: "solid s \<Longrightarrow> is_space c \<Longrightarrow> skip_ws (istream_of (c # s)) = istream_of s"
  by (cases s) (auto simp: solid_def skip_ws_def istream_of_def setstate_def)

lemma parsed_fields [simp]:
  "p_fail (parsed k tp cs (istream_of s)) = False" "p_command (parsed k tp cs is) = None"
  "p_is (parsed k tp cs is) = is" "p_width (parsed k tp cs is) = - 1" "p_modified (parsed k tp cs is) = None"
  by (simp_all add: p_fail_def parsed_def)

lemma parse_loop_printed:
  assumes "point_round k tp" and "ticks_exact k tk"
  shows "round_ok loc ps \<Longrightarrow> parse_loop loc tk (10 ^ k) (concat (map pattern ps))
      (parsed k tp cs (istream_of (printed k tp ps @ r))) = parsed k tp (convs ps cs) (istream_of r)"
proof (induction ps arbitrary: cs)
  case Nil
  then show ?case by simp
next
  case (Cons p ps)
  show ?case
  proof (cases p)
    case (Plain c)
    have "parse_literal c (parsed k tp cs (istream_of (c # printed k tp ps @ r))) =
        parsed k tp cs (istream_of (printed k tp ps @ r))"
      using Cons.prems Plain printed_solid [OF assms(1), of loc ps]
      by (auto simp: parse_literal_def p_state_def read_one_def skip_ws_solid parsed_def)
    then show ?thesis using Cons Plain by simp
  next
    case (Conv c)
    let ?ps = "parsed k tp cs (istream_of (conv_text k tp c @ printed k tp ps @ r))"
    have "parse_literal (CHR ''%'') ?ps = before k tp cs c (printed k tp ps @ r)"
      by (simp add: parse_literal_def before_def)
    moreover have "p_command (before k tp cs c s) = Some ''%''" "\<not> p_fail (before k tp cs c s)" for s
      by (simp_all add: before_def p_fail_def)
    moreover have "parse_command loc tk (10 ^ k) c (before k tp cs c (printed k tp ps @ r)) =
        parsed k tp (c # cs) (istream_of (printed k tp ps @ r))"
      using Cons.prems Conv by (intro parse_conversion [OF assms]) (auto intro: printed_separated)
    ultimately show ?thesis using Cons Conv round_not_digit [of c loc] by simp
  qed
qed

end
