(* ===== verification/ParseResolve.thy ===== *)
theory ParseResolve
  imports ParseText
begin

text \<open>
  From consistent values back to the point in time: whatever combination of year, month, day, day
  of the year and weeks was parsed, when it determines the date it is the date it came from, and
  none of the checks between them fails.
\<close>

section \<open>Consistent values\<close>

text \<open>Every variable of the date is not set, or has the value of the point in time.\<close>

definition agrees :: "nat \<Rightarrow> int \<Rightarrow> parse_state \<Rightarrow> bool" where
  "agrees k tp ps \<longleftrightarrow>
     p_Y ps \<in> {not_a_year, year_of k tp} \<and> p_m ps \<in> {not_a_month, month_of k tp} \<and>
     p_d ps \<in> {not_a_day, mday_of k tp} \<and> p_j ps \<in> {not_a_doy, yday_of k tp + 1} \<and>
     p_wd ps \<in> {not_a_weekday, (day_of k tp + 4) mod 7} \<and>
     p_U ps \<in> {not_a_week_num, week_of 0 k tp} \<and> p_W ps \<in> {not_a_week_num, week_of 1 k tp} \<and>
     p_V ps \<in> {not_a_week_num, iso_week_of k tp} \<and> p_G ps \<in> {not_a_year, iso_year_of k tp} \<and>
     p_y ps = not_a_2digit_year \<and> p_g ps = not_a_2digit_year"

lemma agrees_parsed: "agrees k tp (parsed k tp cs is)"
  by (simp add: agrees_def parsed_def knows_def)

text \<open>The date of the point in time, by the library's types.\<close>

lemma point_ymd:
  assumes "point_round k tp"
  defines "x \<equiv> from_days (day_of k tp)"
  shows "ymd_year x = year_ctor (year_of k tp)" "ymd_month x = month_ctor (word_of_int (month_of k tp))"
    "ymd_day x = day_ctor (word_of_int (mday_of k tp))"
    "uint (month_rep (ymd_month x)) = month_of k tp" "uint (day_rep (ymd_day x)) = mday_of k tp"
    "year_int (ymd_year x) = year_of k tp" "ymd_ok x" "to_days x = day_of k tp"
proof -
  have ok: "point_ok k tp" using assms by (simp add: point_round_def)
  note d = point_date [OF ok]
  note b = point_bounds [OF assms(1)]
  have i: "ymd_ints x = civil_days (day_of k tp)" using d(6) unfolding d(1) x_def .
  show m: "uint (month_rep (ymd_month x)) = month_of k tp" and dd: "uint (day_rep (ymd_day x)) = mday_of k tp"
    and y: "year_int (ymd_year x) = year_of k tp"
    using i by (simp_all add: ymd_ints_def year_of_def month_of_def mday_of_def flip: i)
  show "ymd_ok x" "to_days x = day_of k tp" using d(5,7) unfolding d(1) x_def by simp_all
  show "ymd_year x = year_ctor (year_of k tp)" using y by (metis year_ctor_int)
  show "ymd_month x = month_ctor (word_of_int (month_of k tp))"
    using b(5,6) by (simp add: month_rep_inject [symmetric] m cal_simps)
  show "ymd_day x = day_ctor (word_of_int (mday_of k tp))"
    using b(7,8) by (simp add: day_rep_inject [symmetric] dd cal_simps)
qed

lemma trial_date:
  assumes "point_round k tp" and "agrees k tp ps"
  defines "t \<equiv> from_days (day_of k tp)"
  shows "trial_year t ps = Some (ps\<lparr>p_Y := year_of k tp\<rparr>)"
    and "trial_month_day t ps = Some (ps\<lparr>p_m := month_of k tp, p_d := mday_of k tp\<rparr>)"
proof -
  note x = point_ymd [OF assms(1), folded t_def]
  have "p_Y ps = not_a_year \<or> p_Y ps = year_of k tp" and m: "p_m ps = not_a_month \<or> p_m ps = month_of k tp"
    and d: "p_d ps = not_a_day \<or> p_d ps = mday_of k tp"
    using assms(2) by (auto simp: agrees_def)
  then show "trial_year t ps = Some (ps\<lparr>p_Y := year_of k tp\<rparr>)"
    unfolding trial_year_def x(6) by (elim disjE; simp add: x(1) [symmetric])
  from m have "trial_month t ps = Some (ps\<lparr>p_m := month_of k tp\<rparr>)"
    unfolding trial_month_def month_unsigned_def by (elim disjE; simp add: x(2) [symmetric] x(4))
  moreover from d have "trial_day t ps' = Some (ps'\<lparr>p_d := mday_of k tp\<rparr>)" if "p_d ps' = p_d ps" for ps'
    using that unfolding trial_day_def day_unsigned_def by (elim disjE; simp add: x(3) [symmetric] x(5))
  ultimately show "trial_month_day t ps = Some (ps\<lparr>p_m := month_of k tp, p_d := mday_of k tp\<rparr>)"
    by (simp add: trial_month_day_def)
qed

section \<open>Dates from weeks\<close>

lemma weekday_of_parsed:
  assumes "0 \<le> p_wd ps" and "p_wd ps < 7" and "uint (wd_rep w) \<le> 6"
  shows "weekday_diff (parsed_weekday ps) w = (p_wd ps - uint (wd_rep w)) mod 7"
proof -
  have u: "uint (word_of_int (p_wd ps) :: u32) = p_wd ps" using assms by (intro uint_u32_of_int) auto
  then have "(word_of_int (p_wd ps) :: u32) \<noteq> 7" using assms(2) by (auto simp: word_uint_eq_iff)
  then show ?thesis
    using assms u by (simp add: parsed_weekday_def weekday_diff_mod weekday_ctor_def uint_u8_of_u32)
qed

lemma point_jan1:
  assumes "point_round k tp"
  shows "day_range (day_of k tp)" "day_range (jan1 (year_of k tp))" "year_int (year_ctor (year_of k tp)) = year_of k tp"
    "jan1 (year_of k tp) \<le> day_of k tp" "year_int (year_ctor (iso_year_of k tp)) = iso_year_of k tp"
proof -
  have ok: "point_ok k tp" using assms by (simp add: point_round_def)
  show "day_range (day_of k tp)" using point_date(2) [OF ok] .
  show "day_range (jan1 (year_of k tp))"
    using jan1_day_range [OF point_date(2,4) [OF ok]] by (simp add: year_of_def)
  show "year_int (year_ctor (year_of k tp)) = year_of k tp"
    "year_int (year_ctor (iso_year_of k tp)) = iso_year_of k tp"
    using point_bounds(1-4) [OF assms] by simp_all
  show "jan1 (year_of k tp) \<le> day_of k tp"
    using year_of_days [of "day_of k tp" "year_of k tp"] by (simp add: year_of_def)
qed

lemma week_trial_date:
  assumes "point_round k tp" and "uint (wd_rep w) \<le> 6"
    and "p_Y ps = year_of k tp" and "p_wd ps = (day_of k tp + 4) mod 7"
  shows "week_trial w (week_of (uint (wd_rep w)) k tp) ps = from_days (day_of k tp)"
proof -
  let ?n = "day_of k tp" and ?k = "uint (wd_rep w) - 4" and ?y = "year_of k tp"
  note j = point_jan1 [OF assms(1)]
  have "ymw_sys_days (ym_slash_wdi (year_slash_month (year_ctor ?y) January) (weekday_index w 1)) =
      first_weekday ?k ?y"
    using first_of_year(2) [of "year_ctor ?y" w] j(2,3) assms(2) by simp
  moreover have "weekday_diff (parsed_weekday ps) w = (?n - ?k) mod 7"
    using weekday_of_parsed [of ps w] assms(2,4) by (simp add: mod_simps algebra_simps)
  moreover have "(?n + 4 - uint (wd_rep w)) mod 7 = (?n - ?k) mod 7" by (simp add: algebra_simps)
  then have "week_of (uint (wd_rep w)) k tp = week_number (?n - jan1 ?y) ((?n - ?k) mod 7)"
    by (simp add: week_of_def yday_of_def)
  ultimately show ?thesis
    using day_from_week(1) [OF first_weekday_facts [where k = ?k and y = ?y], of ?n] assms(3)
    by (simp add: week_trial_def year_month_day_sys_def)
qed

lemma week_agrees_date:
  assumes "point_round k tp" and "uint (wd_rep w) \<le> 6" and "year_int y = year_of k tp"
    and "week \<in> {not_a_week_num, week_of (uint (wd_rep w)) k tp}"
  shows "week_agrees w week (day_of k tp) y"
proof -
  let ?n = "day_of k tp" and ?k = "uint (wd_rep w) - 4" and ?y = "year_of k tp"
  note j = point_jan1 [OF assms(1)]
  have "ymw_sys_days (mw_slash_year (wdi_slash_month (weekday_index w 1) January) y) = first_weekday ?k ?y"
    using first_of_year(1) [of y w] j(2) assms(2,3) by (simp add: ymw_sys_days_def ymw_local_days_def)
  moreover have "(?n + 4 - uint (wd_rep w)) mod 7 = (?n - ?k) mod 7" by (simp add: algebra_simps)
  then have "week_of (uint (wd_rep w)) k tp = (?n - first_weekday ?k ?y) div 7 + 1"
    using day_from_week(2) [OF first_weekday_facts [where k = ?k and y = ?y], of ?n]
    by (simp add: week_of_def yday_of_def)
  ultimately show ?thesis using assms(4) by (auto simp: week_agrees_def duration_floor_div)
qed

lemma iso_trial_date:
  assumes "point_round k tp" and "p_G ps = iso_year_of k tp" and "p_V ps = iso_week_of k tp"
    and "p_wd ps = (day_of k tp + 4) mod 7"
  shows "iso_trial ps = from_days (day_of k tp)"
proof -
  let ?n = "day_of k tp" and ?G = "iso_year_of k tp"
  have ok: "point_ok k tp" using assms(1) by (simp add: point_round_def)
  have y: "year_int (year_ctor ?G) = ?G" using point_jan1(5) [OF assms(1)] .
  have th: "?n - 3 \<le> thursday_of ?n" "thursday_of ?n \<le> ?n + 3"
    by (simp_all add: thursday_of_def)
  then have r: "day_range (jan1 ?G)" "day_range (jan1 ?G - 8)"
    using jan1_range(1,2) [OF point_date(4,3) [OF ok], of "thursday_of ?n" ?G]
    by (simp_all add: iso_year_of_def)
  define F where "F = first_weekday 0 ?G"
  have start: "iso_week_start (year_ctor ?G) = F - 3"
    using iso_week_start_eq [of "year_ctor ?G"] r y point_bounds(3) [OF assms(1)] by (simp add: F_def)
  have "year_minus (year_ctor ?G) 1 = year_ctor (?G - 1)" using y by (simp add: year_minus_def)
  then have "ymwl_sys_days (ym_slash_wdl (year_slash_month (year_ctor (?G - 1)) December)
      (weekday_last_ctor Thursday)) + weekday_diff Monday Thursday = F - 3"
    using start by (simp add: iso_week_start_def ymwl_local_days_def ymwl_sys_days_def)
  moreover note f = first_weekday_facts [where k = 0 and y = ?G, folded F_def]
  have "iso_week_of k tp - 1 = (?n - (F - 3)) div 7"
    using week_count [of "jan1 ?G" F ?n] f by (simp add: iso_week_of_def)
  moreover have "weekday_diff (parsed_weekday ps) Monday = (?n - (F - 3)) mod 7"
  proof -
    have "(?n - (F - 3)) mod 7 = (?n + 3 - F) mod 7" by (simp add: algebra_simps)
    also have "\<dots> = (?n + 3 - F mod 7) mod 7" by (simp only: mod_diff_right_eq)
    also have "\<dots> = (?n + 3) mod 7" using f(3) by simp
    finally show ?thesis
      using weekday_of_parsed [of ps Monday] assms(4)
      by (simp add: Thursday_rep mod_simps add.commute)
  qed
  ultimately show ?thesis
    using assms(2,3) by (simp add: iso_trial_def year_month_day_sys_def)
qed

lemma iso_agrees_date:
  assumes "point_round k tp" and "p_G ps \<in> {not_a_year, iso_year_of k tp}"
    and "p_V ps \<in> {not_a_week_num, iso_week_of k tp}"
  shows "iso_agrees (day_of k tp) ps"
proof -
  let ?n = "day_of k tp"
  have ok: "point_ok k tp" using assms(1) by (simp add: point_round_def)
  note iso = iso_of_point [OF ok]
  define G where "G = ymd_year (year_month_day_sys (?n + 3))"
  have G: "iso_year ?n = (if ?n < iso_week_start G then year_decr G else G)"
    by (simp add: iso_year_def G_def year_month_day_local_def year_month_day_sys_def Let_def)
  have y: "year_int (iso_year ?n) = iso_year_of k tp" using iso(1) by (simp add: iso_year_of_def)
  have "c_div (?n - iso_week_start (iso_year ?n)) 7 + 1 = iso_week_of k tp"
    using iso(2) by (simp add: iso_week_def iso_week_of_def iso_year_of_def)
  then show ?thesis
    using assms(2,3) y unfolding G iso_agrees_def Let_def G_def [symmetric]
    by (cases "?n < iso_week_start G") auto
qed

section \<open>The date\<close>

text \<open>What determines the date.\<close>

definition date_known :: "parse_state \<Rightarrow> bool" where
  "date_known ps \<longleftrightarrow>
     p_G ps \<noteq> not_a_year \<and> p_V ps \<noteq> not_a_week_num \<and> p_wd ps \<noteq> not_a_weekday \<or>
     p_Y ps \<noteq> not_a_year \<and>
       (p_m ps \<noteq> not_a_month \<and> p_d ps \<noteq> not_a_day \<or> p_j ps \<noteq> not_a_doy \<or>
        p_wd ps \<noteq> not_a_weekday \<and> (p_U ps \<noteq> not_a_week_num \<or> p_W ps \<noteq> not_a_week_num))"

definition set_month_day :: "nat \<Rightarrow> int \<Rightarrow> parse_state \<Rightarrow> parse_state" where
  "set_month_day k tp ps = ps\<lparr>p_m := month_of k tp, p_d := mday_of k tp\<rparr>"

lemma agrees_set:
  "agrees k tp ps \<Longrightarrow> agrees k tp (set_month_day k tp ps)"
  "agrees k tp ps \<Longrightarrow> agrees k tp (ps\<lparr>p_Y := year_of k tp\<rparr>)"
  "agrees k tp ps \<Longrightarrow> agrees k tp (ps\<lparr>p_j := not_a_doy\<rparr>)"
  by (simp_all add: agrees_def set_month_day_def)

lemma resolve_years:
  assumes "point_round k tp" and "agrees k tp ps"
  shows "resolve_y ps = Some ps" "resolve_g ps = Some ps" "limit_year ps = ps"
proof -
  show "resolve_y ps = Some ps" "resolve_g ps = Some ps"
    using assms(2) by (simp_all add: agrees_def resolve_y_def resolve_g_def)
  have m: "year_int year_min = - 32767" "year_int year_max = 32767"
    by (simp_all add: year_min_def year_max_def)
  have "p_Y ps = not_a_year \<or> p_Y ps = year_of k tp" using assms(2) by (simp add: agrees_def)
  then show "limit_year ps = ps"
    using point_bounds(1,2) [OF assms(1)] by (elim disjE) (simp_all add: limit_year_def m)
qed

lemma resolve_V_date:
  assumes "point_round k tp" and "agrees k tp ps"
  shows "resolve_V ps =
    Some (if p_G ps \<noteq> not_a_year \<and> p_V ps \<noteq> not_a_week_num \<and> p_wd ps \<noteq> not_a_weekday
      then (set_month_day k tp (ps\<lparr>p_Y := year_of k tp\<rparr>), True) else (ps, False))"
proof (cases "p_G ps \<noteq> not_a_year \<and> p_V ps \<noteq> not_a_week_num \<and> p_wd ps \<noteq> not_a_weekday")
  case True
  then have "iso_trial ps = from_days (day_of k tp)"
    using assms(2) by (intro iso_trial_date [OF assms(1)]) (auto simp: agrees_def)
  then show ?thesis
    using True trial_date(1) [OF assms] trial_date(2) [OF assms(1) agrees_set(2) [OF assms(2)]]
    by (simp add: resolve_V_def set_month_day_def)
qed (auto simp: resolve_V_def)

lemma resolve_week_date:
  assumes "point_round k tp" and "agrees k tp ps" and "uint (wd_rep w) \<le> 6"
    and "week ps \<in> {not_a_week_num, week_of (uint (wd_rep w)) k tp}"
  shows "resolve_week w week (ps, computed) =
    Some (if p_Y ps \<noteq> not_a_year \<and> week ps \<noteq> not_a_week_num \<and> p_wd ps \<noteq> not_a_weekday
      then (set_month_day k tp ps, True) else (ps, computed))"
proof (cases "p_Y ps \<noteq> not_a_year \<and> week ps \<noteq> not_a_week_num \<and> p_wd ps \<noteq> not_a_weekday")
  case True
  then have ps: "p_Y ps = year_of k tp" "p_wd ps = (day_of k tp + 4) mod 7"
    "week ps = week_of (uint (wd_rep w)) k tp"
    using assms(2,4) by (auto simp: agrees_def)
  have "week_trial w (week ps) ps = from_days (day_of k tp)"
    unfolding ps(3) by (rule week_trial_date [OF assms(1,3) ps(1,2)])
  moreover have "year_ctor (p_Y ps) = ymd_year (from_days (day_of k tp))"
    using point_ymd(1) [OF assms(1)] ps(1) by simp
  ultimately show ?thesis
    using True trial_date(2) [OF assms(1,2)] by (simp add: resolve_week_def set_month_day_def Let_def)
qed (auto simp: resolve_week_def)

lemma resolve_j_date:
  assumes "point_round k tp" and "agrees k tp ps"
  shows "resolve_j (ps, computed) =
    Some (if p_j ps \<noteq> not_a_doy \<and> p_Y ps \<noteq> not_a_year
      then ((set_month_day k tp ps)\<lparr>p_j := not_a_doy\<rparr>, computed) else (ps, computed))"
proof (cases "p_j ps \<noteq> not_a_doy \<and> p_Y ps \<noteq> not_a_year")
  case True
  then have ps: "p_Y ps = year_of k tp" "p_j ps = yday_of k tp + 1" using assms(2) by (auto simp: agrees_def)
  have "ymd_local_days (ym_slash_int (year_slash_int (year_ctor (p_Y ps)) 1) 1) = jan1 (year_of k tp)"
    using jan1_days [of "year_ctor (year_of k tp)"] point_jan1(3) [OF assms(1)]
    by (simp add: ymd_local_days_def int_slash_january ps)
  then have "year_month_day_local (ymd_local_days (ym_slash_int (year_slash_int (year_ctor (p_Y ps)) 1) 1)
      + (p_j ps - 1)) = from_days (day_of k tp)"
    by (simp add: year_month_day_local_def ps yday_of_def)
  then show ?thesis
    using True trial_date(2) [OF assms] by (simp add: resolve_j_def set_month_day_def)
qed (auto simp: resolve_j_def)

lemma check_date_date:
  assumes "point_round k tp" and "agrees k tp ps"
    and "p_Y ps = year_of k tp" and "p_m ps = month_of k tp" and "p_d ps = mday_of k tp"
  shows "parsed_ymd ps = from_days (day_of k tp)"
    and "check_date (ps, computed) = Some (ps\<lparr>p_wd := (day_of k tp + 4) mod 7\<rparr>)"
proof -
  let ?n = "day_of k tp"
  note x = point_ymd [OF assms(1)]
  show p: "parsed_ymd ps = from_days ?n"
    by (simp add: parsed_ymd_def assms(3-5) ym_slash_int_def ym_slash_day_def year_slash_int_def
      year_slash_month_def year_month_ctor_def year_month_day_ctor_def x(1-3) [symmetric])
  have sd: "ymd_sys_days (from_days ?n) = ?n" using x(8) by (simp add: ymd_sys_days_def)
  have wd: "weekday_diff (weekday_sys ?n) Sunday = (?n + 4) mod 7"
    using weekday_sys_mod [OF point_jan1(1) [OF assms(1)]] by (simp add: weekday_diff_mod Thursday_rep)
  have "p_wd ps = not_a_weekday \<or> p_wd ps = (?n + 4) mod 7" using assms(2) by (auto simp: agrees_def)
  moreover have "iso_agrees ?n ps" using assms(2) by (intro iso_agrees_date [OF assms(1)]) (auto simp: agrees_def)
  moreover have "week_agrees Sunday (p_U ps) ?n (ymd_year (from_days ?n))"
    "week_agrees Monday (p_W ps) ?n (ymd_year (from_days ?n))"
    using assms(2) x(6) by (intro week_agrees_date [OF assms(1)]; auto simp: agrees_def Thursday_rep)+
  ultimately show "check_date (ps, computed) = Some (ps\<lparr>p_wd := (?n + 4) mod 7\<rparr>)"
    by (auto simp: check_date_def Let_def p x(7) sd wd)
qed

lemma set_month_day_fields [simp]:
  "p_Y (set_month_day k tp ps) = p_Y ps" "p_m (set_month_day k tp ps) = month_of k tp"
  "p_d (set_month_day k tp ps) = mday_of k tp" "p_j (set_month_day k tp ps) = p_j ps"
  "p_wd (set_month_day k tp ps) = p_wd ps" "p_U (set_month_day k tp ps) = p_U ps"
  "p_W (set_month_day k tp ps) = p_W ps" "set_month_day k tp (set_month_day k tp ps) = set_month_day k tp ps"
  by (simp_all add: set_month_day_def)

text \<open>The date: from the month and the day, from the day of the year, or from a week.\<close>

definition resolve_day :: "parse_state \<times> bool \<Rightarrow> parse_state option" where
  "resolve_day r = Option.bind (resolve_week Sunday p_U r) (\<lambda>r.
     Option.bind (resolve_week Monday p_W r) (\<lambda>r. Option.bind (resolve_j r) check_date))"

lemma resolve_weeks_date:
  assumes "point_round k tp" and "agrees k tp ps" and "p_Y ps = year_of k tp"
  shows "resolve_week Sunday p_U (ps, c) =
      Some (if p_U ps \<noteq> not_a_week_num \<and> p_wd ps \<noteq> not_a_weekday then (set_month_day k tp ps, True) else (ps, c))"
    and "resolve_week Monday p_W (ps, c) =
      Some (if p_W ps \<noteq> not_a_week_num \<and> p_wd ps \<noteq> not_a_weekday then (set_month_day k tp ps, True) else (ps, c))"
proof -
  have y: "year_of k tp \<noteq> not_a_year" using point_bounds(1) [OF assms(1)] by (simp add: not_a_year_def)
  show "resolve_week Sunday p_U (ps, c) =
      Some (if p_U ps \<noteq> not_a_week_num \<and> p_wd ps \<noteq> not_a_weekday then (set_month_day k tp ps, True) else (ps, c))"
    by (subst resolve_week_date [OF assms(1,2), where week = p_U])
      (use assms y in \<open>auto simp: agrees_def Thursday_rep\<close>)
  show "resolve_week Monday p_W (ps, c) =
      Some (if p_W ps \<noteq> not_a_week_num \<and> p_wd ps \<noteq> not_a_weekday then (set_month_day k tp ps, True) else (ps, c))"
    by (subst resolve_week_date [OF assms(1,2), where week = p_W])
      (use assms y in \<open>auto simp: agrees_def Thursday_rep\<close>)
qed

lemma resolve_day_date:
  assumes "point_round k tp" and "agrees k tp ps" and "p_Y ps = year_of k tp"
    and "p_m ps \<noteq> not_a_month \<and> p_d ps \<noteq> not_a_day \<or> p_j ps \<noteq> not_a_doy \<or>
      p_wd ps \<noteq> not_a_weekday \<and> (p_U ps \<noteq> not_a_week_num \<or> p_W ps \<noteq> not_a_week_num)"
  shows "resolve_day (ps, c) =
    Some ((set_month_day k tp ps)\<lparr>p_j := not_a_doy, p_wd := (day_of k tp + 4) mod 7\<rparr>)"
proof -
  let ?md = "set_month_day k tp ps"
  have y: "year_of k tp \<noteq> not_a_year" using point_bounds(1) [OF assms(1)] by (simp add: not_a_year_def)
  note a = assms(2) agrees_set(1) [OF assms(2)]
  have md: "p_m ps \<noteq> not_a_month \<Longrightarrow> p_d ps \<noteq> not_a_day \<Longrightarrow> ?md = ps"
    using assms(2) by (auto simp: agrees_def set_month_day_def)
  have keep: "p_j x = not_a_doy \<Longrightarrow> x\<lparr>p_j := not_a_doy\<rparr> = x" for x :: parse_state by simp
  have check: "check_date (?md, c') = Some (?md\<lparr>p_wd := (day_of k tp + 4) mod 7\<rparr>)"
    "check_date (?md\<lparr>p_j := not_a_doy\<rparr>, c') = Some (?md\<lparr>p_j := not_a_doy, p_wd := (day_of k tp + 4) mod 7\<rparr>)" for c'
    using assms(3) check_date_date(2) [OF assms(1) a(2), of c']
      check_date_date(2) [OF assms(1) agrees_set(3) [OF a(2)], of c'] by simp_all
  have day: "Option.bind (resolve_j (?md, c')) check_date =
      Some (?md\<lparr>p_j := not_a_doy, p_wd := (day_of k tp + 4) mod 7\<rparr>)" for c'
    using check [of c'] keep [of ?md] by (auto simp: resolve_j_date [OF assms(1) a(2)] assms(3) y)
  have last: "Option.bind (resolve_j (ps, c)) check_date =
      Some (?md\<lparr>p_j := not_a_doy, p_wd := (day_of k tp + 4) mod 7\<rparr>)"
    if "p_m ps \<noteq> not_a_month \<and> p_d ps \<noteq> not_a_day \<or> p_j ps \<noteq> not_a_doy"
    using check [of c] keep [of ?md] md that by (auto simp: resolve_j_date [OF assms(1,2)] assms(3) y)
  show ?thesis
    using assms(4) day last
    by (auto simp: resolve_day_def resolve_weeks_date [OF assms(1-3)]
      resolve_weeks_date [OF assms(1) a(2)] assms(3))
qed

lemma resolve_date_date:
  assumes "point_round k tp" and "agrees k tp ps" and "date_known ps"
  shows "resolve_date ps = Some ((set_month_day k tp (ps\<lparr>p_Y := year_of k tp\<rparr>))
    \<lparr>p_j := not_a_doy, p_wd := (day_of k tp + 4) mod 7\<rparr>)"
proof -
  have r: "resolve_date ps = Option.bind (resolve_V ps) resolve_day"
    by (simp add: resolve_date_def resolve_day_def [abs_def] resolve_years [OF assms(1,2)])
  note a = agrees_set(1) [OF agrees_set(2) [OF assms(2)]]
  have na: "month_of k tp \<noteq> not_a_month" "mday_of k tp \<noteq> not_a_day"
    using point_bounds(5,7) [OF assms(1)] by (simp_all add: not_a_month_def not_a_day_def)
  show ?thesis
  proof (cases "p_G ps \<noteq> not_a_year \<and> p_V ps \<noteq> not_a_week_num \<and> p_wd ps \<noteq> not_a_weekday")
    case True
    then show ?thesis
      using resolve_day_date [OF assms(1) a, of True] na
      by (simp add: r resolve_V_date [OF assms(1,2)])
  next
    case False
    then have Y: "p_Y ps = year_of k tp" using assms(2,3) by (auto simp: date_known_def agrees_def)
    have "resolve_day (ps, False) =
        Some ((set_month_day k tp ps)\<lparr>p_j := not_a_doy, p_wd := (day_of k tp + 4) mod 7\<rparr>)"
      using False assms(3) by (intro resolve_day_date [OF assms(1,2) Y]) (auto simp: date_known_def)
    then show ?thesis
      using False by (auto simp: r resolve_V_date [OF assms(1,2)] Y [symmetric])
  qed
qed

end
