(* ===== verification/ParseRound.thy ===== *)
theory ParseRound
  imports ParseResolve
begin

text \<open>
  The whole way back: the fields of the value from the variables of \<open>from_stream\<close>, and the point
  in time that \<open>from_stream\<close> stores for the text a pattern has printed.
\<close>

section \<open>The time of day\<close>

lemma hh_mm_ss_parts:
  assumes "0 < den" and "0 \<le> h" and "0 \<le> m" and "m < 60" and "0 \<le> x" and "x < 60 * den"
  shows "(hh_mm_ss_ctor den (h * (3600 * den)))\<lparr>tod_m := m, tod_s := dfs_ctor den x\<rparr> =
    hh_mm_ss_ctor den (h * (3600 * den) + m * (60 * den) + x)"
proof -
  let ?v = "h * (3600 * den) + m * (60 * den) + x"
  have m: "m * (60 * den) + x < 3600 * den"
  proof -
    have "m * (60 * den) \<le> 59 * (60 * den)" using assms by (intro mult_right_mono) simp_all
    then show ?thesis using assms(6) by linarith
  qed
  have nonneg: "0 \<le> m * (60 * den)" "0 \<le> h * (3600 * den)" using assms by simp_all
  then have "\<not> h * (3600 * den) < 0" "\<not> ?v < 0" using assms(5) by linarith+
  note neg = this
  have "?v div (3600 * den) = h"
    using m nonneg assms by (intro int_div_pos_eq [of _ _ _ "m * (60 * den) + x"]) (simp_all add: algebra_simps)
  moreover have "?v div (60 * den) = h * 60 + m"
    using assms by (intro int_div_pos_eq [of _ _ _ x]) (simp_all add: algebra_simps)
  ultimately show ?thesis
    using assms nonneg by (simp add: hh_mm_ss_ctor_def duration_abs_def c_div_nonneg Let_def neg del: mult_less_0_iff)
qed

text \<open>What the variables say of the time of day: zero for those that are not set.\<close>

definition time_shown :: "int \<Rightarrow> parse_state \<Rightarrow> int" where
  "time_shown den ps =
     (if p_H ps = not_a_hour then 0 else p_H ps) * (3600 * den) +
     (if p_M ps = not_a_minute then 0 else p_M ps) * (60 * den) +
     (if p_s ps = not_a_second then 0 else p_s ps)"

definition time_agrees :: "int \<Rightarrow> parse_state \<Rightarrow> bool" where
  "time_agrees den ps \<longleftrightarrow> (p_H ps = not_a_hour \<or> 0 \<le> p_H ps \<and> p_H ps < 24) \<and>
     (p_M ps = not_a_minute \<or> 0 \<le> p_M ps \<and> p_M ps < 60) \<and>
     (p_s ps = not_a_second \<or> 0 \<le> p_s ps \<and> p_s ps < 60 * den)"

lemma hh_mm_ss_hours:
  assumes "0 < den" and "0 \<le> h"
  shows "tod_m (hh_mm_ss_ctor den (h * (3600 * den))) = 0"
    "tod_s (hh_mm_ss_ctor den (h * (3600 * den))) = dfs_ctor den 0"
  using assms by (simp_all add: hh_mm_ss_ctor_def duration_abs_def c_div_nonneg Let_def)

lemma set_fields_time:
  assumes "0 < den" and "time_agrees den ps" and "p_j ps = not_a_doy"
    and "f_has_tod fds" and "f_tod fds = hh_mm_ss_ctor den 0"
  shows "f_tod (set_fields den ps fds) = hh_mm_ss_ctor den (time_shown den ps)"
    and "f_ymd (set_fields den ps fds) = f_ymd fds"
proof -
  let ?h = "if p_H ps = not_a_hour then 0 else p_H ps"
  let ?m = "if p_M ps = not_a_minute then 0 else p_M ps"
  let ?x = "if p_s ps = not_a_second then 0 else p_s ps"
  let ?t = "hh_mm_ss_ctor den (?h * (3600 * den))"
  have h: "0 \<le> ?h" using assms(2) by (auto simp: time_agrees_def)
  have "f_tod (set_fields den ps fds) = ?t\<lparr>tod_m := ?m, tod_s := dfs_ctor den ?x\<rparr>"
    using hh_mm_ss_hours [OF assms(1) h] hh_mm_ss_hours [OF assms(1), of 0] assms(3,5)
    by (intro hh_mm_ss.equality) (auto simp: set_fields_def Let_def split: if_splits)
  also have "\<dots> = hh_mm_ss_ctor den (time_shown den ps)"
    unfolding time_shown_def using assms(1,2) by (intro hh_mm_ss_parts) (auto simp: time_agrees_def)
  finally show "f_tod (set_fields den ps fds) = hh_mm_ss_ctor den (time_shown den ps)" .
  show "f_ymd (set_fields den ps fds) = f_ymd fds" using assms(3) by (simp add: set_fields_def Let_def)
qed

text \<open>The hour of the twelve-hour clock with its half of the day.\<close>

definition with_half :: "nat \<Rightarrow> int \<Rightarrow> parse_state \<Rightarrow> parse_state" where
  "with_half k tp ps = (if p_I ps = not_a_hour_12_value then ps
     else ps\<lparr>p_H := second_of_day k tp div 3600, p_I := second_of_day k tp div 3600\<rparr>)"

lemma resolve_I_half:
  fixes k :: nat and tp :: int
  defines "h \<equiv> second_of_day k tp div 3600"
  assumes "0 \<le> h" and "h < 24" and "p_I ps \<in> {not_a_hour_12_value, clock12 h}" and "p_H ps \<in> {not_a_hour, h}"
    and "p_I ps \<noteq> not_a_hour_12_value \<Longrightarrow> p_p ps = (if h < 12 then 0 else 1)"
  shows "resolve_I ps = Some (with_half k tp ps)"
proof (cases "p_I ps = not_a_hour_12_value")
  case True
  then show ?thesis by (simp add: resolve_I_def with_half_def)
next
  case False
  let ?p = "if h < 12 then 0 else 1 :: int"
  have i: "p_I ps = clock12 h" "p_p ps = ?p" using False assms(4,6) by auto
  have "clock12 h + (if clock12 h = 12 then ?p - 1 else ?p) * 12 = h"
  proof (cases "h = 0 \<or> h = 12")
    case True
    then show ?thesis by (auto simp: clock12_def)
  next
    case False
    then have "clock12 h = (if h < 12 then h else h - 12)"
      using assms(2,3) unfolding clock12_def by presburger
    then show ?thesis using False assms(2,3) by auto
  qed
  then have e: "p_I ps + (if p_I ps = 12 then p_p ps - 1 else p_p ps) * 12 = h" unfolding i .
  have bounds: "1 \<le> p_I ps" "p_I ps \<le> 12" "p_p ps \<noteq> not_a_ampm" "h \<noteq> not_a_hour"
    using clock12_bounds [of h] assms(2) by (simp_all add: i not_a_ampm_def not_a_hour_def)
  have "resolve_I ps = (if p_H ps = not_a_hour then Some (ps\<lparr>p_H := h, p_I := h\<rparr>)
      else if h \<noteq> p_H ps then None else Some (ps\<lparr>p_I := h\<rparr>))"
    using False bounds by (simp add: resolve_I_def Let_def e)
  moreover have "ps\<lparr>p_I := h\<rparr> = ps\<lparr>p_H := h, p_I := h\<rparr>" if "p_H ps = h" using that by simp
  ultimately show ?thesis using False assms(5) by (auto simp: with_half_def h_def [symmetric])
qed

section \<open>What a pattern shows\<close>

definition has :: "string \<Rightarrow> string \<Rightarrow> bool" where
  "has cs own \<longleftrightarrow> list_ex (\<lambda>c. c \<in> set own) cs"

text \<open>The conversions among \<open>cs\<close> that determine the date, and the time of day they show.\<close>

definition shows_date :: "string \<Rightarrow> bool" where
  "shows_date cs \<longleftrightarrow> has cs ''G'' \<and> has cs ''V'' \<and> has cs ''uwaA'' \<or>
     has cs ''YF'' \<and> (has cs ''mFbBh'' \<and> has cs ''dF'' \<or> has cs ''j'' \<or> has cs ''uwaA'' \<and> has cs ''UW'')"

text \<open>The hour of the twelve-hour clock comes with the half of the day.\<close>

definition shows_half :: "string \<Rightarrow> bool" where
  "shows_half cs \<longleftrightarrow> (has cs ''I'' \<longrightarrow> has cs ''p'')"

definition shown :: "nat \<Rightarrow> int \<Rightarrow> string \<Rightarrow> int" where
  "shown k tp cs = day_of k tp * (86400 * 10 ^ k) +
     (if has cs ''HRTXI'' then second_of_day k tp div 3600 * (3600 * 10 ^ k) else 0) +
     (if has cs ''MRTX'' then second_of_day k tp div 60 mod 60 * (60 * 10 ^ k) else 0) +
     (if has cs ''STX'' then tp mod (60 * 10 ^ k) else 0)"

lemma shown_all:
  assumes "has cs ''HRTXI''" and "has cs ''MRTX''" and "has cs ''STX''"
  shows "shown k tp cs = tp"
proof -
  define D :: int where "D = 10 ^ k"
  have D: "0 < D" by (simp add: D_def)
  define s where "s = second_of_day k tp"
  have day: "day_of k tp = tp div (D * 86400)" and sec: "s = tp mod (D * 86400) div D"
    by (simp_all add: day_of_def s_def second_of_day_def D_def mult.commute)
  have r: "tp mod (D * 86400) = D * s + tp mod D"
    using zmod_zmult2_eq [of 86400 tp D] sec D by simp
  then have m: "tp mod (60 * D) = D * (s mod 60) + tp mod D"
  proof -
    have "tp mod (D * 86400) mod (D * 60) = tp mod (D * 60)" by (intro mod_mod_cancel) simp
    then have "tp mod (D * 60) = (D * s + tp mod D) mod (D * 60)" using r by simp
    also have "\<dots> = D * (s mod 60) + tp mod D"
      using zmod_zmult2_eq [of 60 "D * s + tp mod D" D] D by simp
    finally show ?thesis by (simp add: mult.commute)
  qed
  have "s div 3600 = s div 60 div 60" by (simp add: zdiv_zmult2_eq [symmetric])
  then have s: "s = s div 3600 * 3600 + s div 60 mod 60 * 60 + s mod 60"
    using div_mult_mod_eq [of s 60] div_mult_mod_eq [of "s div 60" 60] by linarith
  have "D * s = s div 3600 * (3600 * D) + s div 60 mod 60 * (60 * D) + D * (s mod 60)"
    by (subst s) (simp only: distrib_left ac_simps)
  moreover have "tp = day_of k tp * (86400 * D) + tp mod (D * 86400)"
    using div_mult_mod_eq [of tp "D * 86400"] by (simp add: day mult.commute)
  ultimately show ?thesis
    using assms m r by (simp add: shown_def D_def [symmetric] s_def [symmetric])
qed

lemma knows_has: "knows cs own v na = (if has cs own then v else na)"
  by (simp add: knows_def has_def)

lemma parsed_date_known:
  assumes "point_round k tp" and "shows_date cs"
  shows "date_known (parsed k tp cs is)"
proof -
  have "year_of k tp \<noteq> not_a_year" "iso_year_of k tp \<noteq> not_a_year" "iso_week_of k tp \<noteq> not_a_week_num"
    "week_of w k tp \<noteq> not_a_week_num" "month_of k tp \<noteq> not_a_month" "mday_of k tp \<noteq> not_a_day"
    "yday_of k tp + 1 \<noteq> not_a_doy" for w
    using point_bounds(1-13) [OF assms(1)] point_bounds(14) [OF assms(1), of w]
    by (simp_all add: not_a_year_def not_a_week_num_def not_a_month_def not_a_day_def not_a_doy_def)
  moreover have "(day_of k tp + 4) mod 7 < 7" by simp
  then have "(day_of k tp + 4) mod 7 \<noteq> not_a_weekday" by (simp add: not_a_weekday_def)
  ultimately have k: "p_G (parsed k tp cs is) \<noteq> not_a_year \<longleftrightarrow> has cs ''G''"
    "p_V (parsed k tp cs is) \<noteq> not_a_week_num \<longleftrightarrow> has cs ''V''"
    "p_wd (parsed k tp cs is) \<noteq> not_a_weekday \<longleftrightarrow> has cs ''uwaA''"
    "p_Y (parsed k tp cs is) \<noteq> not_a_year \<longleftrightarrow> has cs ''YF''"
    "p_m (parsed k tp cs is) \<noteq> not_a_month \<longleftrightarrow> has cs ''mFbBh''"
    "p_d (parsed k tp cs is) \<noteq> not_a_day \<longleftrightarrow> has cs ''dF''"
    "p_j (parsed k tp cs is) \<noteq> not_a_doy \<longleftrightarrow> has cs ''j''"
    "p_U (parsed k tp cs is) \<noteq> not_a_week_num \<longleftrightarrow> has cs ''U''"
    "p_W (parsed k tp cs is) \<noteq> not_a_week_num \<longleftrightarrow> has cs ''W''"
    by (simp_all add: parsed_def knows_has)
  have "has cs ''UW'' \<longleftrightarrow> has cs ''U'' \<or> has cs ''W''" by (auto simp: has_def list_ex_iff)
  then show ?thesis using assms(2) unfolding date_known_def k shows_date_def by blast
qed

lemma parsed_half:
  assumes "point_round k tp"
  shows "shows_half cs \<Longrightarrow> p_I ps = p_I (parsed k tp cs is) \<Longrightarrow> p_p ps = p_p (parsed k tp cs is) \<Longrightarrow>
      p_H ps = p_H (parsed k tp cs is) \<Longrightarrow> resolve_I ps = Some (with_half k tp ps)"
    and "p_H (with_half k tp (parsed k tp cs is)) =
      (if has cs ''HRTXI'' then second_of_day k tp div 3600 else not_a_hour)"
proof -
  let ?s = "second_of_day k tp"
  have h: "0 \<le> ?s div 3600" "?s div 3600 < 24"
    using round_bounds(13,14) [OF assms] by (simp_all add: int_div_lt pos_imp_zdiv_nonneg_iff)
  have "clock12 (?s div 3600) \<noteq> not_a_hour_12_value"
    using clock12_bounds(1) [of "?s div 3600"] by (simp add: not_a_hour_12_value_def)
  note i = this
  show "resolve_I ps = Some (with_half k tp ps)"
    if "shows_half cs" "p_I ps = p_I (parsed k tp cs is)" "p_p ps = p_p (parsed k tp cs is)"
      "p_H ps = p_H (parsed k tp cs is)"
    using that h by (intro resolve_I_half) (auto simp: parsed_def knows_has shows_half_def)
  have "has cs ''HRTXI'' \<longleftrightarrow> has cs ''HRTX'' \<or> has cs ''I''" by (auto simp: has_def list_ex_iff)
  then show "p_H (with_half k tp (parsed k tp cs is)) = (if has cs ''HRTXI'' then ?s div 3600 else not_a_hour)"
    using i by (simp add: with_half_def parsed_def knows_has)
qed

lemma parsed_time:
  fixes cs :: string and "is" :: istream
  assumes "point_round k tp"
  defines "ps \<equiv> with_half k tp (parsed k tp cs is)"
  shows "time_agrees (10 ^ k) ps"
    and "time_shown (10 ^ k) ps = shown k tp cs - day_of k tp * (86400 * 10 ^ k)"
proof -
  let ?s = "second_of_day k tp"
  have b: "0 \<le> ?s div 3600" "?s div 3600 < 24" "0 \<le> ?s div 60 mod 60" "?s div 60 mod 60 < 60"
    "0 \<le> tp mod (60 * 10 ^ k)" "tp mod (60 * 10 ^ k) < 60 * 10 ^ k"
    using round_bounds(13,14) [OF assms(1)] by (simp_all add: int_div_lt pos_imp_zdiv_nonneg_iff)
  have f: "p_H ps = (if has cs ''HRTXI'' then ?s div 3600 else not_a_hour)"
    "p_M ps = (if has cs ''MRTX'' then ?s div 60 mod 60 else not_a_minute)"
    "p_s ps = (if has cs ''STX'' then tp mod (60 * 10 ^ k) else not_a_second)"
    using parsed_half(2) [OF assms(1)] by (simp_all add: ps_def) (simp_all add: with_half_def parsed_def knows_has)
  show "time_agrees (10 ^ k) ps"
    using b by (simp add: time_agrees_def f)
  show "time_shown (10 ^ k) ps = shown k tp cs - day_of k tp * (86400 * 10 ^ k)"
  proof -
    have neg: "not_a_hour < 0" "not_a_minute < 0" "not_a_second < 0"
      by (simp_all add: not_a_hour_def not_a_minute_def not_a_second_def)
    have "?s div 3600 \<noteq> not_a_hour" "?s div 60 mod 60 \<noteq> not_a_minute" "tp mod (60 * 10 ^ k) \<noteq> not_a_second"
      using b neg by linarith+
    then show ?thesis by (simp add: time_shown_def shown_def f)
  qed
qed

section \<open>Parsing what was printed\<close>

lemma duration_round_1 [simp]: "duration_round 1 d = d"
  by (simp add: duration_round_def duration_floor_div Let_def)

lemma resolve_parsed:
  fixes r :: string and cs :: string
  assumes "point_round k tp" and "shows_date cs" and "shows_half cs" and "f_has_tod fds"
    and "f_tod fds = hh_mm_ss_ctor (10 ^ k) 0"
  defines "res \<equiv> resolve (10 ^ k) (parsed k tp cs (istream_of r)) fds"
  shows "r_is res = istream_of r" and "f_ymd (r_fields res) = from_days (day_of k tp)"
    and "f_tod (r_fields res) = hh_mm_ss_ctor (10 ^ k) (shown k tp cs - day_of k tp * (86400 * 10 ^ k))"
    and "r_offset res \<in> {None, Some 0}"
proof -
  let ?ps = "parsed k tp cs (istream_of r)"
  let ?ps' = "(set_month_day k tp (?ps\<lparr>p_Y := year_of k tp\<rparr>))
    \<lparr>p_j := not_a_doy, p_wd := (day_of k tp + 4) mod 7\<rparr>"
  have d: "resolve_date ?ps = Some ?ps'"
    using resolve_date_date [OF assms(1) agrees_parsed parsed_date_known [OF assms(1,2)]] .
  have "agrees k tp ?ps'" using agrees_parsed [of k tp cs] by (simp add: agrees_def set_month_day_def)
  then have y: "parsed_ymd ?ps' = from_days (day_of k tp)"
    by (intro check_date_date(1) [OF assms(1)]) simp_all
  let ?q = "with_half k tp ?ps" and ?q' = "with_half k tp ?ps'"
  have f: "p_H ?q' = p_H ?q" "p_M ?q' = p_M ?q" "p_s ?q' = p_s ?q" "p_j ?q' = not_a_doy"
    by (simp_all add: with_half_def set_month_day_def)
  then have t: "time_agrees (10 ^ k) ?q'" "time_shown (10 ^ k) ?q' = time_shown (10 ^ k) ?q"
    using parsed_time(1) [OF assms(1)] by (simp_all add: time_agrees_def time_shown_def)
  have i: "resolve_I ?ps' = Some ?q'"
    by (intro parsed_half(1) [OF assms(1,3), of _ "istream_of r"]) (simp_all add: set_month_day_def)
  have o: "p_offset ?q' \<in> {0, not_a_offset}"
    by (simp add: with_half_def set_month_day_def parsed_def knows_def)
  let ?f = "set_fields (10 ^ k) ?q' (fds\<lparr>f_ymd := parsed_ymd ?ps'\<rparr>)"
  have res: "res = \<lparr>r_is = istream_of r, r_fields = ?f, r_abbrev = Some (p_abbrev ?q'),
      r_offset = (if p_offset ?q' \<noteq> not_a_offset then Some (p_offset ?q') else None)\<rparr>"
    by (simp add: res_def resolve_def d i Let_def)
  have "f_tod ?f = hh_mm_ss_ctor (10 ^ k) (time_shown (10 ^ k) ?q')" "f_ymd ?f = from_days (day_of k tp)"
    using set_fields_time [of "10 ^ k" ?q' "fds\<lparr>f_ymd := parsed_ymd ?ps'\<rparr>"] t(1) f(4) assms(4,5) y by simp_all
  then show "r_is res = istream_of r" "f_ymd (r_fields res) = from_days (day_of k tp)"
    "f_tod (r_fields res) = hh_mm_ss_ctor (10 ^ k) (shown k tp cs - day_of k tp * (86400 * 10 ^ k))"
    "r_offset res \<in> {None, Some 0}"
    using o parsed_time(2) [OF assms(1)] t(2) by (auto simp: res)
qed

lemma shown_range:
  fixes cs :: string
  assumes "point_round k tp"
  defines "v \<equiv> shown k tp cs - day_of k tp * (86400 * 10 ^ k)"
  shows "0 \<le> v" and "v < 86400 * 10 ^ k"
proof -
  let ?s = "second_of_day k tp" and ?D = "10 ^ k :: int"
  have "0 \<le> ?s div 3600" "?s div 3600 \<le> 23" "0 \<le> ?s div 60 mod 60" "?s div 60 mod 60 \<le> 59"
    using round_bounds(13,14) [OF assms(1)] int_div_lt [of 3600 ?s 24]
    by (simp_all add: pos_imp_zdiv_nonneg_iff)
  then have h: "0 \<le> ?s div 3600 * (3600 * ?D)" "?s div 3600 * (3600 * ?D) \<le> 23 * (3600 * ?D)"
    and m: "0 \<le> ?s div 60 mod 60 * (60 * ?D)" "?s div 60 mod 60 * (60 * ?D) \<le> 59 * (60 * ?D)"
    by (auto intro: mult_right_mono)
  have s: "0 \<le> tp mod (60 * ?D)" "tp mod (60 * ?D) < 60 * ?D" and D: "0 < ?D" by simp_all
  define H where "H = (if has cs ''HRTXI'' then ?s div 3600 * (3600 * ?D) else 0)"
  define M where "M = (if has cs ''MRTX'' then ?s div 60 mod 60 * (60 * ?D) else 0)"
  define S where "S = (if has cs ''STX'' then tp mod (60 * ?D) else 0)"
  have if_bounds: "0 \<le> (if b then x else 0) \<and> (if b then x else 0) \<le> y" if "0 \<le> x" "x \<le> y" for b and x y :: int
    using that by simp
  have "0 \<le> H" "H \<le> 23 * (3600 * ?D)" using if_bounds [OF h] by (simp_all only: H_def)
  moreover have "0 \<le> M" "M \<le> 59 * (60 * ?D)" using if_bounds [OF m] by (simp_all only: M_def)
  moreover have "0 \<le> S" "S < 60 * ?D" using s D by (auto simp: S_def)
  moreover have "v = H + M + S" by (simp add: v_def shown_def H_def M_def S_def)
  ultimately show "0 \<le> v" "v < 86400 * 10 ^ k" using D by linarith+
qed

lemma in_range_ctor:
  assumes "k \<le> 18" and "0 \<le> v" and "v < 86400 * 10 ^ k"
  shows "in_conventional_range (10 ^ k) (hh_mm_ss_ctor (10 ^ k) v)"
  using assms int_div_lt [of "3600 * 10 ^ k" v 24]
  by (simp add: in_conventional_range_def dfs_in_conventional_range_def hh_mm_ss_fields dfs_pow10)

lemma parse_printed:
  assumes "point_round k tp" and "ticks_exact k tk" and "round_ok loc ps"
    and "shows_date (convs ps [])" and "shows_half (convs ps [])"
  shows "fst (sys_time_from_stream loc tk (10 ^ k) 1 0 (concat (map pattern ps))
      (istream_of (printed k tp ps @ r))) = Some (shown k tp (convs ps []))"
    and "r_is (snd (sys_time_from_stream loc tk (10 ^ k) 1 0 (concat (map pattern ps))
      (istream_of (printed k tp ps @ r)))) = istream_of r"
proof -
  let ?fds = "(fields_default (10 ^ k))\<lparr>f_has_tod := True\<rparr>"
  let ?res = "resolve (10 ^ k) (parsed k tp (convs ps []) (istream_of r)) ?fds"
  have k: "k \<le> 18" using assms(1) by (simp add: point_round_def point_ok_def)
  have "from_stream loc tk (10 ^ k) (concat (map pattern ps)) ?fds (istream_of (printed k tp ps @ r)) = ?res"
    using parse_loop_printed [OF assms(1-3), of "[]" r, folded parse_init_parsed]
    by (simp add: from_stream_def parse_rest_def)
  moreover have "f_has_tod ?fds" "f_tod ?fds = hh_mm_ss_ctor (10 ^ k) 0" by (simp_all add: fields_default_def)
  note f = resolve_parsed [OF assms(1,4,5) this, of r]
  moreover note in_range_ctor [OF k shown_range [OF assms(1)], of "convs ps []"]
  moreover note point_ymd(7,8) [OF assms(1)]
  ultimately show "fst (sys_time_from_stream loc tk (10 ^ k) 1 0 (concat (map pattern ps))
      (istream_of (printed k tp ps @ r))) = Some (shown k tp (convs ps []))"
    "r_is (snd (sys_time_from_stream loc tk (10 ^ k) 1 0 (concat (map pattern ps))
      (istream_of (printed k tp ps @ r)))) = istream_of r"
    by (auto simp: sys_time_from_stream_def parse_value_def ymd_sys_days_def hh_mm_ss_to_duration [OF k])
qed

end
