(* ===== verification/ParseCheck.thy ===== *)
theory ParseCheck
  imports ParseFields IsoWeek
begin

text \<open>
  What a date that was parsed satisfies, whatever the pattern, the stream and the facet: it is
  valid, its weekday is stored with it, and it has the year, month, day and weekday that were
  parsed.
\<close>

section \<open>Values that were parsed are kept\<close>

text \<open>The year is left out when it does not fit into a \<open>year\<close>: it is dropped.\<close>

definition year_fits :: "parse_state \<Rightarrow> bool" where
  "year_fits ps \<longleftrightarrow> year_int year_min \<le> p_Y ps \<and> p_Y ps \<le> year_int year_max"

definition keeps :: "parse_state \<Rightarrow> parse_state \<Rightarrow> bool" where
  "keeps ps ps' \<longleftrightarrow> (year_fits ps \<longrightarrow> p_Y ps' = p_Y ps) \<and>
     (p_m ps \<noteq> not_a_month \<longrightarrow> p_m ps' = p_m ps) \<and> (p_d ps \<noteq> not_a_day \<longrightarrow> p_d ps' = p_d ps) \<and>
     p_wd ps' = p_wd ps"

lemma keeps_refl: "keeps ps ps"
  by (simp add: keeps_def)

lemma keeps_doy: "keeps ps (ps'\<lparr>p_j := v\<rparr>) \<longleftrightarrow> keeps ps ps'"
  by (simp add: keeps_def)

lemma keeps_trans: "keeps ps ps' \<Longrightarrow> keeps ps' ps'' \<Longrightarrow> keeps ps ps''"
  by (auto simp: keeps_def year_fits_def)

lemma fitting_year: "year_fits ps \<Longrightarrow> p_Y ps \<noteq> not_a_year"
  by (auto simp: year_fits_def year_min_def not_a_year_def)

lemma keeps_years:
  "resolve_y ps = Some ps' \<Longrightarrow> keeps ps ps'" "resolve_g ps = Some ps' \<Longrightarrow> keeps ps ps'"
  "keeps ps (limit_year ps)"
  using fitting_year [of ps]
  by (auto simp: keeps_def resolve_y_def resolve_g_def limit_year_def year_fits_def Let_def split: if_splits)

lemma keeps_trial:
  "trial_year t ps = Some ps' \<Longrightarrow> keeps ps ps'" "trial_month_day t ps = Some ps' \<Longrightarrow> keeps ps ps'"
  using fitting_year [of ps]
  by (auto simp: keeps_def trial_year_def trial_month_day_def trial_month_def trial_day_def
    split: if_splits bind_splits)

lemma keeps_V: "resolve_V ps = Some (ps', c) \<Longrightarrow> keeps ps ps'"
  by (auto simp: resolve_V_def keeps_refl split: if_splits bind_splits intro: keeps_trans keeps_trial)

lemma keeps_week: "resolve_week w week (ps, c) = Some (ps', c') \<Longrightarrow> keeps ps ps'"
  by (auto simp: resolve_week_def keeps_refl Let_def split: if_splits intro: keeps_trial)

lemma keeps_j: "resolve_j (ps, c) = Some (ps', c') \<Longrightarrow> keeps ps ps'"
  by (auto simp: resolve_j_def keeps_refl keeps_doy split: if_splits intro: keeps_trial)

text \<open>
  The year that was parsed: with all its digits, or two digits in the century that was parsed, or in
  that of the full year, or, alone, in the hundred years from 1969. The years of the century \<open>C\<close>
  before 0 are those from \<open>100 * (C + 1) - 100\<close>, with the two digits of the absolute value.
\<close>

definition full_year :: "parse_state \<Rightarrow> int" where
  "full_year ps =
     (if p_y ps = not_a_2digit_year then p_Y ps
      else if p_C ps \<noteq> not_a_century then
        (if 0 \<le> p_C ps then 100 * p_C ps + p_y ps
         else 100 * (p_C ps + 1) - (if p_y ps = 0 then 100 else p_y ps))
      else if p_Y ps \<noteq> not_a_year then p_Y ps
      else p_y ps + (if 69 \<le> p_y ps then 1900 else 2000))"

lemma resolve_y_full: "resolve_y ps = Some ps' \<Longrightarrow> p_Y ps' = full_year ps"
  by (auto simp: resolve_y_def full_year_def century_year_def guess_century_def Let_def split: if_splits)

lemma resolve_date_keeps:
  assumes "resolve_date ps = Some ps'"
  obtains ps1 c where "keeps ps ps1" and "check_date (ps1, c) = Some ps'"
    and "year_int year_min \<le> full_year ps \<and> full_year ps \<le> year_int year_max \<longrightarrow> p_Y ps1 = full_year ps"
proof -
  from assms obtain a b c cc d dc e ec f fc where
    s: "resolve_y ps = Some a" "resolve_g a = Some b" "resolve_V (limit_year b) = Some (c, cc)"
      "resolve_week Sunday p_U (c, cc) = Some (d, dc)" "resolve_week Monday p_W (d, dc) = Some (e, ec)"
      "resolve_j (e, ec) = Some (f, fc)" "check_date (f, fc) = Some ps'"
    unfolding resolve_date_def by (auto split: bind_splits)
  have kept: "keeps a f"
    using keeps_years(2) [OF s(2)] keeps_years(3) [of b] keeps_V [OF s(3)]
      keeps_week [OF s(4)] keeps_week [OF s(5)] keeps_j [OF s(6)]
    by (meson keeps_trans)
  with keeps_years(1) [OF s(1)] have "keeps ps f" by (rule keeps_trans)
  moreover have "year_int year_min \<le> full_year ps \<and> full_year ps \<le> year_int year_max \<longrightarrow>
      p_Y f = full_year ps"
    using kept resolve_y_full [OF s(1)] by (simp add: keeps_def year_fits_def)
  ultimately show ?thesis using that s(7) by blast
qed

section \<open>The date and its weekday\<close>

lemma ymd_ok_days:
  assumes "ymd_ok x"
  shows "- (2 ^ 31) \<le> to_days x" and "to_days x < 2 ^ 31 - 4"
proof -
  obtain Y M D where i: "ymd_ints x = (Y, M, D)" by (cases "ymd_ints x") auto
  define y where "y = (if M \<le> 2 then Y - 1 else Y)"
  define mp where "mp = (if M > 2 then M - 3 else M + 9)"
  have "- 32768 \<le> Y" "Y \<le> 32767" using i year_int_bounds [of "ymd_year x"] by (auto simp: ymd_ints_def)
  then have "- 82 \<le> y div 400" "y div 400 \<le> 81" by (auto simp: y_def)
  moreover have k: "0 \<le> y mod 400" "y mod 400 < 400" by auto
  then have "0 \<le> yoe_start (y mod 400)" "yoe_start (y mod 400) \<le> 146097"
    using yoe_start_nonneg [OF k(1)] yoe_end_le [OF k] year_boundary(3) [OF k]
    by (auto simp: of_bool_def split: if_splits)
  moreover have "1 \<le> M" "M \<le> 12" "1 \<le> D" "D \<le> 31"
    using ymd_ok_valid(1) [OF assms] month_length_bounds [of Y M] by (auto simp: i valid_date_def)
  moreover then have "0 \<le> mp_start mp" "mp_start mp \<le> 337" unfolding mp_start_def mp_def by auto
  moreover have "to_days x = y div 400 * 146097 + (yoe_start (y mod 400) + (mp_start mp + D - 1)) - 719468"
    by (simp add: to_days_ok [OF assms] i days_civil_def Let_def y_def mp_def)
  ultimately show "- (2 ^ 31) \<le> to_days x" "to_days x < 2 ^ 31 - 4" by simp_all
qed

lemma weekday_of_date:
  assumes "ymd_ok x"
  shows "uint (wd_rep (weekday_sys (ymd_sys_days x))) = (to_days x + 4) mod 7"
  using ymd_ok_days [OF assms] by (simp add: weekday_sys_def ymd_sys_days_def weekday_from_days_mod)

lemma check_date_ok:
  assumes "check_date (ps, c) = Some ps'" and "ymd_ok (parsed_ymd ps)"
  shows "parsed_ymd ps' = parsed_ymd ps" and "p_wd ps' = (to_days (parsed_ymd ps) + 4) mod 7"
    and "p_wd ps \<in> {not_a_weekday, p_wd ps'}"
proof -
  let ?wd = "weekday_diff (weekday_sys (ymd_sys_days (parsed_ymd ps))) Sunday"
  have wd: "?wd = (to_days (parsed_ymd ps) + 4) mod 7"
    using weekday_of_date [OF assms(2)] by (simp add: weekday_diff_mod Thursday_rep)
  from assms have "ps' = ps\<lparr>p_wd := ?wd\<rparr>" "p_wd ps = not_a_weekday \<or> p_wd ps = ?wd"
    by (auto simp: check_date_def Let_def split: if_splits)
  then show "p_wd ps' = (to_days (parsed_ymd ps) + 4) mod 7" "p_wd ps \<in> {not_a_weekday, p_wd ps'}"
    "parsed_ymd ps' = parsed_ymd ps"
    by (auto simp: wd) (simp_all add: parsed_ymd_def)
qed

section \<open>What \<open>from_stream\<close> stores\<close>

definition parsed_state :: "std_locale \<Rightarrow> ticks \<Rightarrow> int \<Rightarrow> string \<Rightarrow> istream \<Rightarrow> parse_state" where
  "parsed_state loc tk den fmt is = parse_rest (parse_loop loc tk den fmt (parse_init is))"

lemma resolve_I_date:
  assumes "resolve_I ps = Some ps'"
  shows "p_wd ps' = p_wd ps"
  using assms by (auto simp: resolve_I_def Let_def split: if_splits)

lemma set_fields_date:
  "f_ymd (set_fields den ps fds) = f_ymd fds"
  "p_wd ps \<noteq> not_a_weekday \<Longrightarrow> f_wd (set_fields den ps fds) = parsed_weekday ps"
  by (simp_all add: set_fields_def Let_def)

text \<open>A valid date and a stream that has not failed.\<close>

lemma from_stream_date:
  assumes "\<not> is_fail (r_is (from_stream loc tk den fmt fds is))"
    and "ymd_ok (f_ymd (r_fields (from_stream loc tk den fmt fds is)))"
  defines "ps \<equiv> parsed_state loc tk den fmt is"
    and "x \<equiv> f_ymd (r_fields (from_stream loc tk den fmt fds is))"
  shows "f_wd (r_fields (from_stream loc tk den fmt fds is)) = weekday_sys (ymd_sys_days x)"
    and "p_wd ps \<in> {not_a_weekday, (to_days x + 4) mod 7}"
    and "year_int year_min \<le> full_year ps \<Longrightarrow> full_year ps \<le> year_int year_max \<Longrightarrow>
      year_int (ymd_year x) = full_year ps"
    and "p_m ps \<noteq> not_a_month \<Longrightarrow> ymd_month x = month_ctor (word_of_int (p_m ps))"
    and "p_d ps \<noteq> not_a_day \<Longrightarrow> ymd_day x = day_ctor (word_of_int (p_d ps))"
proof -
  let ?r = "from_stream loc tk den fmt fds is"
  have good: "is_good is" "\<not> p_fail ps" and r: "?r = resolve den ps fds"
    using assms(1) by (auto simp: from_stream_def ps_def parsed_state_def Let_def setstate_def p_fail_def
      split: if_splits)
  obtain ps1 where d: "resolve_date ps = Some ps1"
    using assms(1) r by (auto simp: resolve_def setstate_def split: option.splits)
  obtain ps2 where i: "resolve_I ps1 = Some ps2"
    using assms(1) r d by (auto simp: resolve_def setstate_def Let_def split: option.splits)
  have f: "r_fields ?r = set_fields den ps2 (fds\<lparr>f_ymd := parsed_ymd ps1\<rparr>)"
    by (simp add: r resolve_def d i)
  then have x: "x = parsed_ymd ps1" by (simp add: x_def set_fields_date)
  obtain ps0 c where k: "keeps ps ps0" and c: "check_date (ps0, c) = Some ps1"
    and y: "year_int year_min \<le> full_year ps \<and> full_year ps \<le> year_int year_max \<longrightarrow> p_Y ps0 = full_year ps"
    using resolve_date_keeps [OF d] .
  have ok: "ymd_ok (parsed_ymd ps0)"
    using c assms(2) x by (auto simp: check_date_def Let_def x_def split: if_splits)
  note cd = check_date_ok [OF c ok]
  have wd: "p_wd ps1 = (to_days x + 4) mod 7" and x0: "x = parsed_ymd ps0" using cd x by simp_all
  have okx: "ymd_ok x" using ok x0 by simp
  have lt: "0 \<le> p_wd ps1" "p_wd ps1 < 7" by (simp_all add: wd)
  then have "p_wd ps2 \<noteq> not_a_weekday" using resolve_I_date [OF i] by (simp add: not_a_weekday_def)
  then have "f_wd (r_fields ?r) = parsed_weekday ps2" by (simp add: f set_fields_date)
  moreover have "parsed_weekday ps2 = weekday_sys (ymd_sys_days x)"
  proof -
    have u: "uint (word_of_int (p_wd ps2) :: u32) = p_wd ps2"
      using lt resolve_I_date [OF i] by (intro uint_u32_of_int) auto
    then have "(word_of_int (p_wd ps2) :: u32) \<noteq> 7" using lt resolve_I_date [OF i] by (auto simp: word_uint_eq_iff)
    then have "uint (wd_rep (parsed_weekday ps2)) = p_wd ps2"
      using lt u resolve_I_date [OF i] by (simp add: parsed_weekday_def weekday_ctor_def uint_u8_of_u32)
    then show ?thesis
      using weekday_of_date [OF okx] wd resolve_I_date [OF i] by (metis wd_rep_inject word_uint_eq_iff)
  qed
  ultimately show "f_wd (r_fields ?r) = weekday_sys (ymd_sys_days x)" by simp
  show "p_wd ps \<in> {not_a_weekday, (to_days x + 4) mod 7}" using k cd(3) wd by (simp add: keeps_def)
  have parts: "ymd_year x = year_ctor (p_Y ps0)" "ymd_month x = month_ctor (word_of_int (p_m ps0))"
    "ymd_day x = day_ctor (word_of_int (p_d ps0))"
    by (simp_all add: x0 parsed_ymd_def ym_slash_int_def ym_slash_day_def year_slash_int_def
      year_slash_month_def year_month_ctor_def year_month_day_ctor_def)
  show "year_int (ymd_year x) = full_year ps"
    if "year_int year_min \<le> full_year ps" "full_year ps \<le> year_int year_max"
    using that y parts(1) by (simp add: year_min_def year_max_def)
  show "ymd_month x = month_ctor (word_of_int (p_m ps))" if "p_m ps \<noteq> not_a_month"
    using that k parts(2) by (simp add: keeps_def)
  show "ymd_day x = day_ctor (word_of_int (p_d ps))" if "p_d ps \<noteq> not_a_day"
    using that k parts(3) by (simp add: keeps_def)
qed

end
