(* ===== verification/ParseProperties.thy ===== *)
theory ParseProperties
  imports ParseRound ParseCheck
begin

text \<open>
  Parsing dates and times: the properties C37 to C40 of the development.
\<close>








text \<open>
  C39. The hour of the twelve-hour clock. With an AM or PM it gives the hour of the day, which must
  be the one that was parsed if one was. Without, it cannot give the hour; and next to an hour of
  the day it is accepted up to noon only: the test for hours after noon is the wrong way round, so
  the hour that was printed for the same time is rejected.
\<close>

theorem twelve_hour_resolved:
  assumes "0 \<le> h" and "h < 24" and "p_I ps = make12 h"
  shows "(p_p ps = of_bool (is_pm h) \<and> p_H ps \<in> {not_a_hour, h} \<longrightarrow> map_option p_H (resolve_I ps) = Some h) \<and>
    (p_p ps = not_a_ampm \<and> p_H ps = h \<longrightarrow> (resolve_I ps = None \<longleftrightarrow> 12 < h)) \<and>
    (p_p ps = not_a_ampm \<and> p_H ps = not_a_hour \<longrightarrow> resolve_I ps = None)"
  using assms
  by (auto simp: resolve_I_def make12_def is_pm_def not_a_hour_def not_a_ampm_def not_a_hour_12_value_def Let_def)

theorem twelve_hour_resolved_witness:
  "resolve_I ((parse_init (istream_of []))\<lparr>p_H := 15, p_I := 3\<rparr>) = None"
  using twelve_hour_resolved [of 15 "(parse_init (istream_of []))\<lparr>p_H := 15, p_I := 3\<rparr>"]
  by (simp add: make12_def parse_init_def)

text \<open>
  C40. Looking for a keyword takes from the stream the longest beginning that it shares with some
  keyword, without regard to case, and nothing more; the result is the first keyword that ends
  there, and when there is none the fail bit is set. The end-of-file bit is set when the text ends
  where a keyword could still go on.
\<close>

theorem keyword_scanned:
  "let n = longest_common kws s;
       i = length (takeWhile (\<lambda>ky. \<not> keyword_at s n ky) kws);
       more = list_ex (\<lambda>ky. n < length ky \<and> common s ky = n) kws
   in scan_keyword kws (istream_of s) =
     (i, setstate (n = length s \<and> more) (i = length kws) (istream_of (drop n s)))"
  unfolding scan_keyword_longest scan_end_def Let_def
  by (simp add: setstate_def)

end
