(* ===== verification/Rounding.thy ===== *)
theory Rounding
  imports TimeOfDay
begin

text \<open>
  Rounding durations between any two periods. A period is a ratio of seconds, known to the
  compiler; \<open>no_overflow\<close> decides at compile time whether the quotient of the two periods fits
  into 64 bits, and selects the overload that goes through whole seconds when it does not. The
  numbers of ticks are integers. The result is exact whenever there is no overflow or the unit is a
  whole number of seconds; for other units the way through seconds is wrong.
\<close>

section \<open>Ratios at compile time\<close>

record ratio =
  r_num :: int
  r_den :: int

definition intmax :: int where
  "intmax = 2 ^ 63 - 1"

lemma c_mod_abs: "\<bar>c_mod x y\<bar> = \<bar>x\<bar> mod \<bar>y\<bar>"
proof -
  have "c_mod x y = sgn x * (\<bar>x\<bar> - \<bar>x\<bar> div \<bar>y\<bar> * \<bar>y\<bar>)"
    by (simp add: c_mod_def c_div_def sgn_if abs_if)
  then have "c_mod x y = sgn x * (\<bar>x\<bar> mod \<bar>y\<bar>)" by (simp add: minus_div_mult_eq_mod)
  moreover have "0 \<le> \<bar>x\<bar> mod \<bar>y\<bar>" by (cases "y = 0") simp_all
  ultimately show ?thesis by (auto simp: sgn_if)
qed

text \<open>\<open>static_gcd\<close> with its two specialisations.\<close>

function static_gcd :: "int \<Rightarrow> int \<Rightarrow> int" where
  "static_gcd x y = (if y = 0 then (if x = 0 then 1 else x) else static_gcd y (c_mod x y))"
  by pat_completeness auto
termination
  by (relation "measure (\<lambda>(x, y). nat \<bar>y\<bar>)") (auto simp: c_mod_abs)

declare static_gcd.simps [simp del]

lemma static_gcd_eq:
  "0 \<le> x \<Longrightarrow> 0 \<le> y \<Longrightarrow> static_gcd x y = (if x = 0 \<and> y = 0 then 1 else gcd x y)"
proof (induction x y rule: static_gcd.induct)
  case (1 x y)
  show ?case
  proof (cases "y = 0")
    case True
    with 1(2) show ?thesis by (subst static_gcd.simps) simp
  next
    case False
    then have "c_mod x y = x mod y" using 1(2,3) by (simp add: c_mod_def c_div_nonneg minus_div_mult_eq_mod)
    then show ?thesis using 1 False by (subst static_gcd.simps) (simp add: gcd_red_int [of x y])
  qed
qed

record overflow_check =
  oc_value :: bool
  oc_type :: ratio

text \<open>\<open>no_overflow<R1, R2>\<close>: whether \<open>R1 / R2\<close> fits, and the quotient if it does.\<close>

definition no_overflow :: "ratio \<Rightarrow> ratio \<Rightarrow> overflow_check" where
  "no_overflow R1 R2 =
     (let gcd_n1_n2 = static_gcd (r_num R1) (r_num R2);
          gcd_d1_d2 = static_gcd (r_den R1) (r_den R2);
          n1 = c_div (r_num R1) gcd_n1_n2;
          d1 = c_div (r_den R1) gcd_d1_d2;
          n2 = c_div (r_num R2) gcd_n1_n2;
          d2 = c_div (r_den R2) gcd_d1_d2;
          value = (n1 \<le> c_div intmax d2 \<and> n2 \<le> c_div intmax d1)
      in \<lparr>oc_value = value,
          oc_type = (if value then \<lparr>r_num = n1 * d2, r_den = n2 * d1\<rparr> else \<lparr>r_num = 1, r_den = 1\<rparr>)\<rparr>)"

section \<open>Rounding\<close>

definition one_second :: ratio where
  "one_second = \<lparr>r_num = 1, r_den = 1\<rparr>"

text \<open>
  Of the standard library: \<open>duration_cast\<close> multiplies by the quotient of the periods and divides,
  towards zero; a comparison is exact. \<open>ticks p d \<bowtie> ticks q t\<close> is brought to a common unit.
\<close>

definition duration_cast :: "ratio \<Rightarrow> ratio \<Rightarrow> int \<Rightarrow> int" where
  "duration_cast p q d = c_div (d * (r_num p * r_den q)) (r_den p * r_num q)"

definition from_ticks :: "ratio \<Rightarrow> ratio \<Rightarrow> int \<Rightarrow> int" where
  "from_ticks p q d = d * (r_num p * r_den q)"

definition to_ticks :: "ratio \<Rightarrow> ratio \<Rightarrow> int \<Rightarrow> int" where
  "to_ticks p q t = t * (r_den p * r_num q)"

text \<open>\<open>trunc\<close>, \<open>floor\<close>, \<open>ceil\<close> and \<open>round\<close> of \<open>d\<close> ticks of period \<open>p\<close> to period \<open>q\<close>.\<close>

definition trunc_to :: "ratio \<Rightarrow> ratio \<Rightarrow> int \<Rightarrow> int" where
  "trunc_to p q d =
     (if oc_value (no_overflow p q) then duration_cast p q d
      else duration_cast one_second q (duration_cast p one_second d))"

definition floor_by_trunc :: "ratio \<Rightarrow> ratio \<Rightarrow> int \<Rightarrow> int" where
  "floor_by_trunc p q d =
     (let t = trunc_to p q d in if to_ticks p q t > from_ticks p q d then t - 1 else t)"

definition floor_to :: "ratio \<Rightarrow> ratio \<Rightarrow> int \<Rightarrow> int" where
  "floor_to p q d =
     (if oc_value (no_overflow p q) then floor_by_trunc p q d
      else floor_by_trunc one_second q (floor_by_trunc p one_second d))"

definition ceil_to :: "ratio \<Rightarrow> ratio \<Rightarrow> int \<Rightarrow> int" where
  "ceil_to p q d =
     (let t = trunc_to p q d in if to_ticks p q t < from_ticks p q d then t + 1 else t)"

definition round_to :: "ratio \<Rightarrow> ratio \<Rightarrow> int \<Rightarrow> int" where
  "round_to p q d =
     (let t0 = floor_to p q d;
          t1 = t0 + 1;
          t1 = (if t1 = 0 \<and> t0 < 0 then - t1 else t1);
          diff0 = from_ticks p q d - to_ticks p q t0;
          diff1 = to_ticks p q t1 - from_ticks p q d
      in if diff0 = diff1 then (if t0 - trunc_to q q (c_div t0 2) * 2 = 0 then t0 else t1)
         else if diff0 < diff1 then t0 else t1)"

section \<open>Where rounding is exact\<close>

definition period_ok :: "ratio \<Rightarrow> bool" where
  "period_ok p \<longleftrightarrow> 0 < r_num p \<and> r_num p \<le> intmax \<and> 0 < r_den p \<and> r_den p \<le> intmax"

text \<open>The overload for a quotient that fits, or a unit of whole seconds.\<close>

definition exact_unit :: "ratio \<Rightarrow> ratio \<Rightarrow> bool" where
  "exact_unit p q \<longleftrightarrow> oc_value (no_overflow p q) \<or> r_den q = 1"

text \<open>The number of ticks of \<open>q\<close> in \<open>d\<close> ticks of \<open>p\<close> is \<open>from_ticks p q d / unit_of p q\<close>.\<close>

definition unit_of :: "ratio \<Rightarrow> ratio \<Rightarrow> int" where
  "unit_of p q = r_den p * r_num q"

lemma unit_of_pos: "period_ok p \<Longrightarrow> period_ok q \<Longrightarrow> 0 < unit_of p q"
  by (simp add: unit_of_def period_ok_def)

lemma seconds_fit:
  assumes "period_ok p"
  shows "oc_value (no_overflow p one_second)" "oc_value (no_overflow one_second p)"
proof -
  have "0 < intmax div r_den p" using assms by (simp add: period_ok_def pos_imp_zdiv_pos_iff)
  then have "1 \<le> intmax div r_den p" by simp
  then show "oc_value (no_overflow p one_second)" "oc_value (no_overflow one_second p)"
    using assms
    by (auto simp: no_overflow_def one_second_def period_ok_def static_gcd_eq c_div_nonneg intmax_def Let_def)
qed

lemma floor_by_trunc_exact:
  assumes "period_ok p" and "period_ok q" and "oc_value (no_overflow p q)"
  shows "floor_by_trunc p q d = from_ticks p q d div unit_of p q"
proof -
  have "floor_by_trunc p q d = duration_floor (unit_of p q) (from_ticks p q d)"
    using assms(3) by (simp add: floor_by_trunc_def duration_floor_def duration_trunc_def trunc_to_def
      duration_cast_def from_ticks_def to_ticks_def unit_of_def)
  then show ?thesis by (simp add: duration_floor_div [OF unit_of_pos [OF assms(1,2)]])
qed

text \<open>\<open>floor\<close> gives the largest number of units that is not above the duration.\<close>

lemma floor_to_exact:
  assumes "period_ok p" and "period_ok q" and "exact_unit p q"
  shows "floor_to p q d = from_ticks p q d div unit_of p q"
proof (cases "oc_value (no_overflow p q)")
  case True
  then show ?thesis using floor_by_trunc_exact [OF assms(1,2) True] by (simp add: floor_to_def)
next
  case False
  then have den: "r_den q = 1" using assms(3) by (simp add: exact_unit_def)
  have one: "period_ok one_second" by (simp add: period_ok_def one_second_def intmax_def)
  have "floor_to p q d = floor_by_trunc p one_second d div r_num q"
    using False den floor_by_trunc_exact [OF one assms(2) seconds_fit(2) [OF assms(2)]]
    by (simp add: floor_to_def from_ticks_def unit_of_def one_second_def)
  also have "\<dots> = d * r_num p div r_den p div r_num q"
    using floor_by_trunc_exact [OF assms(1) one seconds_fit(1) [OF assms(1)]]
    by (simp add: from_ticks_def unit_of_def one_second_def)
  also have "\<dots> = from_ticks p q d div unit_of p q"
    using assms(1,2) den by (simp add: from_ticks_def unit_of_def period_ok_def zdiv_zmult2_eq)
  finally show ?thesis .
qed

lemma c_div_c_div: "0 < b \<Longrightarrow> 0 < c \<Longrightarrow> c_div (c_div a b) c = c_div a (b * c)"
  by (cases "0 \<le> a") (auto simp: c_div_nonneg c_div_def sgn_if zdiv_zmult2_eq pos_imp_zdiv_nonneg_iff
    div_int_pos_iff)

lemma trunc_to_exact:
  assumes "period_ok p" and "period_ok q" and "exact_unit p q"
  shows "trunc_to p q d = c_div (from_ticks p q d) (unit_of p q)"
  using assms c_div_c_div [of "r_den p" "r_num q" "d * r_num p"]
  by (auto simp: trunc_to_def duration_cast_def from_ticks_def unit_of_def exact_unit_def one_second_def
    period_ok_def)

text \<open>\<open>ceil\<close> gives the smallest number of units that is not below the duration.\<close>

lemma ceil_to_exact:
  assumes "period_ok p" and "period_ok q" and "exact_unit p q"
  shows "ceil_to p q d = - (- from_ticks p q d div unit_of p q)"
proof -
  let ?x = "from_ticks p q d" and ?m = "unit_of p q"
  have m: "0 < ?m" by (rule unit_of_pos [OF assms(1,2)])
  have "ceil_to p q d = - duration_floor ?m (- ?x)"
    unfolding ceil_to_def duration_floor_def duration_trunc_def trunc_to_exact [OF assms]
    by (auto simp: to_ticks_def unit_of_def c_div_def Let_def algebra_simps)
  then show ?thesis by (simp add: duration_floor_div [OF m])
qed

text \<open>\<open>round\<close> gives the nearest number of units, the even one in the middle.\<close>

lemma trunc_to_same:
  assumes "period_ok q"
  shows "trunc_to q q t = t"
proof -
  have "oc_value (no_overflow q q)"
    using assms by (simp add: no_overflow_def static_gcd_eq period_ok_def c_div_nonneg intmax_def Let_def)
  then show ?thesis
    using assms by (simp add: trunc_to_def duration_cast_def c_div_def period_ok_def abs_mult sgn_mult
      mult_sgn_abs)
qed

lemma round_to_exact:
  assumes "period_ok p" and "period_ok q" and "exact_unit p q"
  shows "round_to p q d =
    (let t = from_ticks p q d div unit_of p q; r = 2 * (from_ticks p q d mod unit_of p q) in
     if r < unit_of p q \<or> r = unit_of p q \<and> even t then t else t + 1)"
proof -
  let ?x = "from_ticks p q d" and ?m = "unit_of p q"
  let ?t = "?x div ?m"
  have diff: "?x - to_ticks p q ?t = ?x mod ?m" "to_ticks p q (?t + 1) - ?x = ?m - ?x mod ?m"
    by (simp_all add: to_ticks_def unit_of_def minus_div_mult_eq_mod [symmetric] algebra_simps)
  have even: "?t - trunc_to q q (c_div ?t 2) * 2 = 0 \<longleftrightarrow> even ?t"
    using c_mod_0_iff [of 2 ?t] by (simp add: trunc_to_same [OF assms(2)] c_mod_def even_iff_mod_2_eq_zero)
  have "(if ?t + 1 = 0 \<and> ?t < 0 then - (?t + 1) else ?t + 1) = ?t + 1" by simp
  then show ?thesis
    unfolding round_to_def floor_to_exact [OF assms] Let_def
    by (simp only: diff even) auto
qed

text \<open>The functions on the ticks of a fraction of a second are those of \<open>TimeOfDay\<close>.\<close>

lemma floor_to_seconds:
  assumes "0 < den" and "den \<le> intmax" and "0 < n" and "n \<le> intmax"
  shows "floor_to \<lparr>r_num = 1, r_den = den\<rparr> \<lparr>r_num = n, r_den = 1\<rparr> d = duration_floor (den * n) d"
  using assms floor_to_exact [of "\<lparr>r_num = 1, r_den = den\<rparr>" "\<lparr>r_num = n, r_den = 1\<rparr>" d]
  by (simp add: period_ok_def exact_unit_def intmax_def from_ticks_def unit_of_def duration_floor_div)

text \<open>
  Other units: two and a half seconds, counted in 64 bits of a fraction of a second, are one unit
  of two and a half seconds, but there are only two whole seconds.
\<close>

lemma floor_to_inexact:
  defines "p \<equiv> \<lparr>r_num = 1, r_den = 2 ^ 62\<rparr>" and "q \<equiv> \<lparr>r_num = 5, r_den = 2\<rparr>"
  shows "period_ok p" and "period_ok q" and "floor_to p q (5 * 2 ^ 61) = 0"
    and "from_ticks p q (5 * 2 ^ 61) div unit_of p q = 1"
proof -
  show "period_ok p" "period_ok q" by (simp_all add: p_def q_def period_ok_def intmax_def)
  show "from_ticks p q (5 * 2 ^ 61) div unit_of p q = 1"
    by (simp add: p_def q_def from_ticks_def unit_of_def)
  show "floor_to p q (5 * 2 ^ 61) = 0"
    by (simp add: p_def q_def floor_to_def floor_by_trunc_def trunc_to_def duration_cast_def no_overflow_def
      static_gcd.simps c_div_def c_mod_def intmax_def to_ticks_def from_ticks_def one_second_def Let_def)
qed

section \<open>Points in time\<close>

record time_point =
  time_since_epoch :: int

definition trunc_tp :: "ratio \<Rightarrow> ratio \<Rightarrow> time_point \<Rightarrow> time_point" where
  "trunc_tp p q tp = \<lparr>time_since_epoch = trunc_to p q (time_since_epoch tp)\<rparr>"

definition floor_tp :: "ratio \<Rightarrow> ratio \<Rightarrow> time_point \<Rightarrow> time_point" where
  "floor_tp p q tp = \<lparr>time_since_epoch = floor_to p q (time_since_epoch tp)\<rparr>"

definition round_tp :: "ratio \<Rightarrow> ratio \<Rightarrow> time_point \<Rightarrow> time_point" where
  "round_tp p q tp = \<lparr>time_since_epoch = round_to p q (time_since_epoch tp)\<rparr>"

definition ceil_tp :: "ratio \<Rightarrow> ratio \<Rightarrow> time_point \<Rightarrow> time_point" where
  "ceil_tp p q tp = \<lparr>time_since_epoch = ceil_to p q (time_since_epoch tp)\<rparr>"

text \<open>\<open>round_i\<close> rounds to an integral number of units.\<close>

definition round_i :: "ratio \<Rightarrow> ratio \<Rightarrow> int \<Rightarrow> int" where
  "round_i p q d = round_to p q d"

definition round_i_tp :: "ratio \<Rightarrow> ratio \<Rightarrow> time_point \<Rightarrow> time_point" where
  "round_i_tp p q tp = \<lparr>time_since_epoch = round_i p q (time_since_epoch tp)\<rparr>"

end
