(* ===== verification/CtString.thy ===== *)
theory CtString
  imports CalFormat
begin

text \<open>
  The strings that \<open>date.h\<close> builds at compile time for the unit of a duration: \<open>string_literal\<close>,
  an array of characters with a final zero, its concatenation, and \<open>msl\<close>, which prints a number
  or a ratio into one. Older compilers build a \<open>std::string\<close> instead; both give the same text.
\<close>

section \<open>Arrays of characters\<close>

type_synonym string_literal = "char list"

abbreviation nul :: char where
  "nul \<equiv> CHR 0x00"

text \<open>The private constructor: all zero.\<close>

definition sl_empty :: "nat \<Rightarrow> string_literal" where
  "sl_empty n = replicate n nul"

definition sl_char :: "char \<Rightarrow> string_literal" where
  "sl_char c = (sl_empty 2)[0 := c]"

definition sl_chars2 :: "char \<Rightarrow> char \<Rightarrow> string_literal" where
  "sl_chars2 c1 c2 = (sl_empty 3)[0 := c1, 1 := c2]"

definition sl_chars3 :: "char \<Rightarrow> char \<Rightarrow> char \<Rightarrow> string_literal" where
  "sl_chars3 c1 c2 c3 = (sl_empty 4)[0 := c1, 1 := c2, 2 := c3]"

text \<open>The loops that copy an array: \<open>n\<close> characters of \<open>a\<close> from \<open>i\<close>, to \<open>p\<close> from \<open>k\<close>.\<close>

fun copy_chars :: "nat \<Rightarrow> char list \<Rightarrow> nat \<Rightarrow> char list \<Rightarrow> nat \<Rightarrow> char list" where
  "copy_chars 0 a i p k = p"
| "copy_chars (Suc n) a i p k = copy_chars n a (Suc i) (p[k := a ! i]) (Suc k)"

definition sl_array :: "char list \<Rightarrow> string_literal" where
  "sl_array a = copy_chars (length a) a 0 (sl_empty (length a)) 0"

definition sl_data :: "string_literal \<Rightarrow> char list" where
  "sl_data x = x"

definition sl_size :: "string_literal \<Rightarrow> nat" where
  "sl_size x = length x - 1"

definition sl_range :: "string_literal \<Rightarrow> char list" where
  "sl_range x = take (sl_size x) x"

definition sl_index :: "string_literal \<Rightarrow> nat \<Rightarrow> char" where
  "sl_index x n = x ! n"

text \<open>Output prints the array as a C string, up to the first zero.\<close>

definition sl_print :: "string_literal \<Rightarrow> string" where
  "sl_print x = takeWhile (\<lambda>c. c \<noteq> nul) x"

definition sl_append11 :: "string_literal \<Rightarrow> string_literal \<Rightarrow> string_literal" where
  "sl_append11 x y = sl_chars2 (x ! 0) (y ! 0)"

definition sl_append21 :: "string_literal \<Rightarrow> string_literal \<Rightarrow> string_literal" where
  "sl_append21 x y = sl_chars3 (x ! 0) (x ! 1) (y ! 0)"

definition sl_append_loop :: "string_literal \<Rightarrow> string_literal \<Rightarrow> string_literal" where
  "sl_append_loop x y =
     copy_chars (length y) y 0
       (copy_chars (length x - 1) x 0 (sl_empty (length x + length y - 1)) 0) (length x - 1)"

text \<open>\<open>operator+\<close>, with the overloads for one and two characters followed by one.\<close>

definition sl_append :: "string_literal \<Rightarrow> string_literal \<Rightarrow> string_literal" where
  "sl_append x y =
     (if length y = 2 \<and> length x = 2 then sl_append11 x y
      else if length y = 2 \<and> length x = 3 then sl_append21 x y
      else sl_append_loop x y)"

definition string_append :: "string \<Rightarrow> string_literal \<Rightarrow> string" where
  "string_append x y = x @ take (sl_size y) (sl_data y)"

section \<open>Numbers and ratios\<close>

definition msl_char :: "char \<Rightarrow> string_literal" where
  "msl_char c = sl_char c"

text \<open>A \<open>do\<close> loop: it runs once before the test.\<close>

function to_string_len :: "int \<Rightarrow> nat" where
  "to_string_len i = (let i = c_div i 10 in if i > 0 then Suc (to_string_len i) else 1)"
  by pat_completeness auto
termination
  by (relation "measure nat") (auto simp: c_div_def sgn_if split: if_splits)

declare to_string_len.simps [simp del]

definition msl_digit :: "int \<Rightarrow> string_literal" where
  "msl_digit n = msl_char (char_of (nat (c_mod n 10 + 48)))"

function msl_num :: "int \<Rightarrow> string_literal" where
  "msl_num n = (if n < 10 then msl_digit n else sl_append (msl_num (c_div n 10)) (msl_digit n))"
  by pat_completeness auto
termination
  by (relation "measure nat") (auto simp: c_div_def)

declare msl_num.simps [simp del]

text \<open>\<open>msl(ratio<N, D>)\<close>, on the ratio in lowest terms.\<close>

definition msl_ratio :: "int \<Rightarrow> int \<Rightarrow> string_literal" where
  "msl_ratio num den =
     (if den \<noteq> 1
      then sl_append (sl_append (sl_append (sl_append (msl_char CHR ''['') (msl_num num))
             (msl_char CHR ''/'')) (msl_num den)) (msl_char CHR '']'')
      else sl_append (sl_append (msl_char CHR ''['') (msl_num num)) (msl_char CHR '']''))"

section \<open>The text of a literal\<close>

definition literal :: "string \<Rightarrow> string_literal" where
  "literal s = s @ [nul]"

lemma copy_chars_eq:
  "i + n \<le> length a \<Longrightarrow> k + n \<le> length p \<Longrightarrow>
    copy_chars n a i p k = take k p @ take n (drop i a) @ drop (k + n) p"
proof (induction n a i p k rule: copy_chars.induct)
  case (2 n a i p k)
  then have "take (Suc n) (drop i a) = a ! i # take n (drop (Suc i) a)"
    by (simp add: Cons_nth_drop_Suc [symmetric])
  moreover have "take (Suc k) (p[k := a ! i]) = take k p @ [a ! i]"
    using 2(3) by (simp add: take_Suc_conv_app_nth)
  ultimately show ?case using 2 by simp
qed simp

lemma sl_array_id [simp]: "sl_array a = a"
  by (simp add: sl_array_def copy_chars_eq sl_empty_def)

lemma sl_append_loop_literal: "sl_append_loop (literal s) (literal t) = literal (s @ t)"
  by (simp add: sl_append_loop_def literal_def copy_chars_eq sl_empty_def del: copy_chars.simps)

lemma sl_char_literal [simp]: "sl_char c = literal [c]"
  by (simp add: sl_char_def sl_empty_def literal_def numeral_eq_Suc)

lemma sl_append_literal [simp]: "sl_append (literal s) (literal t) = literal (s @ t)"
proof -
  consider "length s = 1" "length t = 1" | "length s = 2" "length t = 1"
    | "\<not> (length t = 1 \<and> (length s = 1 \<or> length s = 2))"
    by auto
  then show ?thesis
  proof cases
    case 1
    then obtain c d where "s = [c]" "t = [d]" by (auto simp: length_Suc_conv)
    then show ?thesis
      by (simp add: sl_append_def sl_append11_def sl_chars2_def sl_empty_def literal_def numeral_eq_Suc)
  next
    case 2
    then obtain a b d where "s = [a, b]" "t = [d]" by (auto simp: length_Suc_conv numeral_eq_Suc)
    then show ?thesis
      by (simp add: sl_append_def sl_append21_def sl_chars3_def sl_empty_def literal_def numeral_eq_Suc)
  next
    case 3
    then show ?thesis by (auto simp: sl_append_def literal_def sl_append_loop_literal [unfolded literal_def])
  qed
qed

lemma sl_print_literal: "nul \<notin> set s \<Longrightarrow> sl_print (literal s) = s"
  unfolding sl_print_def literal_def by (subst takeWhile_append2) auto

lemma literal_simps [simp]:
  "length (literal s) = Suc (length s)"
  "sl_size (literal s) = length s" "sl_range (literal s) = s" "string_append x (literal s) = x @ s"
  by (simp_all add: sl_size_def sl_range_def string_append_def sl_data_def literal_def)

lemma msl_digit_literal:
  "0 \<le> n \<Longrightarrow> msl_digit n = literal [digit_char (nat n mod 10)]"
  by (simp add: msl_digit_def msl_char_def c_mod_def c_div_nonneg digit_char_def nat_add_distrib
    nat_mod_distrib minus_div_mult_eq_mod add.commute)

lemma msl_num_literal: "0 \<le> n \<Longrightarrow> msl_num n = literal (to_string n)"
proof (induction n rule: msl_num.induct)
  case (1 n)
  show ?case
  proof (cases "n < 10")
    case True
    then have "nat_to_string (nat n) = [digit_char (nat n mod 10)]"
      by (subst nat_to_string.simps) simp
    with 1 True show ?thesis
      by (subst msl_num.simps) (simp add: msl_digit_literal to_string_def)
  next
    case False
    then have "nat_to_string (nat n) = nat_to_string (nat (n div 10)) @ [digit_char (nat n mod 10)]"
      by (subst nat_to_string.simps) (simp add: nat_div_distrib)
    with 1 False show ?thesis
      by (subst msl_num.simps) (simp add: msl_digit_literal to_string_def c_div_nonneg)
  qed
qed

text \<open>\<open>to_string_len\<close> is the number of characters that \<open>msl\<close> needs.\<close>

lemma to_string_len_eq: "0 \<le> n \<Longrightarrow> to_string_len n = length (to_string n)"
proof (induction n rule: to_string_len.induct)
  case (1 n)
  then have "0 < n div 10 \<Longrightarrow> nat_to_string (nat n) =
      nat_to_string (nat (n div 10)) @ [digit_char (nat n mod 10)]"
    by (subst nat_to_string.simps) (simp add: nat_div_distrib)
  moreover have "\<not> 0 < n div 10 \<Longrightarrow> nat_to_string (nat n) = [digit_char (nat n)]"
    by (subst nat_to_string.simps) simp
  ultimately show ?case
    using 1 by (subst to_string_len.simps) (auto simp: Let_def c_div_nonneg to_string_def)
qed

lemma msl_num_fits: "0 \<le> n \<Longrightarrow> length (msl_num n) = to_string_len n + 1"
  by (simp add: msl_num_literal to_string_len_eq literal_def)

text \<open>The two builds print the same units.\<close>

lemma msl_ratio_text:
  assumes "0 \<le> num" and "0 \<le> den" and "si_prefix num den = None"
  shows "msl_ratio num den = literal (msl num den)"
  using assms by (simp add: msl_ratio_def msl_def msl_char_def msl_num_literal)

lemma msl_ratio_fits:
  assumes "0 \<le> num" and "0 \<le> den"
  shows "length (msl_ratio num den) =
    (if den \<noteq> 1 then to_string_len num + to_string_len den + 4 else to_string_len num + 3)"
  using assms by (simp add: msl_ratio_def msl_char_def msl_num_literal to_string_len_eq)

end
