(* ===== verification/Spec2Isabelle.thy ===== *)
theory Spec2Isabelle
  imports NodeProperties GraphProperties SourceProperties PipelineProperties SyncProperties
    DataProperties FormatProperties ParseProperties Rounding CtString
begin

text \<open>
  A model of \<open>video_stream\<close>, a small framework for video pipelines in C++: nodes connected in a
  graph pass frame metas and control metas to each other through queues; a source node reads
  frames from a data source and hands each to a Python script.

  The program and the theories.

  \<^item> \<open>excepts/vp_excepts.h\<close>: \<open>Excepts\<close>. An operation that can fail returns a sum of
    \<open>vp_exception\<close> and its result; an \<open>assert\<close> that does not hold is one of the errors.
  \<^item> \<open>utils/safe_queue.h\<close>, \<open>vp_semaphore.h\<close>, \<open>vp_gate.h\<close>: \<open>SafeQueue\<close>, \<open>Sync\<close>,
    \<open>JobQueue\<close>, \<open>JobQueueProps\<close>. Each class has a record for its state and a function for
    each critical section; \<open>None\<close> is an operation that blocks. \<open>Monitor\<close> models what they use
    of \<open>std::mutex\<close> and \<open>std::condition_variable\<close>: a step relation on the object and the
    multiset of the threads inside, with every choice of the notified thread and spurious
    wake-ups, and the contracts \<open>cv_tokens\<close> and \<open>token_monitor\<close> under which no wake-up is lost.
    They are interpreted on the semaphore, the queue and the job queue.
  \<^item> \<open>objects/\<close>: \<open>Meta\<close>, the metas as records that extend each other, images as headers over
    buffers in an explicit memory; \<open>utils/src/pybind_vp_meta.cpp\<close>: \<open>PyMat\<close>;
    \<open>utils/pybind_py_caller.h\<close>: \<open>PyCaller\<close>, a call of the script, and \<open>PyInterp\<close>, the life of
    the interpreter and its lock, with pybind11 as the parameter \<open>embedding\<close>.
  \<^item> \<open>nodes/common/\<close>: \<open>Hooks\<close>, the callbacks at the four ports of a node; \<open>Node\<close>, the
    network as a map from node names to nodes, publishing, attaching and detaching; \<open>Graph\<close>,
    the invariant of the node graph. \<open>NodeThreads\<close> models \<open>handle_run\<close>, \<open>dispatch_run\<close> and
    \<open>deinitialized\<close> statement by statement, with program counters, interleaved with any number
    of upstream threads in \<open>meta_flow\<close>; \<open>NodeInv\<close> and \<open>NodeShutdown\<close> hold its invariants and
    the measure of its shutdown.
  \<^item> \<open>nodes/source/\<close>: \<open>DataSource\<close>; \<open>nodes/common/src/vp_src_node.cpp\<close>: \<open>SrcNode\<close> with
    \<open>SrcInv\<close> and \<open>SrcShutdown\<close>, which share the dispatch thread and \<open>deinitialized\<close> with
    \<open>vp_node\<close>. \<open>Pipeline\<close> runs any number of sources and nodes together, with \<open>push_meta\<close> and
    \<open>meta_flow\<close> between them statement by statement (the code itself admits one source node in a
    process at a time, C19); \<open>PipelineInv\<close> and \<open>PipelineFlow\<close> account
    for the frames on a chain of nodes, and \<open>PipelineRest\<close> bounds the steps of a stopped
    pipeline by an instance of \<open>Potential\<close>.
  \<^item> \<open>utils/vp_utils.h\<close>: \<open>StringUtils\<close> and \<open>TimeUtils\<close>, which rest on the calendar of
    \<open>utils/date.h\<close>: \<open>CalBase\<close> (day, month, year, weekday), \<open>CalParts\<close> (partial dates),
    \<open>CalDate\<close> (\<open>year_month_day\<close> and its last-day variant), \<open>CalWeek\<close> (dates by weekday),
    \<open>CalText\<close> (stream output), \<open>TimeOfDay\<close> (rounding of durations, \<open>hh_mm_ss\<close>),
    \<open>Rounding\<close> (the same between any two periods: where it is exact, and a unit for which it is
    not), \<open>CtString\<close> (the unit of a duration as text built at compile time), \<open>CalFormat\<close>
    (\<open>to_stream\<close> and \<open>format\<close>, one function for each conversion; without facets, in builds with
    \<open>ONLY_C_LOCALE\<close>, with the names of \<open>CalNames\<close>). \<open>FormatRef\<close> states what the
    conversions print, \<open>FormatText\<close> proves it, with the weeks of ISO 8601 in \<open>IsoWeek\<close>, and
    \<open>FormatFail\<close> shows when formatting fails. Parsing reads an input stream (\<open>ParseInput\<close>:
    characters, end-of-file and fail bits) into the local variables of \<open>from_stream\<close>
    (\<open>CalParse\<close>, one function for each conversion, with \<open>scan_keyword\<close> for the names in
    \<open>CalKeyword\<close>, which \<open>KeywordText\<close> specifies), from which \<open>ParseFields\<close> takes the date and
    the time of day. \<open>ParseRead\<close>, \<open>ParseNames\<close> and \<open>ParseText\<close> show that the text of each conversion is read
    as the value it was printed from, \<open>ParseResolve\<close> that any consistent choice of values that
    determines the date gives the date, \<open>ParseRound\<close> puts these together, and \<open>ParseCheck\<close>
    shows what every date that was parsed satisfies. \<open>Civil\<close> is
    the reference: the proleptic Gregorian calendar on unbounded integers, with the proof that
    the day count is a bijection that follows the calendar's successor function.
  \<^item> \<open>Prelude\<close> holds the C++ integer conversions, decimal output and lemmas on lists.

  The properties, C1 to C40, stand in eight theories: \<open>NodeProperties\<close> (C1 to C7),
  \<open>GraphProperties\<close> (C8 to C13), \<open>SourceProperties\<close> (C14 to C19), \<open>PipelineProperties\<close> (C20 to
  C22), \<open>SyncProperties\<close> (C23 to C28), \<open>DataProperties\<close> (C29 to C34), \<open>FormatProperties\<close> (C35
  and C36) and \<open>ParseProperties\<close> (C37 to C40). About half of those on threads and synchronisation
  say that the code does what it promises (order, no loss, capacity, wake-ups, termination of the
  shutdown under every schedule); the others exhibit a run in which it does not: a frame lost by
  a control meta, a destructor that never returns, a waiter left asleep, a subscription that
  cannot be removed.

  Conditions. The properties of a node's threads hold for any virtual handlers, those that tell frames
  from control metas for handlers that leave the type tags alone (\<open>typed_methods\<close>). That no frame is
  lost (C1, and the equations of C20 to C22) needs more: no control handler returns \<open>nullptr\<close> (\<open>keeps_controls\<close>), because one that does throws away the
  frames of an incomplete batch (C6); for other handlers C3 and C20 to C22 show that what is left
  is in order and contains nothing twice. A chain of C20 to C22 consists of nodes with one pre node
  each, attached once. The destructor of a source node (C16) ends within 24 steps of its own and
  of the two threads, the second \<open>deinitialized\<close> that \<open>~vp_node\<close> runs included.

  Integers. The fields of \<open>day\<close>, \<open>month\<close>, \<open>year\<close> and \<open>weekday\<close> are words of the source's
  width, and so is the unsigned arithmetic of the conversions. \<open>int\<close> and \<open>long\<close> values that
  count (days, durations, frame indices, semaphore counts) are unbounded; where their conversion
  to another type matters (\<open>size_t_of_int\<close>, \<open>uint32_of_size\<close>, \<open>int_of_ssize\<close>) it is written out.
  \<open>day_range\<close> restricts day numbers to about 32,000 years around the epoch, less than the years
  of 16 bits cover and more than a nanosecond clock of 64 bits does.

  Fuel. Only \<open>detach_recursively\<close> needs it, because nothing in the code bounds its recursion on
  a graph with cycles; C12 shows that one more than the number of edges is always enough.

  Memory model. A step of a thread is one operation on a queue, semaphore, gate, hooker or flag.
  The plain members \<open>alive\<close>, \<open>is_opened\<close> and \<open>pre_nodes\<close> are read and written by several
  threads without synchronisation in the source; the model gives them sequentially consistent
  accesses. The metas are shared by pointer: they live in one world that every handler of every
  node may change at any of its steps. Attaching and detaching are modelled on the network at rest,
  not while the nodes run.

  Parameters: OpenCV (\<open>imread\<close>, \<open>resize\<close>, \<open>Mat::clone\<close>), the file system, the clock, the
  embedded interpreter (\<open>embedding_ok\<close> states its documented behaviour), the outcome of a Python
  call and of \<open>py::cast\<close>, the \<open>time_put\<close> and \<open>time_get\<close> facets (or
  none: \<open>std_locale\<close>),
  \<open>snprintf\<close>, the arithmetic of \<open>double\<close>, and the conversion of decimal seconds to ticks in
  \<open>long double\<close>, of which C37 assumes that it is exact on what the clock can print.

  The decimal point of seconds, printed and read, is that of the classic locale; the source takes it
  from the locale of the stream. The seconds of a clock have a power of ten of ticks.

  Not modelled: the throw of \<open>handle_run\<close> for a meta of no known type, which no value of the
  enumeration reaches; \<open>pending_meta\<close> is a function of \<open>Node\<close>, but no handler calls it
  in the runs of \<open>NodeThreads\<close>. \<open>utils/logging.h\<close> and the log lines; the pybind11 module definition; of \<open>date.h\<close> the
  restoring of stream flags, the compile-time selection of
  overloads, floating-point durations and wide characters; the vendored libraries.
\<close>

end
